theory Spec2Isabelle
  imports Complex_Main "HOL-Library.AList" "HOL-Library.Sublist"
begin

section \<open>Python values used by the collector\<close>

subsection \<open>Text\<close>

text \<open>
  Two representations of a Python \<^verbatim>\<open>str\<close> are used. Page sources and decoded file
  contents, whose non-ASCII characters matter (the "missing page" phrase is Cyrillic, and
  \<^verbatim>\<open>str.splitlines\<close>, \<^verbatim>\<open>str.strip\<close> know Unicode separators), are lists of Unicode code
  points (\<open>text\<close>). File names, URLs, messages and status strings, of which the
  collector only inspects ASCII parts, are HOL strings.
\<close>

type_synonym ustr = "nat list"

text \<open>\<^verbatim>\<open>pattern in s\<close> on strings: \<open>pattern\<close> occurs in \<open>s\<close> as a contiguous block.\<close>

fun contains :: "'a list \<Rightarrow> 'a list \<Rightarrow> bool" where
  "contains pattern [] = (pattern = [])"
| "contains pattern (c # cs) = (prefix pattern (c # cs) \<or> contains pattern cs)"

definition startswith :: "'a list \<Rightarrow> 'a list \<Rightarrow> bool" where
  "startswith s pattern = prefix pattern s"

definition endswith :: "'a list \<Rightarrow> 'a list \<Rightarrow> bool" where
  "endswith s pattern = prefix (rev pattern) (rev s)"

text \<open>
  \<^verbatim>\<open>str.isspace\<close> of one character, by code point: the characters \<^verbatim>\<open>str.strip()\<close>
  removes.
\<close>

definition isspace :: "nat \<Rightarrow> bool" where
  "isspace c =
     ((9 \<le> c \<and> c \<le> 13) \<or> (28 \<le> c \<and> c \<le> 32) \<or> c = 133 \<or> c = 160 \<or> c = 5760
      \<or> (8192 \<le> c \<and> c \<le> 8202) \<or> c = 8232 \<or> c = 8233 \<or> c = 8239 \<or> c = 8287 \<or> c = 12288)"

definition strip :: "ustr \<Rightarrow> ustr" where
  "strip s = rev (dropWhile isspace (rev (dropWhile isspace s)))"

text \<open>
  A character of a HOL string stands for the code point of the same number, 0 to 255. On
  these, \<^verbatim>\<open>strip()\<close> removes the white space of that range (tab to carriage return, the
  four separators 28 to 31, the space, the next-line character 133 and the no-break space
  160), and \<^verbatim>\<open>lower()\<close> maps the capitals: \<^verbatim>\<open>A\<close> to \<^verbatim>\<open>Z\<close>, and the code points 192 to
  222 but the multiplication sign 215, to the code point 32 above.
\<close>

definition strip_str :: "string \<Rightarrow> string" where
  "strip_str s =
     rev (dropWhile (\<lambda>c. isspace (of_char c)) (rev (dropWhile (\<lambda>c. isspace (of_char c)) s)))"

definition capitals :: string where
  "capitals =
     ''ABCDEFGHIJKLMNOPQRSTUVWXYZ'' @
     [CHR 0xC0, CHR 0xC1, CHR 0xC2, CHR 0xC3, CHR 0xC4, CHR 0xC5, CHR 0xC6, CHR 0xC7,
      CHR 0xC8, CHR 0xC9, CHR 0xCA, CHR 0xCB, CHR 0xCC, CHR 0xCD, CHR 0xCE, CHR 0xCF,
      CHR 0xD0, CHR 0xD1, CHR 0xD2, CHR 0xD3, CHR 0xD4, CHR 0xD5, CHR 0xD6,
      CHR 0xD8, CHR 0xD9, CHR 0xDA, CHR 0xDB, CHR 0xDC, CHR 0xDD, CHR 0xDE]"

definition smalls :: string where
  "smalls =
     ''abcdefghijklmnopqrstuvwxyz'' @
     [CHR 0xE0, CHR 0xE1, CHR 0xE2, CHR 0xE3, CHR 0xE4, CHR 0xE5, CHR 0xE6, CHR 0xE7,
      CHR 0xE8, CHR 0xE9, CHR 0xEA, CHR 0xEB, CHR 0xEC, CHR 0xED, CHR 0xEE, CHR 0xEF,
      CHR 0xF0, CHR 0xF1, CHR 0xF2, CHR 0xF3, CHR 0xF4, CHR 0xF5, CHR 0xF6,
      CHR 0xF8, CHR 0xF9, CHR 0xFA, CHR 0xFB, CHR 0xFC, CHR 0xFD, CHR 0xFE]"

definition lower_char :: "char \<Rightarrow> char" where
  "lower_char c = (case map_of (zip capitals smalls) c of None \<Rightarrow> c | Some l \<Rightarrow> l)"

definition lower :: "string \<Rightarrow> string" where
  "lower s = map lower_char s"

subsection \<open>Integers as text\<close>

text \<open>
  \<^verbatim>\<open>str(n)\<close> on an integer: the decimal digits, with a leading minus sign for a negative
  number. The collector uses it for the keys of the retry dictionary
  (\<^verbatim>\<open>str(guarantee_id)\<close>), for file names and inside f-strings.
\<close>

fun str_nat :: "nat \<Rightarrow> string" where
  "str_nat n =
     (if n < 10 then [''0123456789'' ! n]
      else str_nat (n div 10) @ [''0123456789'' ! (n mod 10)])"

declare str_nat.simps [simp del]

definition str_int :: "int \<Rightarrow> string" where
  "str_int i = (if i < 0 then CHR ''-'' # str_nat (nat (- i)) else str_nat (nat i))"

text \<open>
  \<^verbatim>\<open>int(s)\<close> on a string (CPython 3.11, Unicode 14), \<open>None\<close> where Python raises
  \<^verbatim>\<open>ValueError\<close>. A decimal digit is a character of the category \<^verbatim>\<open>Nd\<close>: the digits of a
  script are ten consecutive code points, and \<open>decimal_zeros\<close> lists the zero of each.
  The white space around the number is dropped: the ASCII characters tab to carriage
  return and the space, and the white space above the ASCII range (the separators 28 to
  31 are white space for \<^verbatim>\<open>str.strip\<close> but not for \<^verbatim>\<open>int\<close>). Then comes an optional
  sign and the digits, where single underscores may stand between digits. A number of
  more than 4300 digits is refused (\<^verbatim>\<open>sys.get_int_max_str_digits()\<close>).
\<close>

definition decimal_zeros :: "nat list" where
  "decimal_zeros =
     [48, 1632, 1776, 1984, 2406, 2534, 2662, 2790, 2918, 3046, 3174, 3302, 3430, 3558,
      3664, 3792, 3872, 4160, 4240, 6112, 6160, 6470, 6608, 6784, 6800, 6992, 7088, 7232,
      7248, 42528, 43216, 43264, 43472, 43504, 43600, 44016, 65296, 66720, 68912, 69734,
      69872, 69942, 70096, 70384, 70736, 70864, 71248, 71360, 71472, 71904, 72016, 72784,
      73040, 73120, 92768, 92864, 93008, 120782, 120792, 120802, 120812, 120822, 123200,
      123632, 125264, 130032]"

definition decimal :: "nat \<Rightarrow> nat option" where
  "decimal c = map_option (\<lambda>z. c - z) (find (\<lambda>z. z \<le> c \<and> c < z + 10) decimal_zeros)"

definition int_space :: "nat \<Rightarrow> bool" where
  "int_space c = ((9 \<le> c \<and> c \<le> 13) \<or> c = 32 \<or> (128 \<le> c \<and> isspace c))"

text \<open>
  The digits read so far have the value \<open>acc\<close> and are \<open>n\<close>; \<open>after_digit\<close> says that
  the last character was a digit.
\<close>

fun int_digits :: "nat \<Rightarrow> bool \<Rightarrow> nat \<Rightarrow> ustr \<Rightarrow> nat option" where
  "int_digits acc after_digit n [] = (if after_digit \<and> n \<le> 4300 then Some acc else None)"
| "int_digits acc after_digit n (c # cs) =
     (case decimal c of
        Some d \<Rightarrow> int_digits (10 * acc + d) True (Suc n) cs
      | None \<Rightarrow> if c = 95 \<and> after_digit then int_digits acc False n cs else None)"

definition py_int :: "ustr \<Rightarrow> int option" where
  "py_int s =
     (case rev (dropWhile int_space (rev (dropWhile int_space s))) of
        [] \<Rightarrow> None
      | c # cs \<Rightarrow>
          if c = 45 then map_option (\<lambda>n. - int n) (int_digits 0 False 0 cs)
          else if c = 43 then map_option int (int_digits 0 False 0 cs)
          else map_option int (int_digits 0 False 0 (c # cs)))"

text \<open>The code points of a HOL string (for ASCII, its UTF-8 bytes as well).\<close>

definition codes :: "string \<Rightarrow> ustr" where
  "codes s = map of_char s"

subsection \<open>Dictionaries\<close>

text \<open>
  A Python \<^verbatim>\<open>dict\<close> keeps its keys in insertion order, and the order of the retry
  dictionary decides the order of the worklist, so a dictionary is an association list
  with distinct keys: \<^const>\<open>AList.update\<close> is \<^verbatim>\<open>d[k] = v\<close> (in place for a key that is
  present, appended otherwise), \<^const>\<open>AList.delete\<close> is \<^verbatim>\<open>d.pop(k, None)\<close>.
\<close>

type_synonym ('k, 'v) dict = "('k \<times> 'v) list"

definition dict_get :: "('k, 'v) dict \<Rightarrow> 'k \<Rightarrow> 'v \<Rightarrow> 'v" where
  "dict_get d k dflt = (case map_of d k of None \<Rightarrow> dflt | Some v \<Rightarrow> v)"

subsection \<open>Exceptions\<close>

text \<open>
  An exception is its class and its message (\<^verbatim>\<open>str(exc)\<close>). The classes are the ones the
  collector tells apart in an \<^verbatim>\<open>except\<close> clause, and \<open>OtherException\<close> for every other
  subclass of \<^verbatim>\<open>Exception\<close>. In Selenium \<^verbatim>\<open>NoSuchWindowException\<close> is a subclass of
  \<^verbatim>\<open>WebDriverException\<close>. A call into the browser, the file system or a parser is
  modelled by its outcome: \<open>exn option\<close> for a call whose value is not used
  (\<open>Some e\<close>: it raised \<open>e\<close>), \<open>exn + 'a\<close> for a call with a value (\<open>Inl e\<close>: it
  raised \<open>e\<close>).
\<close>

datatype exn_class =
  ProcessingTimeout | NoSuchWindowException | WebDriverException | OSError
  | UnicodeDecodeError | ValueError | OtherException

datatype exn = Exn (cls: exn_class) (msg: string)

definition is_webdriver_exception :: "exn \<Rightarrow> bool" where
  "is_webdriver_exception e = (cls e = NoSuchWindowException \<or> cls e = WebDriverException)"

section \<open>Statuses\<close>

text \<open>The five terminal classifications of a record (the string values of \<^verbatim>\<open>status\<close>).\<close>

datatype status = OK | MISSING | PARTIAL | ERROR | TIMEOUT

section \<open>Retry bookkeeping (\<^verbatim>\<open>_process_ids\<close>, lines 345-352)\<close>

text \<open>
  \<^verbatim>\<open>
  if status in {"ERROR", "PARTIAL", "TIMEOUT"}:
      attempts = retry_state.get(str(guarantee_id), 0) + 1
      if attempts < args.max_retries:
          retry_state[str(guarantee_id)] = attempts
      else:
          retry_state.pop(str(guarantee_id), None)
  else:
      retry_state.pop(str(guarantee_id), None)
  \<close>
\<close>

definition retry_update :: "int \<Rightarrow> status \<Rightarrow> int \<Rightarrow> (string, int) dict \<Rightarrow> (string, int) dict" where
  "retry_update max_retries st guarantee_id retry_state =
     (if st = ERROR \<or> st = PARTIAL \<or> st = TIMEOUT then
        (let attempts = dict_get retry_state (str_int guarantee_id) 0 + 1 in
         if attempts < max_retries
         then AList.update (str_int guarantee_id) attempts retry_state
         else AList.delete (str_int guarantee_id) retry_state)
      else AList.delete (str_int guarantee_id) retry_state)"

text \<open>
  The retry dictionary after the same ID has been processed once per status of the list,
  in order: the state update of each attempt applied to the result of the one before.
\<close>

definition retry_after :: "int \<Rightarrow> int \<Rightarrow> status list \<Rightarrow> (string, int) dict \<Rightarrow> (string, int) dict" where
  "retry_after max_retries guarantee_id sts retry_state =
     foldl (\<lambda>rs st. retry_update max_retries st guarantee_id rs) retry_state sts"

definition failing :: "status \<Rightarrow> bool" where
  "failing st = (st = ERROR \<or> st = PARTIAL \<or> st = TIMEOUT)"

section \<open>The run state store (\<^verbatim>\<open>eis/storage.py\<close>)\<close>

subsection \<open>Reading a ustr file\<close>

text \<open>
  \<^verbatim>\<open>path.read_text(encoding="utf-8")\<close> decodes the bytes of the file strictly: a byte
  sequence that is not UTF-8 (a stray continuation byte, an overlong form, a surrogate, a
  code point above U+10FFFF, a truncated sequence) raises \<^verbatim>\<open>UnicodeDecodeError\<close>. The
  decoder reads one byte at a time: \<open>need\<close> continuation bytes are still due for the
  code point whose leading bits are \<open>acc\<close>, and the next byte must lie in
  \<open>lo..hi\<close>. A byte is its value, a number below 256.
\<close>

fun utf8_from :: "nat \<Rightarrow> nat \<Rightarrow> nat \<Rightarrow> nat \<Rightarrow> nat list \<Rightarrow> ustr option" where
  "utf8_from need acc lo hi [] = (if need = 0 then Some [] else None)"
| "utf8_from need acc lo hi (b # bs) =
     (if need = 0 then
        (if b < 128 then map_option ((#) b) (utf8_from 0 0 128 191 bs)
         else if 194 \<le> b \<and> b \<le> 223 then utf8_from 1 (b - 192) 128 191 bs
         else if 224 \<le> b \<and> b \<le> 239 then
           utf8_from 2 (b - 224) (if b = 224 then 160 else 128) (if b = 237 then 159 else 191) bs
         else if 240 \<le> b \<and> b \<le> 244 then
           utf8_from 3 (b - 240) (if b = 240 then 144 else 128) (if b = 244 then 143 else 191) bs
         else None)
      else if lo \<le> b \<and> b \<le> hi then
        (if need = 1 then map_option ((#) (acc * 64 + (b - 128))) (utf8_from 0 0 128 191 bs)
         else utf8_from (need - 1) (acc * 64 + (b - 128)) 128 191 bs)
      else None)"

definition decode_utf8 :: "nat list \<Rightarrow> ustr option" where
  "decode_utf8 bytes = utf8_from 0 0 128 191 bytes"

text \<open>
  Text mode reads with universal newlines: \<^verbatim>\<open>\r\n\<close> and a lone \<^verbatim>\<open>\r\<close> arrive as
  \<^verbatim>\<open>\n\<close>.
\<close>

fun universal_newlines :: "ustr \<Rightarrow> ustr" where
  "universal_newlines [] = []"
| "universal_newlines [c] = [if c = 13 then 10 else c]"
| "universal_newlines (c # d # cs) =
     (if c = 13 \<and> d = 10 then 10 # universal_newlines cs
      else if c = 13 then 10 # universal_newlines (d # cs)
      else c # universal_newlines (d # cs))"

text \<open>
  \<^verbatim>\<open>str.splitlines()\<close>: the lines without their ends; a line ends at \<^verbatim>\<open>\n\<close>, \<^verbatim>\<open>\r\<close>,
  \<^verbatim>\<open>\r\n\<close>, \<^verbatim>\<open>\v\<close>, \<^verbatim>\<open>\f\<close>, the separators 28 to 30, NEL (133) and the Unicode line and
  paragraph separators; a ustr that ends with a line end has no empty last line.
\<close>

definition line_boundary :: "nat \<Rightarrow> bool" where
  "line_boundary c = (c \<in> {10, 11, 12, 13, 28, 29, 30, 133, 8232, 8233})"

fun splitlines_from :: "ustr \<Rightarrow> ustr \<Rightarrow> ustr list" where
  "splitlines_from cur [] = (if cur = [] then [] else [cur])"
| "splitlines_from cur [c] = (if line_boundary c then [cur] else [cur @ [c]])"
| "splitlines_from cur (c # d # cs) =
     (if c = 13 \<and> d = 10 then cur # splitlines_from [] cs
      else if line_boundary c then cur # splitlines_from [] (d # cs)
      else splitlines_from (cur @ [c]) (d # cs))"

definition splitlines :: "ustr \<Rightarrow> ustr list" where
  "splitlines s = splitlines_from [] s"

subsection \<open>\<^verbatim>\<open>load_processed_ids\<close> (lines 49-61)\<close>

text \<open>
  \<^verbatim>\<open>
  def load_processed_ids(path: Path) -> Set[int]:
      if not path.exists():
          return set()
      processed: Set[int] = set()
      for line in path.read_text(encoding="utf-8").splitlines():
          line = line.strip()
          if not line:
              continue
          try:
              processed.add(int(line))
          except ValueError:
              continue
      return processed
  \<close>
  The file is \<open>None\<close> when the path does not exist and its bytes otherwise;
  \<open>to_int\<close> is the built-in \<^verbatim>\<open>int\<close>, \<open>None\<close> where it raises \<^verbatim>\<open>ValueError\<close>.
  The \<^verbatim>\<open>try\<close> covers the conversion only, so a decoding error leaves the function.
\<close>

fun processed_loop :: "(ustr \<Rightarrow> int option) \<Rightarrow> ustr list \<Rightarrow> int set \<Rightarrow> int set" where
  "processed_loop to_int [] processed = processed"
| "processed_loop to_int (line # rest) processed =
     (let line' = strip line in
      if line' = [] then processed_loop to_int rest processed
      else (case to_int line' of
              None \<Rightarrow> processed_loop to_int rest processed
            | Some n \<Rightarrow> processed_loop to_int rest (insert n processed)))"

definition load_processed_ids :: "(ustr \<Rightarrow> int option) \<Rightarrow> nat list option \<Rightarrow> exn + int set" where
  "load_processed_ids to_int file =
     (case file of
        None \<Rightarrow> Inr {}
      | Some bytes \<Rightarrow>
          (case decode_utf8 bytes of
             None \<Rightarrow> Inl (Exn UnicodeDecodeError ''invalid utf-8'')
           | Some content \<Rightarrow>
               Inr (processed_loop to_int (splitlines (universal_newlines content)) {})))"

subsection \<open>\<^verbatim>\<open>append_processed_id\<close> (lines 64-67)\<close>

text \<open>
  Opens the file for appending (creating it when missing) and writes the ID and a newline.
\<close>

definition append_processed_id :: "nat list option \<Rightarrow> int \<Rightarrow> nat list option" where
  "append_processed_id file guarantee_id =
     Some ((case file of None \<Rightarrow> [] | Some bytes \<Rightarrow> bytes) @ codes (str_int guarantee_id) @ [10])"

subsection \<open>\<^verbatim>\<open>next_run_id\<close> (lines 83-88)\<close>

text \<open>
  \<^verbatim>\<open>
  def next_run_id(path: Path) -> int:
      state = load_json(path, {})
      last_run_id = int(state.get("last_run_id", 0))
      run_id = last_run_id + 1
      save_json(path, {"last_run_id": run_id, "updated_at": utc_now_iso()})
      return run_id
  \<close>
  The run-counter file holds the last run ID and the time it was written; \<open>None\<close> is the
  missing file. The result is the new run ID and the new content of the file.
\<close>

record run_state =
  last_run_id :: int
  rs_updated_at :: string

definition next_run_id :: "run_state option \<Rightarrow> string \<Rightarrow> int \<times> run_state option" where
  "next_run_id file now_iso =
     (let last = (case file of None \<Rightarrow> 0 | Some s \<Rightarrow> last_run_id s);
          run_id = last + 1
      in (run_id, Some \<lparr>last_run_id = run_id, rs_updated_at = now_iso\<rparr>))"

section \<open>The attachment downloader (\<^verbatim>\<open>eis/downloader.py\<close>)\<close>

subsection \<open>Rows and paths\<close>

text \<open>
  An attachment as \<^verbatim>\<open>parse_document_info\<close> lists it (the four keys are always
  present), and a row of the file table.
\<close>

record attachment =
  att_download_url :: string
  att_original_filename :: string
  att_document_index :: int
  att_document_number :: string

record file_row =
  run_id :: int
  guarantee_id :: int
  file_index :: nat
  stored_filename :: string
  stored_path :: string
  original_filename :: string
  download_url :: string
  document_index :: int
  document_number :: string
  page_count :: nat
  mime_type :: string
  download_status :: string
  sha256 :: string

text \<open>
  \<^verbatim>\<open>Path(p).name\<close> and \<^verbatim>\<open>Path(p).suffix\<close> of a POSIX path (Python 3.11): the path is cut
  at the slashes, the empty components and the components \<^verbatim>\<open>.\<close> are dropped, and the name
  is the last component left (none for the root and for the empty path, and \<^verbatim>\<open>..\<close> is a
  name); the suffix is the part of the name from its last dot on, when that dot is
  neither the first nor the last character of the name.
\<close>

fun components :: "string \<Rightarrow> string \<Rightarrow> string list" where
  "components part [] = [part]"
| "components part (c # cs) =
     (if c = CHR ''/'' then part # components [] cs else components (part @ [c]) cs)"

definition path_name :: "string \<Rightarrow> string" where
  "path_name p =
     (case rev (filter (\<lambda>part. part \<noteq> [] \<and> part \<noteq> ''.'') (components [] p)) of
        [] \<Rightarrow> []
      | name # parts \<Rightarrow> name)"

definition path_suffix :: "string \<Rightarrow> string" where
  "path_suffix p =
     (let name = path_name p;
          ext = rev (takeWhile (\<lambda>c. c \<noteq> CHR ''.'') (rev name))
      in if CHR ''.'' \<in> set name \<and> ext \<noteq> [] \<and> length ext + 1 < length name
         then CHR ''.'' # ext else [])"

subsection \<open>\<^verbatim>\<open>pdf_page_count\<close> (lines 30-50)\<close>

text \<open>
  Zero for a path that does not end in \<^verbatim>\<open>.pdf\<close>; otherwise up to
  \<^verbatim>\<open>max(1, retries)\<close> attempts to read the file, \<^verbatim>\<open>retries\<close> being 3 at every call of the
  repository, the first that succeeds giving the count, and zero when all raise.
  \<open>reads k\<close> is the outcome of the attempt number \<open>k\<close>.
\<close>

fun pdf_attempts :: "(nat \<Rightarrow> exn + nat) \<Rightarrow> nat \<Rightarrow> nat \<Rightarrow> nat" where
  "pdf_attempts reads k 0 = 0"
| "pdf_attempts reads k (Suc n) =
     (case reads k of Inr pages \<Rightarrow> pages | Inl e \<Rightarrow> pdf_attempts reads (Suc k) n)"

definition pdf_page_count :: "string \<Rightarrow> (nat \<Rightarrow> exn + nat) \<Rightarrow> nat" where
  "pdf_page_count path reads =
     (if lower (path_suffix path) \<noteq> ''.pdf'' then 0 else pdf_attempts reads 0 (max 1 3))"

subsection \<open>\<^verbatim>\<open>_detect_download_error\<close> (lines 87-100)\<close>

text \<open>
  The markers looked for in the page source, as code points: \<^verbatim>\<open>File with uid\<close>,
  \<^verbatim>\<open>not found\<close>, their Russian counterparts, and the two spellings of
  \<^verbatim>\<open>"status":"ERROR"\<close>.
\<close>

definition FILE_WITH_UID :: ustr where
  "FILE_WITH_UID = [70, 105, 108, 101, 32, 119, 105, 116, 104, 32, 117, 105, 100]"

definition NOT_FOUND :: ustr where
  "NOT_FOUND = [110, 111, 116, 32, 102, 111, 117, 110, 100]"

definition FILE_WITH_UID_RU :: ustr where
  "FILE_WITH_UID_RU = [1060, 1072, 1081, 1083, 32, 1089, 32, 117, 105, 100]"

definition NOT_FOUND_RU :: ustr where
  "NOT_FOUND_RU = [1085, 1077, 32, 1085, 1072, 1081, 1076, 1077, 1085]"

definition STATUS_ERROR_QUOTED :: ustr where
  "STATUS_ERROR_QUOTED = [34, 115, 116, 97, 116, 117, 115, 34, 58, 34, 69, 82, 82, 79, 82, 34]"

definition STATUS_ERROR :: ustr where
  "STATUS_ERROR = [115, 116, 97, 116, 117, 115, 34, 58, 34, 69, 82, 82, 79, 82, 34]"

text \<open>
  \<^verbatim>\<open>
  try:
      if download_handle:
          driver.switch_to.window(download_handle)
      source = driver.page_source or ""
      if ("File with uid" in source and "not found" in source) or (...):
          return "FAILED_NOT_FOUND"
      if "\"status\":\"ERROR\"" in source or "status\":\"ERROR\"" in source:
          return "FAILED_ERROR_PAGE"
  except (NoSuchWindowException, WebDriverException):
      return ""
  return ""
  \<close>
  \<open>page\<close> is the outcome of the two driver calls: the source read, or the exception the
  first failing one raised. An exception of another class leaves the function.
\<close>

definition detect_download_error :: "exn + ustr \<Rightarrow> exn + string" where
  "detect_download_error page =
     (case page of
        Inl e \<Rightarrow> if is_webdriver_exception e then Inr [] else Inl e
      | Inr source \<Rightarrow>
          if (contains FILE_WITH_UID source \<and> contains NOT_FOUND source)
             \<or> (contains FILE_WITH_UID_RU source \<and> contains NOT_FOUND_RU source)
          then Inr ''FAILED_NOT_FOUND''
          else if contains STATUS_ERROR_QUOTED source \<or> contains STATUS_ERROR source
          then Inr ''FAILED_ERROR_PAGE''
          else Inr [])"

subsection \<open>\<^verbatim>\<open>_close_download_tab\<close> (lines 71-84)\<close>

text \<open>
  Nothing to do without a download window. Otherwise \<open>close_window\<close> is the outcome
  of switching to the window and closing it, where only \<^verbatim>\<open>NoSuchWindowException\<close> is
  swallowed, and \<open>restore_focus\<close> the outcome of the \<^verbatim>\<open>finally\<close> block, whose exception
  replaces the pending one.
\<close>

definition close_download_tab :: "string option \<Rightarrow> exn option \<Rightarrow> exn option \<Rightarrow> exn option" where
  "close_download_tab download_handle close_window restore_focus =
     (if download_handle = None \<or> download_handle = Some [] then None
      else (case restore_focus of
              Some e' \<Rightarrow> Some e'
            | None \<Rightarrow>
                (case close_window of
                   None \<Rightarrow> None
                 | Some e \<Rightarrow> if cls e = NoSuchWindowException then None else Some e)))"

subsection \<open>The completion protocol: \<^verbatim>\<open>_wait_for_download_result\<close> (lines 146-193)\<close>

text \<open>
  What one pass of the polling loop sees: the outcome of reading the download window; the
  download directory, each entry with its name, whether it is a regular file, the size
  that \<^verbatim>\<open>path.stat()\<close> of the \<^verbatim>\<open>for\<close> loop reads and the modification time that
  \<^verbatim>\<open>p.stat()\<close> of \<^verbatim>\<open>max\<close> reads, or the exception that the scan or one of these calls
  raised; whether deleting a stalled file raises \<^verbatim>\<open>OSError\<close>; the outcome of
  \<^verbatim>\<open>time.sleep(1)\<close>, which returns unless the per-ID alarm fires in it; and the clock.

  The function calls \<^verbatim>\<open>time.time()\<close> at the loop test, for every new file whose size
  changed (line 172), at the stability test (line 178) and at the stall test (line 184).
  The readings of a pass are \<^emph>\<open>not\<close> one instant: the driver call and the file-system
  calls between them take time. The clock is threaded through the pass, every reading
  being later than the one before by the seconds the observation gives (a negative number
  counts as zero: the clock does not run backwards): \<open>track_lag k\<close> before the reading
  for the new file number \<open>k\<close>, \<open>stable_lag\<close> before the stability test, \<open>stall_lag\<close>
  before the stall test, and \<open>elapsed\<close> from there to the next loop test, which is at
  least one second because of \<^verbatim>\<open>time.sleep(1)\<close>. The default arguments of
  \<^verbatim>\<open>progress.get\<close> read the clock too, but their value is never used: a file that has no
  entry gets one with the reading of line 172.
\<close>

record dirent =
  d_name :: string
  d_is_file :: bool
  st_size :: nat
  st_mtime :: real

record tick =
  page :: "exn + ustr"
  listing :: "exn + dirent list"
  unlink_fails :: bool
  track_lag :: "nat \<Rightarrow> real"
  stable_lag :: real
  stall_lag :: real
  sleep :: "exn option"
  elapsed :: real

type_synonym progress = "string \<rightharpoonup> int \<times> real"

text \<open>The clock \<open>lag\<close> seconds after it read \<open>now\<close>.\<close>

definition later :: "real \<Rightarrow> real \<Rightarrow> real" where
  "later now lag = now + max 0 lag"

text \<open>
  \<^verbatim>\<open>
  size = path.stat().st_size
  entry = progress.get(path.name, {"size": -1, "last_change": time.time()})
  if size != entry["size"]:
      entry["size"] = size
      entry["last_change"] = time.time()
      progress[path.name] = entry
  \<close>
  \<open>now\<close> is the reading of line 172.
\<close>

definition track :: "real \<Rightarrow> progress \<Rightarrow> dirent \<Rightarrow> progress" where
  "track now progress p =
     (let entry = (case progress (d_name p) of None \<Rightarrow> (- 1, now) | Some e \<Rightarrow> e)
      in if int (st_size p) \<noteq> fst entry
         then progress(d_name p \<mapsto> (int (st_size p), now))
         else progress)"

text \<open>
  The \<^verbatim>\<open>for\<close> loop over the new files, from the file number \<open>k\<close> of the pass: the clock
  and the dictionary after it.
\<close>

fun track_files :: "(nat \<Rightarrow> real) \<Rightarrow> nat \<Rightarrow> real \<Rightarrow> progress \<Rightarrow> dirent list \<Rightarrow> real \<times> progress" where
  "track_files lag k now progress [] = (now, progress)"
| "track_files lag k now progress (p # ps) =
     track_files lag (Suc k) (later now (lag k)) (track (later now (lag k)) progress p) ps"

text \<open>\<^verbatim>\<open>max(p # ps, key=lambda p: p.stat().st_mtime)\<close>: the first of the newest files.\<close>

fun latest :: "dirent \<Rightarrow> dirent list \<Rightarrow> dirent" where
  "latest best [] = best"
| "latest best (p # ps) = latest (if st_mtime best < st_mtime p then p else best) ps"

text \<open>
  The test shared by the two exits of a pass: among \<open>files\<close>, when there are any, the
  newest one, provided its size was last seen to change at least \<open>window\<close> seconds before
  the reading \<open>now\<close> of the test.
  \<^verbatim>\<open>
  if completed:
      latest = max(completed, key=lambda p: p.stat().st_mtime)
      entry = progress.get(latest.name, {"last_change": time.time()})
      if time.time() - entry["last_change"] >= stable_seconds:
  \<close>
\<close>

definition settled :: "real \<Rightarrow> int \<Rightarrow> progress \<Rightarrow> dirent list \<Rightarrow> dirent option" where
  "settled now window progress files =
     (case files of
        [] \<Rightarrow> None
      | p # ps \<Rightarrow>
          (let l = latest p ps;
               last_change = (case progress (d_name l) of None \<Rightarrow> now | Some e \<Rightarrow> snd e)
           in if now - last_change \<ge> real_of_int window then Some l else None))"

text \<open>
  The files of a scan that were not there before the download started, all of them, the
  finished ones and the ones still downloading.
\<close>

definition new_files :: "string set \<Rightarrow> dirent list \<Rightarrow> dirent list" where
  "new_files before entries = filter (\<lambda>p. d_name p \<notin> before) (filter d_is_file entries)"

definition completed :: "string set \<Rightarrow> dirent list \<Rightarrow> dirent list" where
  "completed before entries =
     filter (\<lambda>p. \<not> endswith (d_name p) ''.crdownload'') (new_files before entries)"

definition in_progress :: "string set \<Rightarrow> dirent list \<Rightarrow> dirent list" where
  "in_progress before entries =
     filter (\<lambda>p. endswith (d_name p) ''.crdownload'') (new_files before entries)"

text \<open>
  The result of the function: the downloaded file (its name in the download directory),
  the error status, and the files it deleted.
\<close>

type_synonym wait_result = "string option \<times> string \<times> string list"

text \<open>
  The outcome of a pass: an exception, a \<^verbatim>\<open>return\<close>, or the end of the body with the
  last reading of the clock and the dictionary.
\<close>

datatype poll = Raise exn | Return wait_result | Continue real progress

text \<open>
  One pass of the body of the \<^verbatim>\<open>while\<close> loop, whose loop test read the clock at
  \<open>now\<close>.
\<close>

definition poll_download :: "tick \<Rightarrow> string set \<Rightarrow> int \<Rightarrow> int \<Rightarrow> real \<Rightarrow> progress \<Rightarrow> poll" where
  "poll_download obs before stable_seconds stall_seconds now progress =
     (case detect_download_error (page obs) of
        Inl e \<Rightarrow> Raise e
      | Inr error_status \<Rightarrow>
          if error_status \<noteq> [] then Return (None, error_status, [])
          else
            (case listing obs of
               Inl e \<Rightarrow> Raise e
             | Inr entries \<Rightarrow>
                 (let scanned = track_files (track_lag obs) 0 now progress (new_files before entries);
                      progress' = snd scanned;
                      stable_at = later (fst scanned) (stable_lag obs);
                      stall_at = later stable_at (stall_lag obs)
                  in
                  case settled stable_at stable_seconds progress' (completed before entries) of
                    Some l \<Rightarrow> Return (Some (d_name l), [], [])
                  | None \<Rightarrow>
                      (case settled stall_at stall_seconds progress' (in_progress before entries) of
                         Some l_cr \<Rightarrow>
                           Return (None, ''FAILED_STALLED'',
                                   if unlink_fails obs then [] else [d_name l_cr])
                       | None \<Rightarrow>
                           (case sleep obs of
                              Some e \<Rightarrow> Raise e
                            | None \<Rightarrow> Continue stall_at progress')))))"

text \<open>
  The loop, from its pass number \<open>i\<close> whose loop test reads the clock at \<open>now\<close>: it runs
  while \<^verbatim>\<open>time.time() < deadline\<close>, and falls through to
  \<^verbatim>\<open>return None, "FAILED_TIMEOUT"\<close>. It terminates because a pass ends no earlier than
  it began and the sleep adds a second.
\<close>

function wait_loop ::
  "(nat \<Rightarrow> tick) \<Rightarrow> string set \<Rightarrow> int \<Rightarrow> int \<Rightarrow> real \<Rightarrow> nat \<Rightarrow> real \<Rightarrow> progress \<Rightarrow> exn + wait_result"
where
  "wait_loop obs before stable_seconds stall_seconds deadline i now progress =
     (if now < deadline then
        (case poll_download (obs i) before stable_seconds stall_seconds now progress of
           Raise e \<Rightarrow> Inl e
         | Return r \<Rightarrow> Inr r
         | Continue t progress' \<Rightarrow>
             wait_loop obs before stable_seconds stall_seconds deadline
               (Suc i) (t + max 1 (elapsed (obs i))) progress')
      else Inr (None, ''FAILED_TIMEOUT'', []))"
  by pat_completeness auto
termination
proof (relation "measure (\<lambda>(obs, before, stable_seconds, stall_seconds, deadline, i, now, progress).
                    nat \<lceil>deadline - now\<rceil>)")
  show "wf (measure (\<lambda>(obs :: nat \<Rightarrow> tick, before :: string set, stable_seconds :: int,
                        stall_seconds :: int, deadline, i :: nat, now, progress :: progress).
                    nat \<lceil>deadline - now\<rceil>))"
    by simp
next
  fix obs :: "nat \<Rightarrow> tick" and before :: "string set" and stable_seconds stall_seconds :: int
    and deadline now t :: real and i :: nat and progress progress' :: progress
  assume lt: "now < deadline"
    and c: "poll_download (obs i) before stable_seconds stall_seconds now progress = Continue t progress'"
  have scan: "now \<le> fst (track_files lag k now progress ps)" for lag k now progress ps
  proof (induction ps arbitrary: k now progress)
    case Nil
    show ?case by simp
  next
    case (Cons p ps)
    have "now \<le> later now (lag k)"
      by (simp add: later_def)
    also have "\<dots> \<le> fst (track_files lag (Suc k) (later now (lag k))
        (track (later now (lag k)) progress p) ps)"
      by (rule Cons.IH)
    finally show ?case by simp
  qed
  from c obtain entries where
    "t = later (later (fst (track_files (track_lag (obs i)) 0 now progress (new_files before entries)))
           (stable_lag (obs i))) (stall_lag (obs i))"
    by (auto simp: poll_download_def Let_def split: sum.splits if_splits option.splits)
  then have "now \<le> t"
    using scan [of now "track_lag (obs i)" 0 progress "new_files before entries"]
    by (simp add: later_def)
  with lt have "now \<le> t" and "now < deadline"
    by simp_all
  then have "\<lceil>deadline - (t + max 1 (elapsed (obs i)))\<rceil> < \<lceil>deadline - now\<rceil>"
    and "0 < \<lceil>deadline - now\<rceil>"
    by linarith+
  then show "((obs, before, stable_seconds, stall_seconds, deadline, Suc i,
               t + max 1 (elapsed (obs i)), progress'),
              (obs, before, stable_seconds, stall_seconds, deadline, i, now, progress))
             \<in> measure (\<lambda>(obs, before, stable_seconds, stall_seconds, deadline, i, now, progress).
                    nat \<lceil>deadline - now\<rceil>)"
    by simp
qed

declare wait_loop.simps [simp del]

text \<open>
  \<^verbatim>\<open>deadline = time.time() + timeout\<close> reads the clock at \<open>start\<close>, the \<^verbatim>\<open>progress\<close>
  dictionary is empty, and the first loop test reads the clock \<open>lag\<close> seconds later.
\<close>

definition wait_for_download_result ::
  "(nat \<Rightarrow> tick) \<Rightarrow> string set \<Rightarrow> int \<Rightarrow> int \<Rightarrow> int \<Rightarrow> real \<Rightarrow> real \<Rightarrow> exn + wait_result" where
  "wait_for_download_result obs before timeout stable_seconds stall_seconds start lag =
     wait_loop obs before stable_seconds stall_seconds (start + real_of_int timeout) 0
       (later start lag) Map.empty"
subsection \<open>\<^verbatim>\<open>download_attachments\<close> (lines 196-343)\<close>

text \<open>
  What the browser and the file system answer while one attachment is handled, in the
  order of the calls: whether the stored path exists (line 221); the attempts to count
  the pages and the hash of the stored file; the names in the download directory before
  the download; the handle of the window \<^verbatim>\<open>_open_download\<close> opened (\<open>None\<close> when the URL
  was loaded in the main window), all statements of that function being driver calls; the
  page read by the immediate error check; the two outcomes of \<^verbatim>\<open>_close_download_tab\<close>;
  the clock when the completion protocol is entered, the seconds to its first loop test
  and its passes; whether the stored path exists
  when \<^verbatim>\<open>force\<close> is set (line 298) and the outcome of deleting it; the outcomes of
  \<^verbatim>\<open>mkdir\<close> and \<^verbatim>\<open>shutil.move\<close>; and whether the stored path exists after the move, with
  its size (line 304).
\<close>

record att_env =
  stored_exists :: bool
  pdf_reads :: "nat \<Rightarrow> exn + nat"
  sha256_file :: "exn + string"
  before_files :: "exn + string list"
  open_download :: "exn + string option"
  first_page :: "exn + ustr"
  close_window :: "exn option"
  restore_focus :: "exn option"
  wait_start :: real
  wait_lag :: real
  ticks :: "nat \<Rightarrow> tick"
  stored_exists_forced :: bool
  unlink_stored :: "exn option"
  mkdir_parent :: "exn option"
  move :: "exn option"
  moved_exists :: bool
  moved_size :: nat

text \<open>The row of an attachment that was not stored (lines 246-262, 275-291, 305-321).\<close>

definition failed_row :: "int \<Rightarrow> int \<Rightarrow> nat \<Rightarrow> string \<Rightarrow> string \<Rightarrow> attachment \<Rightarrow> string \<Rightarrow> file_row" where
  "failed_row run gid index original_name url item st =
     \<lparr>run_id = run, guarantee_id = gid, file_index = index, stored_filename = [],
      stored_path = [], original_filename = original_name, download_url = url,
      document_index = att_document_index item, document_number = att_document_number item,
      page_count = 0, mime_type = [], download_status = st, sha256 = []\<rparr>"

text \<open>
  The row of an attachment that is on disk (lines 222-238, 325-341), under the stored
  name \<open>name\<close> at \<open>path\<close>.
\<close>

definition stored_row ::
  "(string \<Rightarrow> string) \<Rightarrow> att_env \<Rightarrow> int \<Rightarrow> int \<Rightarrow> nat \<Rightarrow> string \<Rightarrow> string \<Rightarrow> attachment \<Rightarrow> string \<Rightarrow> string
    \<Rightarrow> string \<Rightarrow> exn + file_row" where
  "stored_row guess_type env run gid index original_name url item name path st =
     (case sha256_file env of
        Inl e \<Rightarrow> Inl e
      | Inr digest \<Rightarrow>
          Inr \<lparr>run_id = run, guarantee_id = gid, file_index = index,
               stored_filename = name, stored_path = path,
               original_filename = original_name, download_url = url,
               document_index = att_document_index item,
               document_number = att_document_number item,
               page_count = pdf_page_count path (pdf_reads env),
               mime_type = guess_type name, download_status = st,
               sha256 = digest\<rparr>)"

text \<open>
  Lines 294-341: the download succeeded and \<open>downloaded\<close> is the name of the file in the
  download directory. The stored name takes the suffix of the downloaded file when the
  original name had none; the file is moved, the window closed, and the stored file
  checked.
\<close>

definition store_download ::
  "(string \<Rightarrow> string) \<Rightarrow> att_env \<Rightarrow> int \<Rightarrow> int \<Rightarrow> string \<Rightarrow> bool \<Rightarrow> nat \<Rightarrow> string \<Rightarrow> string \<Rightarrow> attachment
    \<Rightarrow> string \<Rightarrow> string option \<Rightarrow> string \<Rightarrow> exn + file_row" where
  "store_download guess_type env run gid id_dir force index original_name url item sfx
      download_handle downloaded =
     (let stored_filename =
            (if sfx = [] \<and> path_suffix downloaded \<noteq> []
             then str_int gid @ ''_'' @ str_nat index @ path_suffix downloaded
             else str_int gid @ ''_'' @ str_nat index @ sfx);
          stored_path = id_dir @ ''/'' @ stored_filename
      in case (if force \<and> stored_exists_forced env then unlink_stored env else None) of
           Some e \<Rightarrow> Inl e
         | None \<Rightarrow>
      (case mkdir_parent env of
           Some e \<Rightarrow> Inl e
         | None \<Rightarrow>
      (case move env of
           Some e \<Rightarrow> Inl e
         | None \<Rightarrow>
      (case close_download_tab download_handle (close_window env) (restore_focus env) of
           Some e \<Rightarrow> Inl e
         | None \<Rightarrow>
             if \<not> moved_exists env \<or> moved_size env = 0
             then Inr (failed_row run gid index original_name url item ''FAILED_MISSING'')
             else stored_row guess_type env run gid index original_name url item
                    (path_name stored_path) stored_path ''DOWNLOADED''))))"

text \<open>
  One pass of the \<^verbatim>\<open>for\<close> loop (lines 212-341): the row appended for the attachment
  number \<open>index\<close>, or the exception that leaves the function. \<open>guess_type\<close> is
  \<^verbatim>\<open>mimetypes.guess_type(name)[0] or ""\<close>; the stability window is the default 3 of
  \<^verbatim>\<open>_wait_for_download_result\<close>, which the call does not pass.
\<close>

definition download_one ::
  "(string \<Rightarrow> string) \<Rightarrow> att_env \<Rightarrow> int \<Rightarrow> int \<Rightarrow> string \<Rightarrow> bool \<Rightarrow> int \<Rightarrow> int \<Rightarrow> nat \<Rightarrow> attachment
    \<Rightarrow> exn + file_row" where
  "download_one guess_type env run gid attachments_root force timeout stall_seconds index item =
     (let original_name = strip_str (att_original_filename item);
          url = strip_str (att_download_url item);
          sfx = (if original_name \<noteq> [] then path_suffix original_name else []);
          id_dir = attachments_root @ ''/'' @ str_int gid;
          stored_filename = str_int gid @ ''_'' @ str_nat index @ sfx;
          stored_path = id_dir @ ''/'' @ stored_filename
      in if stored_exists env \<and> \<not> force
         then stored_row guess_type env run gid index original_name url item stored_filename
                stored_path ''SKIPPED_EXISTS''
         else
           (case before_files env of
              Inl e \<Rightarrow> Inl e
            | Inr before \<Rightarrow>
           (case open_download env of
              Inl e \<Rightarrow> Inl e
            | Inr download_handle \<Rightarrow>
           (case detect_download_error (first_page env) of
              Inl e \<Rightarrow> Inl e
            | Inr immediate_error \<Rightarrow>
                if immediate_error \<noteq> [] then
                  (case close_download_tab download_handle (close_window env) (restore_focus env) of
                     Some e \<Rightarrow> Inl e
                   | None \<Rightarrow> Inr (failed_row run gid index original_name url item immediate_error))
                else
                  (case wait_for_download_result (ticks env) (set before) timeout 3 stall_seconds
                          (wait_start env) (wait_lag env) of
                     Inl e \<Rightarrow> Inl e
                   | Inr (None, error_status, deleted) \<Rightarrow>
                       (case close_download_tab download_handle (close_window env)
                               (restore_focus env) of
                          Some e \<Rightarrow> Inl e
                        | None \<Rightarrow>
                            Inr (failed_row run gid index original_name url item
                                   (if error_status \<noteq> [] then error_status
                                    else ''FAILED_TIMEOUT'')))
                   | Inr (Some downloaded, error_status, deleted) \<Rightarrow>
                       store_download guess_type env run gid id_dir force index original_name
                         url item sfx download_handle downloaded)))))"

text \<open>
  The loop over the attachments, numbered from \<open>index\<close> on, with the rows collected so
  far; the environment answers per attachment number.
\<close>

fun download_loop ::
  "(string \<Rightarrow> string) \<Rightarrow> (nat \<Rightarrow> att_env) \<Rightarrow> int \<Rightarrow> int \<Rightarrow> string \<Rightarrow> bool \<Rightarrow> int \<Rightarrow> int
    \<Rightarrow> file_row list \<Rightarrow> nat \<Rightarrow> attachment list \<Rightarrow> exn + file_row list" where
  "download_loop guess_type env run gid attachments_root force timeout stall_seconds results index [] =
     Inr results"
| "download_loop guess_type env run gid attachments_root force timeout stall_seconds results index (item # items) =
     (case download_one guess_type (env index) run gid attachments_root force timeout stall_seconds index item of
        Inl e \<Rightarrow> Inl e
      | Inr row \<Rightarrow>
          download_loop guess_type env run gid attachments_root force timeout stall_seconds
            (results @ [row]) (Suc index) items)"

text \<open>
  The function: the directory of the record is created, then the attachments are handled
  in order, counted from 1. The defaults \<^verbatim>\<open>timeout=180\<close> and \<^verbatim>\<open>stall_seconds=30\<close> of the
  signature are never used, the one call of the repository passing both.
\<close>

record dl_env =
  mkdir_id_dir :: "exn option"
  att :: "nat \<Rightarrow> att_env"

definition download_attachments ::
  "(string \<Rightarrow> string) \<Rightarrow> dl_env \<Rightarrow> attachment list \<Rightarrow> int \<Rightarrow> int \<Rightarrow> string \<Rightarrow> bool \<Rightarrow> int \<Rightarrow> int
    \<Rightarrow> exn + file_row list" where
  "download_attachments guess_type env attachments run gid attachments_root force timeout
      stall_seconds =
     (case mkdir_id_dir env of
        Some e \<Rightarrow> Inl e
      | None \<Rightarrow>
          download_loop guess_type (att env) run gid attachments_root force timeout stall_seconds
            [] 1 attachments)"

subsection \<open>Predicates on rows and environments\<close>

text \<open>The fields a row takes from the attachment number \<open>index\<close>, whatever the outcome.\<close>

definition row_of :: "int \<Rightarrow> int \<Rightarrow> nat \<Rightarrow> attachment \<Rightarrow> file_row \<Rightarrow> bool" where
  "row_of run gid index item row =
     (run_id row = run \<and> guarantee_id row = gid \<and> file_index row = index
      \<and> original_filename row = strip_str (att_original_filename item)
      \<and> download_url row = strip_str (att_download_url item)
      \<and> document_index row = att_document_index item
      \<and> document_number row = att_document_number item)"

text \<open>A property of the row a call returns, when it returns one.\<close>

definition ok_row :: "(file_row \<Rightarrow> bool) \<Rightarrow> exn + file_row \<Rightarrow> bool" where
  "ok_row P r = (case r of Inl e \<Rightarrow> True | Inr row \<Rightarrow> P row)"

text \<open>
  No call made for an attachment lets an exception out: reading a page raises at most a
  Selenium exception (which \<^verbatim>\<open>_detect_download_error\<close> swallows), closing the window at
  most \<^verbatim>\<open>NoSuchWindowException\<close>, and every other call returns (the alarm does not
  fire).
\<close>

definition quiet_page :: "exn + ustr \<Rightarrow> bool" where
  "quiet_page p = (case p of Inl e \<Rightarrow> is_webdriver_exception e | Inr source \<Rightarrow> True)"

definition quiet_tick :: "tick \<Rightarrow> bool" where
  "quiet_tick t = (quiet_page (page t) \<and> \<not> isl (listing t) \<and> sleep t = None)"

definition quiet_att :: "att_env \<Rightarrow> bool" where
  "quiet_att env =
     (\<not> isl (sha256_file env) \<and> \<not> isl (before_files env) \<and> \<not> isl (open_download env)
      \<and> quiet_page (first_page env) \<and> restore_focus env = None
      \<and> (case close_window env of None \<Rightarrow> True | Some e \<Rightarrow> cls e = NoSuchWindowException)
      \<and> (\<forall>i. quiet_tick (ticks env i))
      \<and> unlink_stored env = None \<and> mkdir_parent env = None \<and> move env = None)"

subsection \<open>The passes of the completion protocol\<close>

text \<open>
  The run of the polling loop as a sequence of passes, for stating what it does in terms
  of what the download directory shows: the reading of the clock at the loop test of the
  pass number \<open>k\<close> and the \<^verbatim>\<open>progress\<close> dictionary at its start (while no earlier pass
  returned), and its outcome. \<open>start\<close> is the reading of the first loop test.
\<close>

definition entries_of :: "tick \<Rightarrow> dirent list" where
  "entries_of t = (case listing t of Inl e \<Rightarrow> [] | Inr entries \<Rightarrow> entries)"

fun pass_time :: "(nat \<Rightarrow> tick) \<Rightarrow> string set \<Rightarrow> real \<Rightarrow> nat \<Rightarrow> real"
  and pass_progress :: "(nat \<Rightarrow> tick) \<Rightarrow> string set \<Rightarrow> real \<Rightarrow> nat \<Rightarrow> progress" where
  "pass_time obs before start 0 = start"
| "pass_time obs before start (Suc k) =
     later (later (fst (track_files (track_lag (obs k)) 0 (pass_time obs before start k)
                          (pass_progress obs before start k)
                          (new_files before (entries_of (obs k)))))
              (stable_lag (obs k))) (stall_lag (obs k))
     + max 1 (elapsed (obs k))"
| "pass_progress obs before start 0 = Map.empty"
| "pass_progress obs before start (Suc k) =
     snd (track_files (track_lag (obs k)) 0 (pass_time obs before start k)
            (pass_progress obs before start k) (new_files before (entries_of (obs k))))"

text \<open>
  The readings of the clock in the pass \<open>k\<close>: when the \<^verbatim>\<open>for\<close> loop has looked at the
  sizes of the new files, at the stability test and at the stall test.
\<close>

definition scanned_at :: "(nat \<Rightarrow> tick) \<Rightarrow> string set \<Rightarrow> real \<Rightarrow> nat \<Rightarrow> real" where
  "scanned_at obs before start k =
     fst (track_files (track_lag (obs k)) 0 (pass_time obs before start k)
            (pass_progress obs before start k) (new_files before (entries_of (obs k))))"

definition stable_at :: "(nat \<Rightarrow> tick) \<Rightarrow> string set \<Rightarrow> real \<Rightarrow> nat \<Rightarrow> real" where
  "stable_at obs before start k = later (scanned_at obs before start k) (stable_lag (obs k))"

definition stall_at :: "(nat \<Rightarrow> tick) \<Rightarrow> string set \<Rightarrow> real \<Rightarrow> nat \<Rightarrow> real" where
  "stall_at obs before start k = later (stable_at obs before start k) (stall_lag (obs k))"

definition pass :: "(nat \<Rightarrow> tick) \<Rightarrow> string set \<Rightarrow> int \<Rightarrow> int \<Rightarrow> real \<Rightarrow> nat \<Rightarrow> poll" where
  "pass obs before stable_seconds stall_seconds start k =
     poll_download (obs k) before stable_seconds stall_seconds (pass_time obs before start k)
       (pass_progress obs before start k)"

definition continues :: "poll \<Rightarrow> bool" where
  "continues p = (case p of Continue t progress \<Rightarrow> True | Raise e \<Rightarrow> False | Return r \<Rightarrow> False)"

text \<open>The newest of some files: the one the two tests of a pass look at.\<close>

definition newest :: "dirent list \<Rightarrow> dirent option" where
  "newest files = (case files of [] \<Rightarrow> None | p # ps \<Rightarrow> Some (latest p ps))"

text \<open>
  A new file named \<open>name\<close> is seen at the pass \<open>j\<close>, and from then to the pass \<open>k\<close>
  every time it is seen it has \<open>n\<close> bytes: the observed size of the file has not changed
  between the two passes.
\<close>

definition seen_unchanged :: "(nat \<Rightarrow> tick) \<Rightarrow> string set \<Rightarrow> string \<Rightarrow> nat \<Rightarrow> nat \<Rightarrow> nat \<Rightarrow> bool" where
  "seen_unchanged obs before name n j k =
     ((\<exists>q \<in> set (new_files before (entries_of (obs j))). d_name q = name)
      \<and> (\<forall>i. j \<le> i \<and> i \<le> k \<longrightarrow>
            (\<forall>q \<in> set (new_files before (entries_of (obs i))). d_name q = name \<longrightarrow> st_size q = n)))"

section \<open>The collector (\<^verbatim>\<open>collect_eis_guarantees.py\<close>)\<close>

subsection \<open>Configuration (\<^verbatim>\<open>eis/config.py\<close>) and arguments\<close>

text \<open>
  The URLs of the two pages of a record, the directory of the attachments relative to the
  data directory, the phrase of a page that does not exist (Cyrillic, as code points:
  "the requested page does not exist"), the section of the document fields ("Documents:
  information on the bank guarantee") and the IDs processed when none are given.
\<close>

definition GENERAL_INFO_URL :: "int \<Rightarrow> string" where
  "GENERAL_INFO_URL gid =
     ''https://zakupki.gov.ru/epz/bankguarantee/guaranteeCard/generalInformation.html''
     @ ''?guaranteeInfoId='' @ str_int gid"

definition DOCUMENTS_URL :: "int \<Rightarrow> string" where
  "DOCUMENTS_URL gid =
     ''https://zakupki.gov.ru/epz/bankguarantee/guaranteeCard/document-info.html''
     @ ''?guaranteeInfoId='' @ str_int gid"

definition RAW_ATTACHMENTS_DIR :: string where
  "RAW_ATTACHMENTS_DIR = ''raw/attachments''"

definition MISSING_PAGE_PHRASE :: ustr where
  "MISSING_PAGE_PHRASE =
     [1047, 1072, 1087, 1088, 1072, 1096, 1080, 1074, 1072, 1077, 1084, 1072, 1103, 32,
      1089, 1090, 1088, 1072, 1085, 1080, 1094, 1072, 32, 1085, 1077, 32,
      1089, 1091, 1097, 1077, 1089, 1090, 1074, 1091, 1077, 1090]"

definition DOCUMENT_META_SECTION :: ustr where
  "DOCUMENT_META_SECTION =
     [1044, 1086, 1082, 1091, 1084, 1077, 1085, 1090, 1099, 58, 32,
      1048, 1085, 1092, 1086, 1088, 1084, 1072, 1094, 1080, 1103, 32, 1086, 32,
      1073, 1072, 1085, 1082, 1086, 1074, 1089, 1082, 1086, 1081, 32,
      1075, 1072, 1088, 1072, 1085, 1090, 1080, 1080]"

definition DEFAULT_TEST_IDS :: "int list" where
  "DEFAULT_TEST_IDS = [1962721, 11, 1, 196221]"

text \<open>
  The arguments of the command line that decide what is processed and how it is
  classified. The pauses between requests and the options of the browser window and of
  the log (\<^verbatim>\<open>sleep_min\<close>, \<^verbatim>\<open>sleep_max\<close>, \<^verbatim>\<open>worker_start_delay\<close>, \<^verbatim>\<open>headless\<close>,
  \<^verbatim>\<open>block_images\<close>, \<^verbatim>\<open>verbose\<close>) change no value of the model and are left out.
\<close>

datatype mode = Offline | Live

record args =
  mode :: mode
  ids :: "ustr option"
  start_id :: "int option"
  end_id :: "int option"
  max_ids :: "int option"
  force :: bool
  save_html :: bool
  save_html_first_n :: int
  skip_retries :: bool
  max_retries :: int
  per_id_timeout :: int
  workers :: int
  download_timeout :: int
  download_stall_seconds :: int

text \<open>The defaults of \<^verbatim>\<open>argparse\<close> (lines 515-535).\<close>

definition default_args :: args where
  "default_args =
     \<lparr>mode = Offline, ids = None, start_id = None, end_id = None, max_ids = None,
      force = False, save_html = False, save_html_first_n = 10, skip_retries = False,
      max_retries = 3, per_id_timeout = 30, workers = 1, download_timeout = 300,
      download_stall_seconds = 120\<rparr>"

subsection \<open>The extractor (\<^verbatim>\<open>eis/parser.py\<close>)\<close>

text \<open>\<^verbatim>\<open>is_missing_page\<close> (lines 40-41): \<^verbatim>\<open>MISSING_PAGE_PHRASE in html\<close>.\<close>

definition is_missing_page :: "ustr \<Rightarrow> bool" where
  "is_missing_page html = contains MISSING_PAGE_PHRASE html"

text \<open>
  The two parsers read the markup with an HTML library; they are parameters here, total
  functions of the page source that may raise: \<^verbatim>\<open>parse_general_info\<close> gives the
  sections (each a dictionary of fields) and warnings, \<^verbatim>\<open>parse_document_info\<close> the
  attachments, the document fields and warnings. \<open>guess_type\<close> is
  \<^verbatim>\<open>mimetypes.guess_type(name)[0] or ""\<close>.
\<close>

record doc_meta =
  dm_field_name :: ustr
  dm_field_value :: ustr
  dm_document_index :: int
  dm_document_number :: ustr

record extractor =
  parse_general_info :: "ustr \<Rightarrow> exn + (ustr, (ustr, ustr) dict) dict \<times> string list"
  parse_document_info :: "ustr \<Rightarrow> exn + attachment list \<times> doc_meta list \<times> string list"
  guess_type :: "string \<Rightarrow> string"

subsection \<open>Rows built by the collector (lines 419-504)\<close>

record guarantee_row =
  g_run_id :: int
  g_id :: int
  g_status :: status
  g_general_url :: string
  g_documents_url :: string
  g_fetched_at :: string
  g_warnings :: "string list"
  g_error :: string

record attribute_row =
  ar_run_id :: int
  ar_id :: int
  ar_section :: ustr
  ar_field_name :: ustr
  ar_field_value :: ustr
  ar_document_index :: "int option"
  ar_document_number :: "ustr option"

text \<open>\<^verbatim>\<open>_attributes_rows\<close>: one row per field of every section, in order.\<close>

definition attributes_rows_of :: "int \<Rightarrow> int \<Rightarrow> (ustr, (ustr, ustr) dict) dict \<Rightarrow> attribute_row list" where
  "attributes_rows_of run gid sections =
     concat (map (\<lambda>(sec, fields).
         map (\<lambda>(name, val).
                \<lparr>ar_run_id = run, ar_id = gid, ar_section = sec, ar_field_name = name,
                 ar_field_value = val, ar_document_index = None,
                 ar_document_number = None\<rparr>) fields) sections)"

text \<open>\<^verbatim>\<open>_document_metadata_rows\<close>: one row per document field.\<close>

definition document_metadata_rows :: "int \<Rightarrow> int \<Rightarrow> doc_meta list \<Rightarrow> attribute_row list" where
  "document_metadata_rows run gid metadata_rows =
     map (\<lambda>item.
            \<lparr>ar_run_id = run, ar_id = gid, ar_section = DOCUMENT_META_SECTION,
             ar_field_name = dm_field_name item, ar_field_value = dm_field_value item,
             ar_document_index = Some (dm_document_index item),
             ar_document_number = Some (dm_document_number item)\<rparr>) metadata_rows"

text \<open>
  \<^verbatim>\<open>_offline_files_rows\<close>: in offline mode nothing is downloaded, every attachment gets
  a row with the status \<^verbatim>\<open>SKIPPED_OFFLINE\<close>.
\<close>

definition offline_file_row :: "(string \<Rightarrow> string) \<Rightarrow> int \<Rightarrow> int \<Rightarrow> nat \<times> attachment \<Rightarrow> file_row" where
  "offline_file_row guess run gid numbered =
     (let index = fst numbered; item = snd numbered;
          original = strip_str (att_original_filename item);
          sfx = (if original \<noteq> [] then path_suffix original else []);
          name = str_int gid @ ''_'' @ str_nat index @ sfx
      in \<lparr>run_id = run, guarantee_id = gid, file_index = index, stored_filename = name,
          stored_path = RAW_ATTACHMENTS_DIR @ ''/'' @ str_int gid @ ''/'' @ name,
          original_filename = original, download_url = att_download_url item,
          document_index = att_document_index item,
          document_number = att_document_number item, page_count = 0,
          mime_type = guess name, download_status = ''SKIPPED_OFFLINE'', sha256 = []\<rparr>)"

definition offline_files_rows :: "(string \<Rightarrow> string) \<Rightarrow> int \<Rightarrow> int \<Rightarrow> attachment list \<Rightarrow> file_row list" where
  "offline_files_rows guess run gid items =
     map (offline_file_row guess run gid) (zip [1 ..< Suc (length items)] items)"

subsection \<open>The deadline (lines 75-88)\<close>

text \<open>
  \<^verbatim>\<open>_remaining_seconds(deadline, default)\<close> and \<^verbatim>\<open>_ensure_time_left(deadline)\<close>, with the
  reading \<open>now\<close> of \<^verbatim>\<open>time.monotonic()\<close>; \<open>default\<close> is an integer at every call.
\<close>

definition remaining_seconds :: "real option \<Rightarrow> int \<Rightarrow> real \<Rightarrow> int" where
  "remaining_seconds deadline dflt now =
     (case deadline of
        None \<Rightarrow> dflt
      | Some d \<Rightarrow> if d - now \<le> 0 then 0 else \<lfloor>max 1 (min (real_of_int dflt) (d - now))\<rfloor>)"

definition ensure_time_left :: "real option \<Rightarrow> real \<Rightarrow> exn option" where
  "ensure_time_left deadline now =
     (case deadline of
        None \<Rightarrow> None
      | Some d \<Rightarrow>
          if now \<ge> d then Some (Exn ProcessingTimeout ''Per-ID processing timed out'')
          else None)"

subsection \<open>The environment of one record\<close>

text \<open>
  What the clock, the sample directory, the browser and the file system answer while one
  record is processed, named after the call: four readings of the monotonic clock (when
  the deadline is set, at the two \<^verbatim>\<open>_ensure_time_left\<close> and when the download timeout is
  computed); the two sample pages of offline mode (\<open>None\<close>: no such file); for live
  mode the outcomes of \<^verbatim>\<open>clean_download_dir\<close>, and for each page of \<^verbatim>\<open>driver.get\<close>,
  \<^verbatim>\<open>wait_for_ready\<close>, \<^verbatim>\<open>driver.page_source or ""\<close> and \<^verbatim>\<open>wait_for_any_selector\<close>; the
  environment of the downloads; the outcomes of the two \<^verbatim>\<open>save_html_snapshot\<close>; of
  \<^verbatim>\<open>build_driver\<close> inside \<^verbatim>\<open>_restart_driver\<close>; of the flush of each of the three writers,
  should the batch be full; of \<^verbatim>\<open>update_attribute_union\<close>, \<^verbatim>\<open>append_processed_id\<close> and of
  writing the checkpoint; and the two readings of \<^verbatim>\<open>utc_now_iso()\<close>.

  The per-ID alarm (\<^verbatim>\<open>PerIdTimeout\<close>, on the main thread with a positive timeout) raises
  \<^verbatim>\<open>ProcessingTimeout\<close> inside whatever runs when it fires: it is the outcome
  \<open>Exn ProcessingTimeout\<close> of the call it interrupts.
\<close>

datatype event = Get string | LoadSample string int

record id_env =
  clock_deadline :: real
  clock_general :: real
  clock_documents :: real
  clock_download :: real
  sample_general :: "exn + ustr option"
  sample_documents :: "exn + ustr option"
  clean_download_dir :: "exn option"
  get_general :: "exn option"
  ready_general :: "exn option"
  source_general :: "exn + ustr"
  selector_general :: "exn option"
  get_documents :: "exn option"
  ready_documents :: "exn option"
  source_documents :: "exn + ustr"
  selector_documents :: "exn option"
  downloads :: dl_env
  snapshot_general :: "exn option"
  snapshot_documents :: "exn option"
  restart_driver :: "exn option"
  flush_guarantees :: "exn option"
  flush_attributes :: "exn option"
  flush_files :: "exn option"
  update_attribute_union :: "exn option"
  append_processed :: "exn option"
  save_checkpoint :: "exn option"
  fetched_at :: string
  checkpoint_at :: string

subsection \<open>The local variables of one pass of the loop (lines 148-157)\<close>

text \<open>
  The variables the \<^verbatim>\<open>try\<close> block assigns, which keep their values when an exception
  leaves it; \<open>events\<close> records the pages asked for, in order, and \<open>save_html_count\<close>
  is the counter of the worker. A step of the block gives the variables after it and the
  exception it raised, if any.
\<close>

record locals =
  status :: status
  warnings :: "string list"
  error_message :: string
  attributes_rows :: "attribute_row list"
  files_rows :: "file_row list"
  attachments :: "attachment list"
  general_html :: ustr
  documents_html :: ustr
  events :: "event list"
  save_html_count :: nat

definition initial_locals :: "event list \<Rightarrow> nat \<Rightarrow> locals" where
  "initial_locals evs n =
     \<lparr>status = OK, warnings = [], error_message = [], attributes_rows = [], files_rows = [],
      attachments = [], general_html = [], documents_html = [], events = evs,
      save_html_count = n\<rparr>"

subsection \<open>Offline mode (lines 165-199)\<close>

definition offline_general :: "extractor \<Rightarrow> id_env \<Rightarrow> int \<Rightarrow> int \<Rightarrow> real option \<Rightarrow> locals \<Rightarrow> locals \<times> exn option" where
  "offline_general ex env run gid deadline l =
     (case ensure_time_left deadline (clock_general env) of
        Some e \<Rightarrow> (l, Some e)
      | None \<Rightarrow>
          (let l1 = l\<lparr>events := events l @ [LoadSample ''generalInformation'' gid]\<rparr> in
           case sample_general env of
             Inl e \<Rightarrow> (l1, Some e)
           | Inr sample \<Rightarrow>
               (let html = (case sample of None \<Rightarrow> [] | Some h \<Rightarrow> h);
                    l2 = l1\<lparr>general_html := html\<rparr>
                in if html = [] then
                     (l2\<lparr>status := ERROR,
                         error_message := ''Missing offline generalInformation HTML'',
                         warnings := warnings l2 @ [''Missing offline generalInformation HTML'']\<rparr>,
                      None)
                   else if is_missing_page html then (l2\<lparr>status := MISSING\<rparr>, None)
                   else
                     (case parse_general_info ex html of
                        Inl e \<Rightarrow> (l2, Some e)
                      | Inr (sections, parse_warnings) \<Rightarrow>
                          (l2\<lparr>warnings := warnings l2 @ parse_warnings,
                              attributes_rows := attributes_rows_of run gid sections\<rparr>,
                           None)))))"

definition offline_documents :: "extractor \<Rightarrow> id_env \<Rightarrow> int \<Rightarrow> int \<Rightarrow> real option \<Rightarrow> locals \<Rightarrow> locals \<times> exn option" where
  "offline_documents ex env run gid deadline l =
     (if status l \<noteq> MISSING then
        (case ensure_time_left deadline (clock_documents env) of
           Some e \<Rightarrow> (l, Some e)
         | None \<Rightarrow>
             (let l1 = l\<lparr>events := events l @ [LoadSample ''document-info'' gid]\<rparr> in
              case sample_documents env of
                Inl e \<Rightarrow> (l1, Some e)
              | Inr sample \<Rightarrow>
                  (let html = (case sample of None \<Rightarrow> [] | Some h \<Rightarrow> h);
                       l2 = l1\<lparr>documents_html := html\<rparr>
                   in if html \<noteq> [] then
                        (if is_missing_page html then
                           (l2\<lparr>status := (if status l2 = OK then PARTIAL else status l2),
                               warnings := warnings l2 @ [''Document page missing'']\<rparr>, None)
                         else
                           (case parse_document_info ex html of
                              Inl e \<Rightarrow> (l2, Some e)
                            | Inr (atts, doc_meta, parse_warnings) \<Rightarrow>
                                (l2\<lparr>attachments := atts,
                                    warnings := warnings l2 @ parse_warnings,
                                    files_rows := offline_files_rows (guess_type ex) run gid atts,
                                    attributes_rows :=
                                      attributes_rows l2 @ document_metadata_rows run gid doc_meta\<rparr>,
                                 None)))
                      else
                        (l2\<lparr>status := (if status l2 = OK then PARTIAL else status l2),
                            warnings := warnings l2 @ [''Missing offline document-info HTML'']\<rparr>,
                         None))))
      else (l, None))"

subsection \<open>Live mode (lines 202-258)\<close>

definition live_general :: "extractor \<Rightarrow> id_env \<Rightarrow> int \<Rightarrow> int \<Rightarrow> real option \<Rightarrow> locals \<Rightarrow> locals \<times> exn option" where
  "live_general ex env run gid deadline l =
     (case ensure_time_left deadline (clock_general env) of
        Some e \<Rightarrow> (l, Some e)
      | None \<Rightarrow>
     (case clean_download_dir env of
        Some e \<Rightarrow> (l, Some e)
      | None \<Rightarrow>
          (let l1 = l\<lparr>events := events l @ [Get (GENERAL_INFO_URL gid)]\<rparr> in
           case get_general env of
             Some e \<Rightarrow> (l1, Some e)
           | None \<Rightarrow>
          (case ready_general env of
             Some e \<Rightarrow> (l1, Some e)
           | None \<Rightarrow>
          (case source_general env of
             Inl e \<Rightarrow> (l1, Some e)
           | Inr html \<Rightarrow>
               (let l2 = l1\<lparr>general_html := html\<rparr> in
                if is_missing_page html then (l2\<lparr>status := MISSING\<rparr>, None)
                else
                  (case selector_general env of
                     Some e \<Rightarrow> (l2, Some e)
                   | None \<Rightarrow>
                  (case parse_general_info ex html of
                     Inl e \<Rightarrow> (l2, Some e)
                   | Inr (sections, parse_warnings) \<Rightarrow>
                       (l2\<lparr>warnings := warnings l2 @ parse_warnings,
                           attributes_rows := attributes_rows_of run gid sections\<rparr>,
                        None)))))))))"

text \<open>
  Lines 233-258, after the document page was read and found to exist: parse it, download
  the attachments when there are any, add the document fields.
\<close>

definition live_attachments :: "extractor \<Rightarrow> args \<Rightarrow> id_env \<Rightarrow> int \<Rightarrow> int \<Rightarrow> real option \<Rightarrow> locals \<Rightarrow> locals \<times> exn option" where
  "live_attachments ex a env run gid deadline l =
     (case parse_document_info ex (documents_html l) of
        Inl e \<Rightarrow> (l, Some e)
      | Inr (atts, doc_meta, parse_warnings) \<Rightarrow>
          (let l1 = l\<lparr>attachments := atts, warnings := warnings l @ parse_warnings\<rparr> in
           case (if atts \<noteq> [] then
                   download_attachments (guess_type ex) (downloads env) atts run gid
                     RAW_ATTACHMENTS_DIR (force a)
                     (remaining_seconds deadline (download_timeout a) (clock_download env))
                     (download_stall_seconds a)
                 else Inr []) of
             Inl e \<Rightarrow> (l1, Some e)
           | Inr rows \<Rightarrow>
               (let l2 = l1\<lparr>files_rows := rows,
                              attributes_rows :=
                                attributes_rows l1 @ document_metadata_rows run gid doc_meta\<rparr>
                in if atts \<noteq> [] \<and> rows = [] then
                     (l2\<lparr>status := PARTIAL,
                         warnings := warnings l2 @ [''Attachments listed but no file rows created'']\<rparr>,
                      None)
                   else (l2, None))))"

definition live_documents :: "extractor \<Rightarrow> args \<Rightarrow> id_env \<Rightarrow> int \<Rightarrow> int \<Rightarrow> real option \<Rightarrow> locals \<Rightarrow> locals \<times> exn option" where
  "live_documents ex a env run gid deadline l =
     (if status l \<noteq> MISSING then
        (case ensure_time_left deadline (clock_documents env) of
           Some e \<Rightarrow> (l, Some e)
         | None \<Rightarrow>
             (let l1 = l\<lparr>events := events l @ [Get (DOCUMENTS_URL gid)]\<rparr> in
              case get_documents env of
                Some e \<Rightarrow> (l1, Some e)
              | None \<Rightarrow>
             (case ready_documents env of
                Some e \<Rightarrow> (l1, Some e)
              | None \<Rightarrow>
             (case source_documents env of
                Inl e \<Rightarrow> (l1, Some e)
              | Inr html \<Rightarrow>
                  (let l2 = l1\<lparr>documents_html := html\<rparr> in
                   if is_missing_page html then
                     (l2\<lparr>status := (if status l2 = OK then PARTIAL else status l2),
                         warnings := warnings l2 @ [''Document page missing'']\<rparr>, None)
                   else
                     (case selector_documents env of
                        Some e \<Rightarrow> (l2, Some e)
                      | None \<Rightarrow> live_attachments ex a env run gid deadline l2))))))
      else (l, None))"

subsection \<open>Saving the pages (lines 260-272)\<close>

definition save_snapshots :: "args \<Rightarrow> id_env \<Rightarrow> locals \<Rightarrow> locals \<times> exn option" where
  "save_snapshots a env l =
     (if save_html a \<or> int (save_html_count l) < save_html_first_n a
         \<or> status l = ERROR \<or> status l = MISSING \<or> status l = PARTIAL \<or> status l = TIMEOUT
      then
        (case (if general_html l \<noteq> [] then snapshot_general env else None) of
           Some e \<Rightarrow> (l, Some e)
         | None \<Rightarrow>
        (case (if documents_html l \<noteq> [] then snapshot_documents env else None) of
           Some e \<Rightarrow> (l, Some e)
         | None \<Rightarrow> (l\<lparr>save_html_count := Suc (save_html_count l)\<rparr>, None)))
      else (l, None))"

subsection \<open>The \<^verbatim>\<open>try\<close> block (lines 162-272)\<close>

text \<open>Run a step on the variables of a block that has not raised.\<close>

definition and_then :: "locals \<times> exn option \<Rightarrow> (locals \<Rightarrow> locals \<times> exn option) \<Rightarrow> locals \<times> exn option" where
  "and_then r step = (case snd r of None \<Rightarrow> step (fst r) | Some e \<Rightarrow> r)"

definition fetch :: "extractor \<Rightarrow> args \<Rightarrow> id_env \<Rightarrow> int \<Rightarrow> int \<Rightarrow> real option \<Rightarrow> locals \<Rightarrow> locals \<times> exn option" where
  "fetch ex a env run gid deadline l =
     and_then
       (if mode a = Offline
        then and_then (offline_general ex env run gid deadline l)
               (offline_documents ex env run gid deadline)
        else and_then (live_general ex env run gid deadline l)
               (live_documents ex a env run gid deadline))
       (save_snapshots a env)"

subsection \<open>The handlers (lines 274-304)\<close>

text \<open>
  A timeout sets the status \<^verbatim>\<open>TIMEOUT\<close>; the windows of the browser are then tidied up
  inside a \<^verbatim>\<open>try\<close> that swallows every exception, which changes no value here. Any other
  exception sets \<^verbatim>\<open>ERROR\<close>, and in live mode a message of a dead browser session makes
  \<^verbatim>\<open>_restart_driver\<close> build a new driver, outside any \<^verbatim>\<open>try\<close>: an exception of
  \<^verbatim>\<open>build_driver\<close> leaves the loop.
\<close>

definition session_lost :: "string \<Rightarrow> bool" where
  "session_lost message =
     (contains ''invalid session id'' message \<or> contains ''err_connection_reset'' message
      \<or> contains ''chrome not reachable'' message \<or> contains ''disconnected'' message)"

definition handle_exception :: "args \<Rightarrow> id_env \<Rightarrow> locals \<Rightarrow> exn \<Rightarrow> locals \<times> exn option" where
  "handle_exception a env l e =
     (if cls e = ProcessingTimeout then
        (l\<lparr>status := TIMEOUT,
           error_message := ''Timeout after '' @ str_int (per_id_timeout a) @ ''s'',
           warnings := warnings l @ [msg e]\<rparr>, None)
      else
        (l\<lparr>status := ERROR, error_message := msg e\<rparr>,
         if mode a = Live \<and> session_lost (lower (msg e)) then restart_driver env else None))"

subsection \<open>The classification by the file rows (lines 306-319)\<close>

text \<open>
  \<^verbatim>\<open>
  if files_rows:
      failed = [row for row in files_rows
                if str(row.get("download_status", "")).startswith("FAILED")]
      if failed:
          if len(failed) == len(files_rows):
              status = "ERROR"
          elif status == "OK":
              status = "PARTIAL"
          warnings.append(f"Attachment failures: {len(failed)}/{len(files_rows)}")
  if status == "OK" and error_message:
      status = "PARTIAL"
  \<close>
\<close>

definition failed_rows :: "file_row list \<Rightarrow> file_row list" where
  "failed_rows rows = filter (\<lambda>row. startswith (download_status row) ''FAILED'') rows"

definition classify_files :: "locals \<Rightarrow> locals" where
  "classify_files l =
     (let failed = failed_rows (files_rows l) in
      if files_rows l \<noteq> [] \<and> failed \<noteq> [] then
        l\<lparr>status := (if length failed = length (files_rows l) then ERROR
                      else if status l = OK then PARTIAL else status l),
          warnings := warnings l @
            [''Attachment failures: '' @ str_nat (length failed) @ ''/''
             @ str_nat (length (files_rows l))]\<rparr>
      else l)"

definition classify :: "locals \<Rightarrow> locals" where
  "classify l =
     (let l1 = classify_files l in
      if status l1 = OK \<and> error_message l1 \<noteq> [] then l1\<lparr>status := PARTIAL\<rparr> else l1)"

subsection \<open>The output writer (\<^verbatim>\<open>ParquetBatchWriter\<close>, \<^verbatim>\<open>storage.py\<close> lines 107-128)\<close>

text \<open>
  The records buffered and the batches written so far, one list per file. \<^verbatim>\<open>flush\<close> writes
  nothing for an empty buffer, and clears the buffer after the file is written:
  \<open>to_parquet\<close> is the outcome of writing it. \<^verbatim>\<open>add\<close> flushes once 200 records are
  buffered.
\<close>

record 'a writer =
  batch :: "'a list"
  written :: "'a list list"

definition writer_flush :: "exn option \<Rightarrow> 'a writer \<Rightarrow> 'a writer \<times> exn option" where
  "writer_flush to_parquet w =
     (if batch w = [] then (w, None)
      else (case to_parquet of
              Some e \<Rightarrow> (w, Some e)
            | None \<Rightarrow> (w\<lparr>batch := [], written := written w @ [batch w]\<rparr>, None)))"

definition writer_add :: "exn option \<Rightarrow> 'a writer \<Rightarrow> 'a list \<Rightarrow> 'a writer \<times> exn option" where
  "writer_add to_parquet w records =
     (let w' = w\<lparr>batch := batch w @ records\<rparr>
      in if length (batch w') \<ge> 200 then writer_flush to_parquet w' else (w', None))"

subsection \<open>The state of a worker and the state shared by the workers\<close>

text \<open>
  The counters of \<^verbatim>\<open>stats\<close> (one per status, and the number of file rows), the checkpoint,
  the variables of a worker that live across records, and the state behind the lock: the
  set of processed IDs and the retry dictionary in memory, the log of processed IDs and
  the checkpoint on disk.
\<close>

record stats =
  n_ok :: nat
  n_missing :: nat
  n_error :: nat
  n_partial :: nat
  n_timeout :: nat
  n_files :: nat

definition count_status :: "status \<Rightarrow> stats \<Rightarrow> stats" where
  "count_status st s =
     (case st of
        OK \<Rightarrow> s\<lparr>n_ok := Suc (n_ok s)\<rparr>
      | MISSING \<Rightarrow> s\<lparr>n_missing := Suc (n_missing s)\<rparr>
      | PARTIAL \<Rightarrow> s\<lparr>n_partial := Suc (n_partial s)\<rparr>
      | ERROR \<Rightarrow> s\<lparr>n_error := Suc (n_error s)\<rparr>
      | TIMEOUT \<Rightarrow> s\<lparr>n_timeout := Suc (n_timeout s)\<rparr>)"

record checkpoint =
  cp_run_id :: int
  cp_last_processed_id :: int
  cp_stats :: stats
  cp_updated_at :: string

record worker =
  w_stats :: stats
  w_save_html_count :: nat
  guarantees_writer :: "guarantee_row writer"
  attributes_writer :: "attribute_row writer"
  files_writer :: "file_row writer"
  w_events :: "event list"

record shared =
  processed_ids :: "int set"
  retry_state :: "(string, int) dict"
  processed_ids_file :: "nat list option"
  checkpoint_file :: "checkpoint option"

definition initial_worker :: worker where
  "initial_worker =
     \<lparr>w_stats = \<lparr>n_ok = 0, n_missing = 0, n_error = 0, n_partial = 0, n_timeout = 0, n_files = 0\<rparr>,
      w_save_html_count = 0,
      guarantees_writer = \<lparr>batch = [], written = []\<rparr>,
      attributes_writer = \<lparr>batch = [], written = []\<rparr>,
      files_writer = \<lparr>batch = [], written = []\<rparr>,
      w_events = []\<rparr>"

subsection \<open>One record: lines 148-319\<close>

text \<open>
  The deadline, the \<^verbatim>\<open>try\<close> block with its handlers, and the classification: the local
  variables when line 321 is reached, or the exception that left a handler.
\<close>

definition deadline_of :: "args \<Rightarrow> id_env \<Rightarrow> real option" where
  "deadline_of a env =
     (if per_id_timeout a > 0 then Some (clock_deadline env + real_of_int (per_id_timeout a))
      else None)"

definition try_block :: "extractor \<Rightarrow> args \<Rightarrow> id_env \<Rightarrow> int \<Rightarrow> int \<Rightarrow> locals \<Rightarrow> locals \<times> exn option" where
  "try_block ex a env run gid l =
     (let r = fetch ex a env run gid (deadline_of a env) l
      in case snd r of None \<Rightarrow> r | Some e \<Rightarrow> handle_exception a env (fst r) e)"

definition classified :: "extractor \<Rightarrow> args \<Rightarrow> id_env \<Rightarrow> int \<Rightarrow> int \<Rightarrow> locals \<Rightarrow> locals \<times> exn option" where
  "classified ex a env run gid l =
     (let r = try_block ex a env run gid l
      in case snd r of None \<Rightarrow> (classify (fst r), None) | Some e \<Rightarrow> r)"

subsection \<open>Writing the rows and the state: lines 321-362\<close>

definition guarantee_row_of :: "id_env \<Rightarrow> int \<Rightarrow> int \<Rightarrow> locals \<Rightarrow> guarantee_row" where
  "guarantee_row_of env run gid l =
     \<lparr>g_run_id = run, g_id = gid, g_status = status l, g_general_url = GENERAL_INFO_URL gid,
      g_documents_url = DOCUMENTS_URL gid, g_fetched_at = fetched_at env,
      g_warnings = warnings l, g_error = error_message l\<rparr>"

text \<open>
  The critical section (lines 335-362): the attribute union is merged, the ID appended to
  the log and added to the set, the counters and the retry dictionary updated and the
  checkpoint written. A call that raises leaves the loop with what was done before it.
\<close>

definition update_state :: "args \<Rightarrow> id_env \<Rightarrow> int \<Rightarrow> int \<Rightarrow> locals \<Rightarrow> worker \<times> shared \<Rightarrow> (worker \<times> shared) \<times> exn option" where
  "update_state a env run gid l st =
     (case update_attribute_union env of
        Some e \<Rightarrow> (st, Some e)
      | None \<Rightarrow>
     (case append_processed env of
        Some e \<Rightarrow> (st, Some e)
      | None \<Rightarrow>
          (let w = (fst st)\<lparr>w_stats :=
                     (count_status (status l) (w_stats (fst st)))
                       \<lparr>n_files := n_files (w_stats (fst st)) + length (files_rows l)\<rparr>\<rparr>;
               sh = (snd st)\<lparr>processed_ids_file := append_processed_id (processed_ids_file (snd st)) gid,
                             processed_ids := insert gid (processed_ids (snd st)),
                             retry_state := retry_update (max_retries a) (status l) gid
                                              (retry_state (snd st))\<rparr>
           in case save_checkpoint env of
                Some e \<Rightarrow> ((w, sh), Some e)
              | None \<Rightarrow>
                  ((w, sh\<lparr>checkpoint_file :=
                           Some \<lparr>cp_run_id = run, cp_last_processed_id = gid,
                                 cp_stats = w_stats w, cp_updated_at = checkpoint_at env\<rparr>\<rparr>),
                   None))))"

definition persist :: "args \<Rightarrow> id_env \<Rightarrow> int \<Rightarrow> int \<Rightarrow> locals \<Rightarrow> worker \<times> shared \<Rightarrow> (worker \<times> shared) \<times> exn option" where
  "persist a env run gid l st =
     (let g = writer_add (flush_guarantees env) (guarantees_writer (fst st))
                [guarantee_row_of env run gid l];
          w1 = (fst st)\<lparr>guarantees_writer := fst g\<rparr>
      in case snd g of
           Some e \<Rightarrow> ((w1, snd st), Some e)
         | None \<Rightarrow>
             (let att_w = writer_add (flush_attributes env) (attributes_writer w1) (attributes_rows l);
                  w2 = w1\<lparr>attributes_writer := fst att_w\<rparr>
              in case snd att_w of
                   Some e \<Rightarrow> ((w2, snd st), Some e)
                 | None \<Rightarrow>
                     (let f = writer_add (flush_files env) (files_writer w2) (files_rows l);
                          w3 = w2\<lparr>files_writer := fst f\<rparr>
                      in case snd f of
                           Some e \<Rightarrow> ((w3, snd st), Some e)
                         | None \<Rightarrow> update_state a env run gid l (w3, snd st))))"

text \<open>
  One pass of the loop for an ID that is not skipped: the record is fetched and
  classified, then written. The pause at the end of the pass changes no value.
\<close>

definition process_one :: "extractor \<Rightarrow> args \<Rightarrow> id_env \<Rightarrow> int \<Rightarrow> int \<Rightarrow> worker \<times> shared \<Rightarrow> (worker \<times> shared) \<times> exn option" where
  "process_one ex a env run gid st =
     (let r = classified ex a env run gid
                (initial_locals (w_events (fst st)) (w_save_html_count (fst st)));
          w = (fst st)\<lparr>w_events := events (fst r), w_save_html_count := save_html_count (fst r)\<rparr>
      in case snd r of
           Some e \<Rightarrow> ((w, snd st), Some e)
         | None \<Rightarrow> persist a env run gid (fst r) (w, snd st))"

subsection \<open>\<^verbatim>\<open>_process_ids\<close> (lines 91-388)\<close>

text \<open>
  The \<^verbatim>\<open>for\<close> loop (lines 143-378) from the position \<open>index\<close> of the worklist on: an ID
  of the processed set is skipped unless \<^verbatim>\<open>force\<close> is set; an exception that leaves a pass
  leaves the loop. The environment answers per position.
\<close>

fun process_loop ::
  "extractor \<Rightarrow> args \<Rightarrow> (nat \<Rightarrow> id_env) \<Rightarrow> int \<Rightarrow> nat \<Rightarrow> int list \<Rightarrow> worker \<times> shared
    \<Rightarrow> (worker \<times> shared) \<times> exn option" where
  "process_loop ex a env run index [] st = (st, None)"
| "process_loop ex a env run index (gid # rest) st =
     (if gid \<in> processed_ids (snd st) \<and> \<not> force a
      then process_loop ex a env run (Suc index) rest st
      else (case process_one ex a (env index) run gid st of
              (st', Some e) \<Rightarrow> (st', Some e)
            | (st', None) \<Rightarrow> process_loop ex a env run (Suc index) rest st'))"

text \<open>
  What a worker is given besides the records: the outcome of \<^verbatim>\<open>build_driver\<close> at its
  start (live mode), of the three flushes after the loop and of \<^verbatim>\<open>driver.quit()\<close> in the
  \<^verbatim>\<open>finally\<close> clause.
\<close>

record worker_env =
  build_driver :: "exn option"
  per_id :: "nat \<Rightarrow> id_env"
  last_flush_guarantees :: "exn option"
  last_flush_attributes :: "exn option"
  last_flush_files :: "exn option"
  quit_driver :: "exn option"

text \<open>Lines 380-382: the three writers are flushed, the first failure ending the function.\<close>

definition flush_all :: "worker_env \<Rightarrow> worker \<Rightarrow> worker \<times> exn option" where
  "flush_all wenv w =
     (let g = writer_flush (last_flush_guarantees wenv) (guarantees_writer w);
          w1 = w\<lparr>guarantees_writer := fst g\<rparr>
      in case snd g of
           Some e \<Rightarrow> (w1, Some e)
         | None \<Rightarrow>
             (let att_w = writer_flush (last_flush_attributes wenv) (attributes_writer w1);
                  w2 = w1\<lparr>attributes_writer := fst att_w\<rparr>
              in case snd att_w of
                   Some e \<Rightarrow> (w2, Some e)
                 | None \<Rightarrow>
                     (let f = writer_flush (last_flush_files wenv) (files_writer w2)
                      in (w2\<lparr>files_writer := fst f\<rparr>, snd f))))"

text \<open>
  The function: the driver is built before the \<^verbatim>\<open>try\<close> (live mode), the loop and the
  flushes run inside it, and the \<^verbatim>\<open>finally\<close> clause quits the driver, an exception of
  which replaces the pending one.
\<close>

definition process_ids :: "extractor \<Rightarrow> args \<Rightarrow> worker_env \<Rightarrow> int \<Rightarrow> int list \<Rightarrow> shared \<Rightarrow> (worker \<times> shared) \<times> exn option" where
  "process_ids ex a wenv run worklist sh =
     (case (if mode a = Live then build_driver wenv else None) of
        Some e \<Rightarrow> ((initial_worker, sh), Some e)
      | None \<Rightarrow>
          (let looped = process_loop ex a (per_id wenv) run 1 worklist (initial_worker, sh);
               flushed = (case snd looped of
                            Some e \<Rightarrow> looped
                          | None \<Rightarrow>
                              (let f = flush_all wenv (fst (fst looped))
                               in ((fst f, snd (fst looped)), snd f)))
           in case (if mode a = Live then quit_driver wenv else None) of
                Some e \<Rightarrow> (fst flushed, Some e)
              | None \<Rightarrow> flushed))"

subsection \<open>\<^verbatim>\<open>parse_ids\<close> (lines 390-404)\<close>

text \<open>
  \<^verbatim>\<open>s.split(",")\<close>; the slice \<^verbatim>\<open>ids[:n]\<close>, which for a negative \<open>n\<close> drops the last
  \<open>- n\<close> elements; and \<^verbatim>\<open>list(range(lo, hi + 1))\<close>.
\<close>

fun split_from :: "nat \<Rightarrow> ustr \<Rightarrow> ustr \<Rightarrow> ustr list" where
  "split_from sep cur [] = [cur]"
| "split_from sep cur (c # cs) =
     (if c = sep then cur # split_from sep [] cs else split_from sep (cur @ [c]) cs)"

definition py_take :: "int \<Rightarrow> 'a list \<Rightarrow> 'a list" where
  "py_take n xs = (if n \<ge> 0 then take (nat n) xs else take (nat (int (length xs) + n)) xs)"

definition py_range :: "int \<Rightarrow> int \<Rightarrow> int list" where
  "py_range lo hi = map (\<lambda>k. lo + int k) [0 ..< nat (hi + 1 - lo)]"

text \<open>
  \<^verbatim>\<open>[int(x.strip()) for x in args.ids.split(",") if x.strip()]\<close>: the first item that is
  not an integer raises \<^verbatim>\<open>ValueError\<close>.
\<close>

fun ints_of :: "(ustr \<Rightarrow> int option) \<Rightarrow> ustr list \<Rightarrow> exn + int list" where
  "ints_of to_int [] = Inr []"
| "ints_of to_int (x # xs) =
     (if strip x = [] then ints_of to_int xs
      else (case to_int (strip x) of
              None \<Rightarrow> Inl (Exn ValueError ''invalid literal for int()'')
            | Some n \<Rightarrow>
                (case ints_of to_int xs of Inl e \<Rightarrow> Inl e | Inr ns \<Rightarrow> Inr (n # ns))))"

text \<open>
  \<^verbatim>\<open>
  if args.ids:
      ids = [int(x.strip()) for x in args.ids.split(",") if x.strip()]
  elif args.start_id is not None and args.end_id is not None:
      ids = list(range(args.start_id, args.end_id + 1))
  else:
      ids = list(DEFAULT_TEST_IDS)
  if args.max_ids is not None:
      ids = ids[: args.max_ids]
  if not args.skip_retries and retry_ids:
      ids = retry_ids + [i for i in ids if i not in retry_ids]
  return ids
  \<close>
\<close>

definition selected_ids :: "(ustr \<Rightarrow> int option) \<Rightarrow> args \<Rightarrow> exn + int list" where
  "selected_ids to_int a =
     (let given = (case ids a of None \<Rightarrow> [] | Some s \<Rightarrow> s)
      in if given \<noteq> [] then ints_of to_int (split_from 44 [] given)
         else (case (start_id a, end_id a) of
                 (Some lo, Some hi) \<Rightarrow> Inr (py_range lo hi)
               | _ \<Rightarrow> Inr DEFAULT_TEST_IDS))"

definition parse_ids :: "(ustr \<Rightarrow> int option) \<Rightarrow> args \<Rightarrow> int list \<Rightarrow> exn + int list" where
  "parse_ids to_int a retry_ids =
     (case selected_ids to_int a of
        Inl e \<Rightarrow> Inl e
      | Inr chosen \<Rightarrow>
          (let cut = (case max_ids a of None \<Rightarrow> chosen | Some n \<Rightarrow> py_take n chosen)
           in if \<not> skip_retries a \<and> retry_ids \<noteq> []
              then Inr (retry_ids @ filter (\<lambda>i. i \<notin> set retry_ids) cut)
              else Inr cut))"

subsection \<open>\<^verbatim>\<open>main\<close> (lines 514-611)\<close>

text \<open>
  The four files of the run state: the run counter, the log of processed IDs (its bytes),
  the retry queue and the checkpoint; \<open>None\<close> is a file that does not exist.
\<close>

record disk =
  run_state_file :: "run_state option"
  processed_log :: "nat list option"
  retry_queue_file :: "(string, int) dict option"
  checkpoint_on_disk :: "checkpoint option"

text \<open>
  \<^verbatim>\<open>retry_ids = [int(k) for k, v in retry_state.items() if v < args.max_retries]\<close>, in the
  order of the dictionary; a key that is not an integer raises \<^verbatim>\<open>ValueError\<close>.
\<close>

fun retry_ids_of :: "(ustr \<Rightarrow> int option) \<Rightarrow> int \<Rightarrow> (string, int) dict \<Rightarrow> exn + int list" where
  "retry_ids_of to_int limit [] = Inr []"
| "retry_ids_of to_int limit ((k, v) # items) =
     (if v < limit then
        (case to_int (codes k) of
           None \<Rightarrow> Inl (Exn ValueError ''invalid literal for int()'')
         | Some n \<Rightarrow>
             (case retry_ids_of to_int limit items of Inl e \<Rightarrow> Inl e | Inr ns \<Rightarrow> Inr (n # ns)))
      else retry_ids_of to_int limit items)"

text \<open>
  \<^verbatim>\<open>slices = [ids[i :: args.workers] for i in range(args.workers)]\<close>, and the workers
  started: one per slice that is not empty, numbered by the position of the slice, from 1.
\<close>

definition stride :: "nat \<Rightarrow> nat \<Rightarrow> 'a list \<Rightarrow> 'a list" where
  "stride i n xs = map ((!) xs) (filter (\<lambda>j. j mod n = i) [0 ..< length xs])"

definition worker_slices :: "nat \<Rightarrow> int list \<Rightarrow> (nat \<times> int list) list" where
  "worker_slices n worklist =
     filter (\<lambda>numbered. snd numbered \<noteq> [])
       (map (\<lambda>i. (Suc i, stride i n worklist)) [0 ..< n])"

text \<open>
  What a run is given: the reading of \<^verbatim>\<open>utc_now_iso()\<close> for the run counter, and the
  environment of each worker by its number. What it leaves: the files, the state of each
  worker that ran (with the batches it wrote), and the exception that ended it, if any.
\<close>

record run_env =
  run_started_at :: string
  worker_envs :: "nat \<Rightarrow> worker_env"

record run_result =
  disk_after :: disk
  workers_after :: "worker list"
  raised :: "exn option"

text \<open>
  The workers of a run with several workers. In the source they run concurrently, their
  state updates serialised by the lock; here they run one after another in the order of
  their numbers, which is one of the schedules. Every worker runs to its end, and the
  first exception in the order of the workers is re-raised by \<^verbatim>\<open>future.result()\<close>.
\<close>

fun run_workers ::
  "extractor \<Rightarrow> args \<Rightarrow> (nat \<Rightarrow> worker_env) \<Rightarrow> int \<Rightarrow> (nat \<times> int list) list \<Rightarrow> shared
    \<Rightarrow> worker list \<times> shared \<times> exn option" where
  "run_workers ex a envs run [] sh = ([], sh, None)"
| "run_workers ex a envs run (numbered # others) sh =
     (let r = process_ids ex a (envs (fst numbered)) run (snd numbered) sh;
          later = run_workers ex a envs run others (snd (fst r))
      in (fst (fst r) # fst later, fst (snd later),
          (case snd r of Some e \<Rightarrow> Some e | None \<Rightarrow> snd (snd later))))"

text \<open>
  The run: the retry queue is loaded and put in front of the worklist; an empty worklist
  ends the run before anything is written; otherwise the run counter is incremented, the
  log of processed IDs loaded, the workers run, and the retry queue saved (line 600) when
  no exception ended the run.
\<close>

definition main :: "(ustr \<Rightarrow> int option) \<Rightarrow> extractor \<Rightarrow> args \<Rightarrow> run_env \<Rightarrow> disk \<Rightarrow> run_result" where
  "main to_int ex a env d =
     (let queue = (case retry_queue_file d of None \<Rightarrow> [] | Some q \<Rightarrow> q) in
      case retry_ids_of to_int (max_retries a) queue of
        Inl e \<Rightarrow> \<lparr>disk_after = d, workers_after = [], raised = Some e\<rparr>
      | Inr retry_ids \<Rightarrow>
     (case parse_ids to_int a retry_ids of
        Inl e \<Rightarrow> \<lparr>disk_after = d, workers_after = [], raised = Some e\<rparr>
      | Inr worklist \<Rightarrow>
          if worklist = [] then \<lparr>disk_after = d, workers_after = [], raised = None\<rparr>
          else
            (let counted = next_run_id (run_state_file d) (run_started_at env);
                 d1 = d\<lparr>run_state_file := snd counted\<rparr>
             in case load_processed_ids to_int (processed_log d) of
                  Inl e \<Rightarrow> \<lparr>disk_after = d1, workers_after = [], raised = Some e\<rparr>
                | Inr processed \<Rightarrow>
                    (let sh = \<lparr>processed_ids = processed, retry_state = queue,
                               processed_ids_file = processed_log d,
                               checkpoint_file = checkpoint_on_disk d\<rparr>;
                         ran = (if workers a \<le> 1
                                then (let r = process_ids ex a (worker_envs env 1) (fst counted)
                                                worklist sh
                                      in ([fst (fst r)], snd (fst r), snd r))
                                else run_workers ex a (worker_envs env) (fst counted)
                                       (worker_slices (nat (workers a)) worklist) sh);
                         d2 = d1\<lparr>processed_log := processed_ids_file (fst (snd ran)),
                                 checkpoint_on_disk := checkpoint_file (fst (snd ran))\<rparr>
                     in case snd (snd ran) of
                          Some e \<Rightarrow> \<lparr>disk_after = d2, workers_after = fst ran, raised = Some e\<rparr>
                        | None \<Rightarrow>
                            \<lparr>disk_after = d2\<lparr>retry_queue_file := Some (retry_state (fst (snd ran)))\<rparr>,
                             workers_after = fst ran, raised = None\<rparr>))))"

text \<open>The rows a run wrote or still held in a buffer, over all its workers.\<close>

definition rows_of :: "'a writer \<Rightarrow> 'a list" where
  "rows_of w = concat (written w) @ batch w"

definition guarantee_rows :: "run_result \<Rightarrow> guarantee_row list" where
  "guarantee_rows r = concat (map (\<lambda>w. rows_of (guarantees_writer w)) (workers_after r))"

definition attribute_rows :: "run_result \<Rightarrow> attribute_row list" where
  "attribute_rows r = concat (map (\<lambda>w. rows_of (attributes_writer w)) (workers_after r))"

definition file_rows :: "run_result \<Rightarrow> file_row list" where
  "file_rows r = concat (map (\<lambda>w. rows_of (files_writer w)) (workers_after r))"

subsection \<open>Predicates on the environment of a record\<close>

text \<open>
  The primary page is read and \<^verbatim>\<open>is_missing_page\<close> classifies its content as missing: the
  deadline check before it passes, in live mode the calls up to \<^verbatim>\<open>driver.page_source\<close>
  return, in offline mode the sample file is there, and the page holds the phrase.
\<close>

definition primary_missing :: "args \<Rightarrow> id_env \<Rightarrow> bool" where
  "primary_missing a env =
     (ensure_time_left (deadline_of a env) (clock_general env) = None
      \<and> (case mode a of
            Offline \<Rightarrow>
              (case sample_general env of
                 Inr (Some html) \<Rightarrow> is_missing_page html
               | Inr None \<Rightarrow> False
               | Inl e \<Rightarrow> False)
          | Live \<Rightarrow>
              clean_download_dir env = None \<and> get_general env = None
              \<and> ready_general env = None
              \<and> (case source_general env of Inr html \<Rightarrow> is_missing_page html | Inl e \<Rightarrow> False)))"

text \<open>The request for the primary page, as the event it leaves.\<close>

definition primary_request :: "args \<Rightarrow> int \<Rightarrow> event" where
  "primary_request a gid =
     (if mode a = Offline then LoadSample ''generalInformation'' gid
      else Get (GENERAL_INFO_URL gid))"

text \<open>
  The local variables once the primary page \<open>html\<close> has been read and found missing.
\<close>

definition missing_locals :: "args \<Rightarrow> int \<Rightarrow> event list \<Rightarrow> nat \<Rightarrow> ustr \<Rightarrow> locals" where
  "missing_locals a gid evs n html =
     (initial_locals evs n)\<lparr>events := evs @ [primary_request a gid], general_html := html,
                             status := MISSING\<rparr>"

text \<open>
  No call made while the rows and the state of a record are written raises (lines
  331-362).
\<close>

definition persist_quiet :: "id_env \<Rightarrow> bool" where
  "persist_quiet env =
     (flush_guarantees env = None \<and> flush_attributes env = None \<and> flush_files env = None
      \<and> update_attribute_union env = None \<and> append_processed env = None
      \<and> save_checkpoint env = None)"

text \<open>
  The status the handlers give an exception of the \<^verbatim>\<open>try\<close> block, and the one that is
  written after the classification by the file rows \<open>rows\<close> collected before it was
  raised.
\<close>

definition caught_status :: "exn \<Rightarrow> status" where
  "caught_status e = (if cls e = ProcessingTimeout then TIMEOUT else ERROR)"

definition all_failed :: "file_row list \<Rightarrow> bool" where
  "all_failed rows = (rows \<noteq> [] \<and> length (failed_rows rows) = length rows)"


text \<open>
  The final status of a pass of the loop for the ID \<open>gid\<close>, started in the state \<open>st\<close>:
  the one the classification leaves, which the guarantee row and the state update use.
\<close>

definition final_status :: "extractor \<Rightarrow> args \<Rightarrow> id_env \<Rightarrow> int \<Rightarrow> int \<Rightarrow> worker \<times> shared \<Rightarrow> status" where
  "final_status ex a env run gid st =
     status (fst (classified ex a env run gid
                    (initial_locals (w_events (fst st)) (w_save_html_count (fst st)))))"

text \<open>
  The state after \<open>n\<close> successive passes for the same ID, the pass number \<open>i\<close> with
  the environment \<open>env i\<close> and the run number \<open>run i\<close>, each pass starting from the
  state the one before left.
\<close>

fun attempts ::
  "extractor \<Rightarrow> args \<Rightarrow> (nat \<Rightarrow> id_env) \<Rightarrow> (nat \<Rightarrow> int) \<Rightarrow> int \<Rightarrow> nat \<Rightarrow> worker \<times> shared \<Rightarrow> worker \<times> shared"
where
  "attempts ex a env run gid 0 st = st"
| "attempts ex a env run gid (Suc n) st =
     fst (process_one ex a (env n) (run n) gid (attempts ex a env run gid n st))"
section \<open>Example environments\<close>

text \<open>
  Concrete answers of the browser and the file system, on which the theorems below are
  instantiated: a download directory in which one finished file of ten bytes is seen at
  every pass, and an attachment for which every call succeeds.
\<close>

definition steady_file :: "string \<Rightarrow> nat \<Rightarrow> nat \<Rightarrow> tick" where
  "steady_file name n i =
     \<lparr>page = Inr [],
      listing = Inr [\<lparr>d_name = name, d_is_file = True, st_size = n, st_mtime = 1\<rparr>],
      unlink_fails = False, track_lag = (\<lambda>k. 0), stable_lag = 0,
      stall_lag = 0, sleep = None, elapsed = 1\<rparr>"

definition calm_att :: att_env where
  "calm_att =
     \<lparr>stored_exists = False, pdf_reads = (\<lambda>k. Inr 2), sha256_file = Inr ''ab12'',
      before_files = Inr [], open_download = Inr (Some ''tab-1''), first_page = Inr [],
      close_window = None, restore_focus = None, wait_start = 0, wait_lag = 0,
      ticks = steady_file ''doc.pdf'' 10, stored_exists_forced = False,
      unlink_stored = None, mkdir_parent = None, move = None, moved_exists = True,
      moved_size = 10\<rparr>"

definition calm_dl :: dl_env where
  "calm_dl = \<lparr>mkdir_id_dir = None, att = (\<lambda>index. calm_att)\<rparr>"

definition one_attachment :: attachment where
  "one_attachment =
     \<lparr>att_download_url = ''https://zakupki.gov.ru/file?uid=A1'',
      att_original_filename = ''guarantee.pdf'', att_document_index = 1,
      att_document_number = ''01''\<rparr>"

definition no_mime :: "string \<Rightarrow> string" where
  "no_mime name = []"

text \<open>
  The browser session is gone when the first attachment is opened; and a download that
  ends with an empty file, followed by one that succeeds.
\<close>

definition lost_session_dl :: dl_env where
  "lost_session_dl =
     \<lparr>mkdir_id_dir = None,
      att = (\<lambda>index. calm_att\<lparr>open_download := Inl (Exn WebDriverException ''invalid session id'')\<rparr>)\<rparr>"

definition empty_file_dl :: dl_env where
  "empty_file_dl =
     \<lparr>mkdir_id_dir = None,
      att = (\<lambda>index. if index = 1
                       then calm_att\<lparr>ticks := steady_file ''doc.pdf'' 0, moved_size := 0\<rparr>
                       else calm_att)\<rparr>"

text \<open>
  A download that ends with an empty file while the browser session is dead: closing the
  download window raises.
\<close>

definition dead_tab_dl :: dl_env where
  "dead_tab_dl =
     \<lparr>mkdir_id_dir = None,
      att = (\<lambda>index. calm_att\<lparr>ticks := steady_file ''doc.pdf'' 0, moved_size := 0,
                       close_window := Some (Exn WebDriverException ''invalid session id'')\<rparr>)\<rparr>"

text \<open>
  A finished file that is there from the start, joined after three seconds by a second,
  newer one; and an empty download directory.
\<close>

definition two_files :: "nat \<Rightarrow> tick" where
  "two_files i =
     \<lparr>page = Inr [],
      listing = Inr (if i < 3
                     then [\<lparr>d_name = ''a.pdf'', d_is_file = True, st_size = 10, st_mtime = 1\<rparr>]
                     else [\<lparr>d_name = ''a.pdf'', d_is_file = True, st_size = 10, st_mtime = 1\<rparr>,
                           \<lparr>d_name = ''b.pdf'', d_is_file = True, st_size = 20, st_mtime = 4\<rparr>]),
      unlink_fails = False, track_lag = (\<lambda>k. 0), stable_lag = 0,
      stall_lag = 0, sleep = None, elapsed = 1\<rparr>"

definition empty_dir :: "nat \<Rightarrow> tick" where
  "empty_dir i = \<lparr>page = Inr [], listing = Inr [], unlink_fails = False, track_lag = (\<lambda>k. 0), stable_lag = 0,
      stall_lag = 0, sleep = None, elapsed = 1\<rparr>"

text \<open>
  A finished file whose first scan is slow: the driver call of the first pass takes 2.9
  seconds, so that the size of the file is first recorded 2.9 seconds after the loop
  test.
\<close>

definition slow_scan :: "nat \<Rightarrow> tick" where
  "slow_scan i =
     \<lparr>page = Inr [],
      listing = Inr [\<lparr>d_name = ''doc.pdf'', d_is_file = True, st_size = 10, st_mtime = 1\<rparr>],
      unlink_fails = False, track_lag = (\<lambda>k. if i = 0 then 29 / 10 else 0), stable_lag = 0,
      stall_lag = 0, sleep = None, elapsed = 1\<rparr>"

text \<open>
  A record for which every call succeeds and whose two pages list nothing; an extractor
  that finds no field and no attachment, and one that finds two attachments; and the
  download of an attachment whose window shows the "file not found" page.
\<close>

definition plain_page :: ustr where
  "plain_page = [60, 104, 116, 109, 108, 62]"

definition calm_env :: id_env where
  "calm_env =
     \<lparr>clock_deadline = 0, clock_general = 0, clock_documents = 1, clock_download = 2,
      sample_general = Inr (Some plain_page), sample_documents = Inr (Some plain_page),
      clean_download_dir = None, get_general = None, ready_general = None,
      source_general = Inr plain_page, selector_general = None, get_documents = None,
      ready_documents = None, source_documents = Inr plain_page, selector_documents = None,
      downloads = calm_dl, snapshot_general = None, snapshot_documents = None,
      restart_driver = None, flush_guarantees = None, flush_attributes = None,
      flush_files = None, update_attribute_union = None, append_processed = None,
      save_checkpoint = None, fetched_at = ''2026-01-01T00:00:00+00:00'',
      checkpoint_at = ''2026-01-01T00:00:01+00:00''\<rparr>"

definition no_fields :: extractor where
  "no_fields =
     \<lparr>parse_general_info = (\<lambda>html. Inr ([], [])),
      parse_document_info =
        (\<lambda>html. Inr ([], [], [''Attachments not found in document blocks''])),
      guess_type = no_mime\<rparr>"

definition two_attachments :: extractor where
  "two_attachments =
     \<lparr>parse_general_info = (\<lambda>html. Inr ([], [])),
      parse_document_info = (\<lambda>html. Inr ([one_attachment, one_attachment], [], [])),
      guess_type = no_mime\<rparr>"

definition not_found_dl :: dl_env where
  "not_found_dl =
     \<lparr>mkdir_id_dir = None,
      att = (\<lambda>index. calm_att\<lparr>first_page := Inr (FILE_WITH_UID @ [32] @ NOT_FOUND)\<rparr>)\<rparr>"

definition live_args :: args where
  "live_args = default_args\<lparr>mode := Live\<rparr>"

definition calm_worker_env :: worker_env where
  "calm_worker_env =
     \<lparr>build_driver = None, per_id = (\<lambda>index. calm_env), last_flush_guarantees = None,
      last_flush_attributes = None, last_flush_files = None, quit_driver = None\<rparr>"

text \<open>
  A record whose primary page is the "page does not exist" page, in live mode; and the
  same record when the disk is full, so that saving the page raises.
\<close>

definition missing_env :: id_env where
  "missing_env = calm_env\<lparr>source_general := Inr MISSING_PAGE_PHRASE\<rparr>"

definition full_disk_env :: id_env where
  "full_disk_env =
     missing_env\<lparr>snapshot_general := Some (Exn OSError ''No space left on device'')\<rparr>"

text \<open>
  A record with two attachments whose downloads both end on the "file not found" page,
  and for which the per-ID alarm fires while the primary page is being saved.
\<close>

definition alarm_env :: id_env where
  "alarm_env =
     calm_env\<lparr>downloads := not_found_dl,
               snapshot_general := Some (Exn ProcessingTimeout ''Per-ID processing timed out'')\<rparr>"

text \<open>
  The variables of a record after two downloads: one stalled and one stored, and both
  stalled.
\<close>

definition one_failed :: locals where
  "one_failed =
     (initial_locals [] 0)\<lparr>files_rows :=
        [failed_row 1 5 1 ''guarantee.pdf'' ''https://zakupki.gov.ru/file?uid=A1'' one_attachment
           ''FAILED_STALLED'',
         offline_file_row no_mime 1 5 (2, one_attachment)]\<rparr>"

definition both_failed :: locals where
  "both_failed =
     (initial_locals [] 0)\<lparr>files_rows :=
        [failed_row 1 5 1 ''guarantee.pdf'' ''https://zakupki.gov.ru/file?uid=A1'' one_attachment
           ''FAILED_STALLED'',
         failed_row 1 5 2 ''guarantee.pdf'' ''https://zakupki.gov.ru/file?uid=A1'' one_attachment
           ''FAILED_TIMEOUT'']\<rparr>"


text \<open>The state of a worker that starts, with a given retry dictionary.\<close>

definition fresh_state :: "(string, int) dict \<Rightarrow> worker \<times> shared" where
  "fresh_state retries =
     (initial_worker,
      \<lparr>processed_ids = {}, retry_state = retries, processed_ids_file = None,
       checkpoint_file = None\<rparr>)"

text \<open>
  A record whose primary page is missing, processed while the log of processed IDs cannot
  be written.
\<close>

definition log_full_env :: id_env where
  "log_full_env =
     missing_env\<lparr>append_processed := Some (Exn OSError ''No space left on device'')\<rparr>"

text \<open>
  Workers whose browser starts and stops, with the same record environment at every
  position of the worklist.
\<close>

definition steady_worker :: "id_env \<Rightarrow> worker_env" where
  "steady_worker env = calm_worker_env\<lparr>per_id := (\<lambda>index. env)\<rparr>"
section \<open>The attachment downloader: proofs\<close>

lemma track_files_later: "now \<le> fst (track_files lag k now progress ps)"
proof (induction ps arbitrary: k now progress)
  case Nil
  show ?case by simp
next
  case (Cons p ps)
  have "now \<le> later now (lag k)"
    by (simp add: later_def)
  also have "\<dots> \<le> fst (track_files lag (Suc k) (later now (lag k))
      (track (later now (lag k)) progress p) ps)"
    by (rule Cons.IH)
  finally show ?case by simp
qed

lemma poll_download_later:
  assumes "poll_download obs before stable_seconds stall_seconds now progress = Continue t progress'"
  shows "now \<le> t"
proof -
  from assms obtain entries where
    "t = later (later (fst (track_files (track_lag obs) 0 now progress (new_files before entries)))
           (stable_lag obs)) (stall_lag obs)"
    by (auto simp: poll_download_def Let_def split: sum.splits if_splits option.splits)
  moreover have "now \<le> fst (track_files (track_lag obs) 0 now progress (new_files before entries))"
    by (rule track_files_later)
  ultimately show ?thesis
    by (simp add: later_def)
qed

lemmas marker_defs = FILE_WITH_UID_def NOT_FOUND_def FILE_WITH_UID_RU_def NOT_FOUND_RU_def
  STATUS_ERROR_QUOTED_def STATUS_ERROR_def

lemma detect_empty_page: "detect_download_error (Inr []) = Inr []"
  by (simp add: detect_download_error_def marker_defs)

lemma ok_row_simps [simp]: "ok_row P (Inl e) = True" "ok_row P (Inr row) = P row"
  by (simp_all add: ok_row_def)

lemma failed_row_of:
  "row_of run gid index item (failed_row run gid index name url item st) =
     (name = strip_str (att_original_filename item) \<and> url = strip_str (att_download_url item))"
  by (auto simp: row_of_def failed_row_def)

lemma stored_row_ok:
  "name = strip_str (att_original_filename item) \<Longrightarrow> url = strip_str (att_download_url item) \<Longrightarrow>
   ok_row (row_of run gid index item) (stored_row g env run gid index name url item fname path st)"
  by (simp add: stored_row_def row_of_def split: sum.split)

lemma store_download_ok:
  "name = strip_str (att_original_filename item) \<Longrightarrow> url = strip_str (att_download_url item) \<Longrightarrow>
   ok_row (row_of run gid index item)
     (store_download g env run gid id_dir frc index name url item sfx handle downloaded)"
  by (simp add: store_download_def Let_def stored_row_ok failed_row_of split: option.split)

lemma download_one_ok:
  "ok_row (row_of run gid index item)
     (download_one g env run gid dir frc timeout stall index item)"
  by (simp add: download_one_def Let_def stored_row_ok store_download_ok failed_row_of
      split: option.split sum.split prod.split)

lemma download_one_of:
  "download_one g env run gid dir frc timeout stall index item = Inr row
   \<Longrightarrow> row_of run gid index item row"
  using download_one_ok [of run gid index item g env dir frc timeout stall] by simp

lemma download_loop_rows:
  "download_loop g env run gid dir frc timeout stall results index items = Inr rows
   \<Longrightarrow> length rows = length results + length items
       \<and> take (length results) rows = results
       \<and> (\<forall>k < length items. row_of run gid (index + k) (items ! k) (rows ! (length results + k)))"
proof (induction items arbitrary: results index)
  case Nil
  then show ?case by simp
next
  case (Cons item items)
  from Cons.prems obtain row where
    one: "download_one g (env index) run gid dir frc timeout stall index item = Inr row"
    and rest: "download_loop g env run gid dir frc timeout stall (results @ [row]) (Suc index) items = Inr rows"
    by (auto split: sum.splits)
  from Cons.IH [OF rest] have
    len: "length rows = length results + 1 + length items"
    and pre: "take (length results + 1) rows = results @ [row]"
    and ih: "\<forall>k < length items. row_of run gid (Suc index + k) (items ! k) (rows ! (length results + 1 + k))"
    by simp_all
  have "take (length results) (take (length results + 1) rows) = take (length results) (results @ [row])"
    by (simp only: pre)
  then have t: "take (length results) rows = results"
    by simp
  have "take (length results + 1) rows ! length results = (results @ [row]) ! length results"
    by (simp only: pre)
  then have r: "rows ! length results = row"
    by simp
  show ?case
  proof (intro conjI allI impI)
    show "length rows = length results + length (item # items)" using len by simp
    show "take (length results) rows = results" by (rule t)
    fix k assume k: "k < length (item # items)"
    show "row_of run gid (index + k) ((item # items) ! k) (rows ! (length results + k))"
    proof (cases k)
      case 0
      then show ?thesis using r download_one_of [OF one] by simp
    next
      case (Suc j)
      then show ?thesis using ih k by simp
    qed
  qed
qed


lemma wait_loop_quiet:
  "(\<And>j. quiet_tick (obs j)) \<Longrightarrow>
   \<not> isl (wait_loop obs before stab stall deadline i now progress)"
proof (induction obs before stab stall deadline i now progress rule: wait_loop.induct)
  case (1 obs before stab stall deadline i now progress)
  show ?case
  proof (cases "now < deadline")
    case False
    then show ?thesis by (simp add: wait_loop.simps)
  next
    case True
    have q: "quiet_tick (obs i)" by (rule "1.prems")
    show ?thesis
    proof (cases "poll_download (obs i) before stab stall now progress")
      case (Raise e)
      then have False
        using q
        by (auto simp: poll_download_def quiet_tick_def quiet_page_def detect_download_error_def
            Let_def split: sum.splits if_splits option.splits)
      then show ?thesis ..
    next
      case (Return r)
      then show ?thesis using True by (simp add: wait_loop.simps [of obs before stab stall deadline i])
    next
      case (Continue t progress')
      then show ?thesis
        using True "1.IH" [OF True Continue] "1.prems"
        by (simp add: wait_loop.simps [of obs before stab stall deadline i])
    qed
  qed
qed

lemma detect_quiet: "quiet_page p \<Longrightarrow> \<not> isl (detect_download_error p)"
  by (auto simp: quiet_page_def detect_download_error_def split: sum.splits)

lemma close_quiet:
  "rf = None \<Longrightarrow> (case cw of None \<Rightarrow> True | Some e \<Rightarrow> cls e = NoSuchWindowException) \<Longrightarrow>
   close_download_tab h cw rf = None"
  by (auto simp: close_download_tab_def split: option.splits)

lemma stored_row_quiet:
  "\<not> isl (sha256_file env) \<Longrightarrow> \<not> isl (stored_row g env run gid index name url item fname path st)"
  by (auto simp: stored_row_def split: sum.splits)

lemma store_download_quiet:
  assumes "quiet_att env"
  shows "\<not> isl (store_download g env run gid id_dir frc index name url item sfx h downloaded)"
proof -
  have c: "close_download_tab h (close_window env) (restore_focus env) = None"
    using assms by (intro close_quiet) (simp_all add: quiet_att_def)
  have s: "\<not> isl (sha256_file env)" "unlink_stored env = None" "mkdir_parent env = None"
    "move env = None"
    using assms by (simp_all add: quiet_att_def)
  show ?thesis
    by (simp add: store_download_def Let_def c s stored_row_quiet)
qed

lemma download_one_quiet:
  assumes "quiet_att env"
  shows "\<not> isl (download_one g env run gid dir frc timeout stall index item)"
proof -
  obtain bf where b: "before_files env = Inr bf"
    using assms by (cases "before_files env") (auto simp: quiet_att_def)
  obtain h where h: "open_download env = Inr h"
    using assms by (cases "open_download env") (auto simp: quiet_att_def)
  have "\<not> isl (detect_download_error (first_page env))"
    using assms by (simp add: quiet_att_def detect_quiet)
  then obtain d where d: "detect_download_error (first_page env) = Inr d"
    by (cases "detect_download_error (first_page env)") auto
  have "\<not> isl (wait_for_download_result (ticks env) (set bf) timeout 3 stall (wait_start env) (wait_lag env))"
    using assms by (simp add: wait_for_download_result_def wait_loop_quiet quiet_att_def)
  then obtain r where
    w: "wait_for_download_result (ticks env) (set bf) timeout 3 stall (wait_start env) (wait_lag env) = Inr r"
    by (cases "wait_for_download_result (ticks env) (set bf) timeout 3 stall (wait_start env) (wait_lag env)") auto
  have c: "close_download_tab h (close_window env) (restore_focus env) = None"
    using assms by (intro close_quiet) (simp_all add: quiet_att_def)
  have s: "\<not> isl (sha256_file env)"
    using assms by (simp add: quiet_att_def)
  show ?thesis
    by (simp add: download_one_def Let_def b h d w c stored_row_quiet [OF s]
        store_download_quiet [OF assms] split: option.split prod.split)
qed

lemma download_loop_quiet:
  "(\<And>j. quiet_att (env j)) \<Longrightarrow>
   \<not> isl (download_loop g env run gid dir frc timeout stall results index items)"
proof (induction items arbitrary: results index)
  case Nil
  show ?case by simp
next
  case (Cons item items)
  have "\<not> isl (download_one g (env index) run gid dir frc timeout stall index item)"
    by (rule download_one_quiet) (rule Cons.prems)
  then obtain row where "download_one g (env index) run gid dir frc timeout stall index item = Inr row"
    by (cases "download_one g (env index) run gid dir frc timeout stall index item") auto
  then show ?case using Cons.IH [OF Cons.prems] by simp
qed

text \<open>
  C2, as amended. Whenever \<^verbatim>\<open>download_attachments\<close> returns, it returns exactly one row
  per attachment of the list, in document order: the row number \<open>k\<close> carries the index
  \<open>k\<close> and the name, URL and document fields of the attachment number \<open>k\<close>, whether it
  was downloaded, skipped or failed. It does return when no call into the browser or the
  file system lets an exception out; an exception that does get out leaves the function
  and no rows are returned.
\<close>

theorem C2_download_attachments_rows:
  "(\<forall>rows. download_attachments g env atts run gid dir frc timeout stall = Inr rows \<longrightarrow>
       length rows = length atts
       \<and> (\<forall>k < length atts. row_of run gid (Suc k) (atts ! k) (rows ! k)))
   \<and> (mkdir_id_dir env = None \<and> (\<forall>index. quiet_att (att env index)) \<longrightarrow>
       (\<exists>rows. download_attachments g env atts run gid dir frc timeout stall = Inr rows))"
proof (rule conjI)
  show "\<forall>rows. download_attachments g env atts run gid dir frc timeout stall = Inr rows \<longrightarrow>
       length rows = length atts
       \<and> (\<forall>k < length atts. row_of run gid (Suc k) (atts ! k) (rows ! k))"
  proof (rule allI, rule impI)
    fix rows
    assume r: "download_attachments g env atts run gid dir frc timeout stall = Inr rows"
    then have "download_loop g (att env) run gid dir frc timeout stall [] 1 atts = Inr rows"
      by (simp add: download_attachments_def split: option.splits)
    from download_loop_rows [OF this]
    show "length rows = length atts
       \<and> (\<forall>k < length atts. row_of run gid (Suc k) (atts ! k) (rows ! k))"
      by simp
  qed
next
  show "mkdir_id_dir env = None \<and> (\<forall>index. quiet_att (att env index)) \<longrightarrow>
       (\<exists>rows. download_attachments g env atts run gid dir frc timeout stall = Inr rows)"
  proof (rule impI)
    assume q: "mkdir_id_dir env = None \<and> (\<forall>index. quiet_att (att env index))"
    then have "\<not> isl (download_loop g (att env) run gid dir frc timeout stall [] 1 atts)"
      by (simp add: download_loop_quiet)
    then show "\<exists>rows. download_attachments g env atts run gid dir frc timeout stall = Inr rows"
      using q
      by (cases "download_loop g (att env) run gid dir frc timeout stall [] 1 atts")
        (auto simp: download_attachments_def)
  qed
qed

lemma quiet_calm_att: "quiet_att calm_att"
  by (simp add: quiet_att_def calm_att_def quiet_tick_def quiet_page_def steady_file_def)

theorem C2_download_attachments_rows_witness:
  "\<exists>rows. download_attachments no_mime calm_dl [one_attachment, one_attachment] 1 5
             RAW_ATTACHMENTS_DIR False 30 120 = Inr rows
          \<and> length rows = 2
          \<and> row_of 1 5 1 one_attachment (rows ! 0) \<and> row_of 1 5 2 one_attachment (rows ! 1)"
proof -
  let ?atts = "[one_attachment, one_attachment]"
  note inst = C2_download_attachments_rows [of no_mime calm_dl ?atts 1 5 RAW_ATTACHMENTS_DIR False 30 120]
  have "mkdir_id_dir calm_dl = None \<and> (\<forall>index. quiet_att (att calm_dl index))"
    by (simp add: calm_dl_def quiet_calm_att)
  with inst obtain rows where
    r: "download_attachments no_mime calm_dl ?atts 1 5 RAW_ATTACHMENTS_DIR False 30 120 = Inr rows"
    by blast
  with inst have l: "length rows = length ?atts"
    and a: "\<forall>k < length ?atts. row_of 1 5 (Suc k) (?atts ! k) (rows ! k)"
    by blast+
  have "row_of 1 5 (Suc 0) (?atts ! 0) (rows ! 0)"
    using a [rule_format, of 0] by simp
  moreover have "row_of 1 5 (Suc 1) (?atts ! 1) (rows ! 1)"
    using a [rule_format, of 1] by simp
  ultimately have "length rows = 2" "row_of 1 5 1 one_attachment (rows ! 0)"
    "row_of 1 5 2 one_attachment (rows ! 1)"
    using l by (simp_all add: numeral_2_eq_2)
  with r show ?thesis by blast
qed

text \<open>
  The claim as stated fails when the browser raises: with a lost session the function
  raises at the first attachment and returns no row at all.
\<close>

theorem C2_exception_returns_no_rows:
  "download_attachments no_mime lost_session_dl [one_attachment, one_attachment] 1 5
     RAW_ATTACHMENTS_DIR False 30 120 = Inl (Exn WebDriverException ''invalid session id'')"
  by (simp add: download_attachments_def lost_session_dl_def download_one_def calm_att_def Let_def)

text \<open>
  C9, as amended. When the completion protocol has returned a downloaded file and the
  file has been moved, \<^verbatim>\<open>_close_download_tab\<close> runs before the stored file is checked. If
  it returns (it swallows only \<^verbatim>\<open>NoSuchWindowException\<close>) and the stored file does not
  exist or is empty, the row appended for the attachment has the status
  \<^verbatim>\<open>FAILED_MISSING\<close>, no stored name, path or hash and no pages, and the loop goes on with
  the next attachment. If it raises, the exception leaves \<^verbatim>\<open>download_attachments\<close>: no
  row is appended and no further attachment is handled.
\<close>

theorem C9_failed_missing:
  assumes "\<not> (stored_exists (env index) \<and> \<not> frc)"
    and "before_files (env index) = Inr bf"
    and "open_download (env index) = Inr h"
    and "detect_download_error (first_page (env index)) = Inr []"
    and "wait_for_download_result (ticks (env index)) (set bf) timeout 3 stall
           (wait_start (env index)) (wait_lag (env index)) = Inr (Some downloaded, err, deleted)"
    and "(if frc \<and> stored_exists_forced (env index) then unlink_stored (env index) else None) = None"
    and "mkdir_parent (env index) = None"
    and "move (env index) = None"
    and "\<not> moved_exists (env index) \<or> moved_size (env index) = 0"
  shows "download_loop g env run gid dir frc timeout stall results index (item # items) =
         (case close_download_tab h (close_window (env index)) (restore_focus (env index)) of
            None \<Rightarrow>
              download_loop g env run gid dir frc timeout stall
                (results @
                 [\<lparr>run_id = run, guarantee_id = gid, file_index = index, stored_filename = [],
                   stored_path = [], original_filename = strip_str (att_original_filename item),
                   download_url = strip_str (att_download_url item),
                   document_index = att_document_index item,
                   document_number = att_document_number item, page_count = 0, mime_type = [],
                   download_status = ''FAILED_MISSING'', sha256 = []\<rparr>])
                (Suc index) items
          | Some e \<Rightarrow> Inl e)"
proof -
  have n: "(stored_exists (env index) \<and> \<not> frc) = False"
    using assms(1) by simp
  have s: "store_download g (env index) run gid id_dir frc index name url item sfx h downloaded =
      (case close_download_tab h (close_window (env index)) (restore_focus (env index)) of
         None \<Rightarrow> Inr (failed_row run gid index name url item ''FAILED_MISSING'')
       | Some e \<Rightarrow> Inl e)" for id_dir name url sfx
    using assms(6-9) by (simp add: store_download_def Let_def cong: option.case_cong)
  have "download_one g (env index) run gid dir frc timeout stall index item =
      (case close_download_tab h (close_window (env index)) (restore_focus (env index)) of
         None \<Rightarrow> Inr (failed_row run gid index (strip_str (att_original_filename item))
             (strip_str (att_download_url item)) item ''FAILED_MISSING'')
       | Some e \<Rightarrow> Inl e)"
    by (simp only: download_one_def Let_def n if_False assms(2-5) sum.case prod.case option.case
        list.simps refl if_True simp_thms s)
  then show ?thesis
    by (cases "close_download_tab h (close_window (env index)) (restore_focus (env index))")
      (simp_all add: failed_row_def)
qed

lemma wait_empty_file:
  "wait_for_download_result (steady_file ''doc.pdf'' n) {} 30 3 120 0 0 =
     Inr (Some ''doc.pdf'', [], [])"
  by (simp add: wait_for_download_result_def wait_loop.simps steady_file_def poll_download_def
      detect_empty_page new_files_def completed_def in_progress_def endswith_def track_def
      settled_def later_def)

lemma one_attachment_stripped:
  "strip_str (att_original_filename one_attachment) = ''guarantee.pdf''"
  "strip_str (att_download_url one_attachment) = ''https://zakupki.gov.ru/file?uid=A1''"
  by (simp_all add: one_attachment_def strip_str_def isspace_def)

lemma stored_second:
  "download_one no_mime calm_att 1 5 RAW_ATTACHMENTS_DIR False 30 120 (Suc (Suc 0)) one_attachment =
     Inr \<lparr>run_id = 1, guarantee_id = 5, file_index = 2, stored_filename = ''5_2.pdf'',
          stored_path = ''raw/attachments/5/5_2.pdf'', original_filename = ''guarantee.pdf'',
          download_url = ''https://zakupki.gov.ru/file?uid=A1'', document_index = 1,
          document_number = ''01'', page_count = 2, mime_type = [],
          download_status = ''DOWNLOADED'', sha256 = ''ab12''\<rparr>"
  by (simp add: download_one_def calm_att_def one_attachment_def RAW_ATTACHMENTS_DIR_def
      strip_str_def isspace_def path_suffix_def path_name_def str_int_def str_nat.simps
      detect_empty_page wait_empty_file store_download_def close_download_tab_def stored_row_def
      pdf_page_count_def lower_def lower_char_def capitals_def smalls_def no_mime_def
      numeral_3_eq_3 Let_def)

theorem C9_failed_missing_witness:
  "download_attachments no_mime empty_file_dl [one_attachment, one_attachment] 1 5
     RAW_ATTACHMENTS_DIR False 30 120 =
   Inr [\<lparr>run_id = 1, guarantee_id = 5, file_index = 1, stored_filename = [],
          stored_path = [], original_filename = ''guarantee.pdf'',
          download_url = ''https://zakupki.gov.ru/file?uid=A1'', document_index = 1,
          document_number = ''01'', page_count = 0, mime_type = [],
          download_status = ''FAILED_MISSING'', sha256 = []\<rparr>,
        \<lparr>run_id = 1, guarantee_id = 5, file_index = 2, stored_filename = ''5_2.pdf'',
          stored_path = ''raw/attachments/5/5_2.pdf'', original_filename = ''guarantee.pdf'',
          download_url = ''https://zakupki.gov.ru/file?uid=A1'', document_index = 1,
          document_number = ''01'', page_count = 2, mime_type = [],
          download_status = ''DOWNLOADED'', sha256 = ''ab12''\<rparr>]"
proof -
  let ?env = "att empty_file_dl"
  let ?failed = "\<lparr>run_id = 1, guarantee_id = 5, file_index = Suc 0, stored_filename = [],
              stored_path = [], original_filename = strip_str (att_original_filename one_attachment),
              download_url = strip_str (att_download_url one_attachment),
              document_index = att_document_index one_attachment,
              document_number = att_document_number one_attachment, page_count = 0, mime_type = [],
              download_status = ''FAILED_MISSING'', sha256 = []\<rparr>"
  have e1: "?env (Suc 0) = calm_att\<lparr>ticks := steady_file ''doc.pdf'' 0, moved_size := 0\<rparr>"
    and e2: "?env (Suc (Suc 0)) = calm_att"
    by (simp_all add: empty_file_dl_def)
  have c: "close_download_tab (Some ''tab-1'') (close_window (?env (Suc 0)))
      (restore_focus (?env (Suc 0))) = None"
    by (simp add: e1 calm_att_def close_download_tab_def)
  have "download_loop no_mime ?env 1 5 RAW_ATTACHMENTS_DIR False 30 120 [] (Suc 0)
        [one_attachment, one_attachment] =
      (case close_download_tab (Some ''tab-1'') (close_window (?env (Suc 0)))
              (restore_focus (?env (Suc 0))) of
         None \<Rightarrow> download_loop no_mime ?env 1 5 RAW_ATTACHMENTS_DIR False 30 120
                   ([] @ [?failed]) (Suc (Suc 0)) [one_attachment]
       | Some e \<Rightarrow> Inl e)"
    by (rule C9_failed_missing [where bf = "[]" and downloaded = "''doc.pdf''"
          and err = "[]" and deleted = "[]"])
      (simp_all add: e1 calm_att_def detect_empty_page wait_empty_file)
  then have first: "download_loop no_mime ?env 1 5 RAW_ATTACHMENTS_DIR False 30 120 [] (Suc 0)
        [one_attachment, one_attachment] =
      download_loop no_mime ?env 1 5 RAW_ATTACHMENTS_DIR False 30 120
        ([] @ [?failed]) (Suc (Suc 0)) [one_attachment]"
    by (simp only: c option.case)
  have f: "?failed = \<lparr>run_id = 1, guarantee_id = 5, file_index = 1, stored_filename = [],
          stored_path = [], original_filename = ''guarantee.pdf'',
          download_url = ''https://zakupki.gov.ru/file?uid=A1'', document_index = 1,
          document_number = ''01'', page_count = 0, mime_type = [],
          download_status = ''FAILED_MISSING'', sha256 = []\<rparr>"
    by (simp add: one_attachment_stripped) (simp add: one_attachment_def)
  have "download_attachments no_mime empty_file_dl [one_attachment, one_attachment] 1 5
     RAW_ATTACHMENTS_DIR False 30 120 =
     download_loop no_mime ?env 1 5 RAW_ATTACHMENTS_DIR False 30 120 [] (Suc 0)
        [one_attachment, one_attachment]"
    by (simp add: download_attachments_def empty_file_dl_def)
  also have "\<dots> = download_loop no_mime ?env 1 5 RAW_ATTACHMENTS_DIR False 30 120
        [?failed] (Suc (Suc 0)) [one_attachment]"
    using first by simp
  also have "\<dots> = Inr [?failed, \<lparr>run_id = 1, guarantee_id = 5, file_index = 2, stored_filename = ''5_2.pdf'',
          stored_path = ''raw/attachments/5/5_2.pdf'', original_filename = ''guarantee.pdf'',
          download_url = ''https://zakupki.gov.ru/file?uid=A1'', document_index = 1,
          document_number = ''01'', page_count = 2, mime_type = [],
          download_status = ''DOWNLOADED'', sha256 = ''ab12''\<rparr>]"
    by (simp only: download_loop.simps e2 stored_second sum.case append.simps)
  finally show ?thesis
    by (simp only: f)
qed

text \<open>
  The claim as stated fails when the browser session is dead: the download has finished,
  the file has been moved and the stored file is empty, but closing the download window
  raises, so that no \<^verbatim>\<open>FAILED_MISSING\<close> row is emitted and the second attachment is never
  handled.
\<close>

theorem C9_close_raises_no_row:
  "wait_for_download_result (ticks (att dead_tab_dl 1)) {} 30 3 120 (wait_start (att dead_tab_dl 1))
     (wait_lag (att dead_tab_dl 1)) = Inr (Some ''doc.pdf'', [], [])
   \<and> move (att dead_tab_dl 1) = None
   \<and> moved_size (att dead_tab_dl 1) = 0
   \<and> download_attachments no_mime dead_tab_dl [one_attachment, one_attachment] 1 5
       RAW_ATTACHMENTS_DIR False 30 120 = Inl (Exn WebDriverException ''invalid session id'')"
proof -
  have e: "att dead_tab_dl index =
      calm_att\<lparr>ticks := steady_file ''doc.pdf'' 0, moved_size := 0,
               close_window := Some (Exn WebDriverException ''invalid session id'')\<rparr>" for index
    by (simp add: dead_tab_dl_def)
  have w: "wait_for_download_result (ticks (att dead_tab_dl 1)) {} 30 3 120
      (wait_start (att dead_tab_dl 1)) (wait_lag (att dead_tab_dl 1)) = Inr (Some ''doc.pdf'', [], [])"
    by (simp add: e calm_att_def wait_empty_file)
  have d: "download_one no_mime
      (calm_att\<lparr>ticks := steady_file ''doc.pdf'' 0, moved_size := 0,
               close_window := Some (Exn WebDriverException ''invalid session id'')\<rparr>)
      1 5 RAW_ATTACHMENTS_DIR False 30 120 index
      one_attachment = Inl (Exn WebDriverException ''invalid session id'')" for index
    by (simp add: download_one_def Let_def calm_att_def detect_empty_page wait_empty_file
        store_download_def close_download_tab_def)
  have "download_attachments no_mime dead_tab_dl [one_attachment, one_attachment] 1 5
       RAW_ATTACHMENTS_DIR False 30 120 = Inl (Exn WebDriverException ''invalid session id'')"
    by (simp add: download_attachments_def dead_tab_dl_def d)
  then show ?thesis
    using w by (simp add: e calm_att_def)
qed
section \<open>The completion protocol: proofs\<close>

lemma poll_continue:
  "poll_download t before stab stall now pr = Continue t' p \<Longrightarrow>
   p = snd (track_files (track_lag t) 0 now pr (new_files before (entries_of t)))
   \<and> t' = later (later (fst (track_files (track_lag t) 0 now pr (new_files before (entries_of t))))
               (stable_lag t)) (stall_lag t)"
  by (auto simp: poll_download_def entries_of_def Let_def
      split: sum.splits if_splits option.splits)

lemma track_other: "d_name q \<noteq> name \<Longrightarrow> track now pr q name = pr name"
  by (simp add: track_def Let_def)

lemma track_files_unseen:
  "\<forall>q \<in> set fs. d_name q \<noteq> name \<Longrightarrow> snd (track_files lag k now pr fs) name = pr name"
  by (induction fs arbitrary: k now pr) (simp_all add: track_other)

lemma track_files_kept:
  "pr name = Some (int n, t) \<Longrightarrow> \<forall>q \<in> set fs. d_name q = name \<longrightarrow> st_size q = n \<Longrightarrow>
   snd (track_files lag k now pr fs) name = Some (int n, t)"
proof (induction fs arbitrary: k now pr)
  case Nil
  then show ?case by simp
next
  case (Cons q fs)
  have "track (later now (lag k)) pr q name = Some (int n, t)"
  proof (cases "d_name q = name")
    case True
    then show ?thesis using Cons.prems by (simp add: track_def Let_def)
  next
    case False
    then show ?thesis using Cons.prems by (simp add: track_other)
  qed
  then show ?case using Cons.IH Cons.prems by simp
qed

lemma track_files_seen:
  "\<exists>q \<in> set fs. d_name q = name \<Longrightarrow> \<forall>q \<in> set fs. d_name q = name \<longrightarrow> st_size q = n \<Longrightarrow>
   \<exists>t. snd (track_files lag k now pr fs) name = Some (int n, t)
       \<and> (t \<le> fst (track_files lag k now pr fs) \<or> pr name = Some (int n, t))"
proof (induction fs arbitrary: k now pr)
  case Nil
  then show ?case by simp
next
  case (Cons q fs)
  let ?now = "later now (lag k)"
  show ?case
  proof (cases "d_name q = name")
    case True
    then have sz: "st_size q = n" using Cons.prems by simp
    have "\<exists>t. track ?now pr q name = Some (int n, t) \<and> (t = ?now \<or> pr name = Some (int n, t))"
      using True sz by (cases "pr name") (auto simp: track_def Let_def)
    then obtain t where t: "track ?now pr q name = Some (int n, t)"
      and o: "t = ?now \<or> pr name = Some (int n, t)" by blast
    have "snd (track_files lag (Suc k) ?now (track ?now pr q) fs) name = Some (int n, t)"
      using t Cons.prems by (intro track_files_kept) simp_all
    moreover have "?now \<le> fst (track_files lag (Suc k) ?now (track ?now pr q) fs)"
      by (rule track_files_later)
    ultimately show ?thesis using o by auto
  next
    case False
    then have ex: "\<exists>q \<in> set fs. d_name q = name" using Cons.prems by auto
    have "\<forall>q \<in> set fs. d_name q = name \<longrightarrow> st_size q = n" using Cons.prems by simp
    from Cons.IH [OF ex this, of "Suc k" ?now "track ?now pr q"]
    show ?thesis using False by (simp add: track_other)
  qed
qed

lemma track_files_time:
  "snd (track_files lag k now pr fs) name = Some (s, t) \<Longrightarrow>
   t \<le> fst (track_files lag k now pr fs) \<or> pr name = Some (s, t)"
proof (induction fs arbitrary: k now pr)
  case Nil
  then show ?case by simp
next
  case (Cons q fs)
  let ?now = "later now (lag k)"
  from Cons.IH [of "Suc k" ?now "track ?now pr q"] Cons.prems
  have "t \<le> fst (track_files lag (Suc k) ?now (track ?now pr q) fs)
      \<or> track ?now pr q name = Some (s, t)" by simp
  moreover have "?now \<le> fst (track_files lag (Suc k) ?now (track ?now pr q) fs)"
    by (rule track_files_later)
  ultimately show ?case
    by (cases "d_name q = name") (auto simp: track_def Let_def split: if_splits)
qed

lemma pass_time_scanned: "pass_time obs before start k \<le> scanned_at obs before start k"
  unfolding scanned_at_def by (rule track_files_later)

lemma scanned_stable: "scanned_at obs before start k \<le> stable_at obs before start k"
  by (simp add: stable_at_def later_def)

lemma stable_stall: "stable_at obs before start k \<le> stall_at obs before start k"
  by (simp add: stall_at_def later_def)

lemma pass_time_Suc:
  "pass_time obs before start (Suc k) = stall_at obs before start k + max 1 (elapsed (obs k))"
  by (simp add: stall_at_def stable_at_def scanned_at_def)

lemma pass_time_step: "pass_time obs before start k \<le> pass_time obs before start (Suc k)"
proof -
  have "pass_time obs before start k \<le> stall_at obs before start k"
    using pass_time_scanned [of obs before start k] scanned_stable [of obs before start k]
      stable_stall [of obs before start k] by linarith
  then show ?thesis
    unfolding pass_time_Suc by linarith
qed

lemma pass_time_mono: "j \<le> k \<Longrightarrow> pass_time obs before start j \<le> pass_time obs before start k"
proof (induction k)
  case 0
  then show ?case by simp
next
  case (Suc k)
  show ?case
  proof (cases "j = Suc k")
    case True
    then show ?thesis by simp
  next
    case False
    then have "pass_time obs before start j \<le> pass_time obs before start k"
      using Suc by simp
    then show ?thesis
      using pass_time_step [of obs before start k] by linarith
  qed
qed

lemma pass_progress_time:
  "pass_progress obs before start k name = Some (s, t) \<Longrightarrow> t \<le> pass_time obs before start k"
proof (induction k arbitrary: s t)
  case 0
  then show ?case by simp
next
  case (Suc k)
  from track_files_time [of "track_lag (obs k)" 0 "pass_time obs before start k"
      "pass_progress obs before start k" "new_files before (entries_of (obs k))" name s t] Suc.prems
  have "t \<le> scanned_at obs before start k \<or> pass_progress obs before start k name = Some (s, t)"
    by (simp add: scanned_at_def)
  then have "t \<le> scanned_at obs before start k"
    using Suc.IH pass_time_scanned [of obs before start k] by (auto intro: order_trans)
  moreover have "scanned_at obs before start k \<le> pass_time obs before start (Suc k)"
    using scanned_stable [of obs before start k] stable_stall [of obs before start k]
    unfolding pass_time_Suc by linarith
  ultimately show ?case by linarith
qed

lemma seen_unchanged_from:
  assumes "seen_unchanged obs before name n j k"
  shows "j + d \<le> k \<Longrightarrow>
         \<exists>t. pass_progress obs before start (Suc (j + d)) name = Some (int n, t)
             \<and> t \<le> scanned_at obs before start j"
proof (induction d)
  case 0
  have ex: "\<exists>q \<in> set (new_files before (entries_of (obs j))). d_name q = name"
    and sz: "\<forall>q \<in> set (new_files before (entries_of (obs j))). d_name q = name \<longrightarrow> st_size q = n"
    using assms 0 by (auto simp: seen_unchanged_def)
  from track_files_seen [OF ex sz, of "track_lag (obs j)" 0 "pass_time obs before start j"
      "pass_progress obs before start j"]
  obtain t where t: "pass_progress obs before start (Suc j) name = Some (int n, t)"
    and o: "t \<le> scanned_at obs before start j
            \<or> pass_progress obs before start j name = Some (int n, t)"
    by (auto simp: scanned_at_def)
  have "t \<le> scanned_at obs before start j"
    using o pass_progress_time [of obs before start j name "int n" t]
      pass_time_scanned [of obs before start j] by (auto intro: order_trans)
  then show ?case using t by auto
next
  case (Suc d)
  then obtain t where t: "pass_progress obs before start (Suc (j + d)) name = Some (int n, t)"
    and le: "t \<le> scanned_at obs before start j" by auto
  have "j \<le> Suc (j + d) \<and> Suc (j + d) \<le> k" using Suc.prems by simp
  then have sz: "\<forall>q \<in> set (new_files before (entries_of (obs (Suc (j + d))))).
      d_name q = name \<longrightarrow> st_size q = n"
    using assms unfolding seen_unchanged_def by blast
  have "pass_progress obs before start (Suc (Suc (j + d))) name = Some (int n, t)"
    using track_files_kept [of "pass_progress obs before start (Suc (j + d))" name n t
        "new_files before (entries_of (obs (Suc (j + d))))" "track_lag (obs (Suc (j + d)))" 0
        "pass_time obs before start (Suc (j + d))"] t sz
    by simp
  then show ?case using le by auto
qed

lemma seen_unchanged_entry:
  assumes "seen_unchanged obs before name n j k" and "j \<le> k"
  shows "\<exists>t. pass_progress obs before start (Suc k) name = Some (int n, t)
             \<and> t \<le> scanned_at obs before start j"
  using seen_unchanged_from [OF assms(1), of "k - j" start] assms(2) by simp

lemma pass_continue:
  assumes "continues (pass obs before stab stall start k)"
  shows "poll_download (obs k) before stab stall (pass_time obs before start k)
           (pass_progress obs before start k) =
         Continue (stall_at obs before start k) (pass_progress obs before start (Suc k))"
proof -
  from assms obtain t p where p: "poll_download (obs k) before stab stall
      (pass_time obs before start k) (pass_progress obs before start k) = Continue t p"
    by (auto simp: continues_def pass_def split: poll.splits)
  from poll_continue [OF p] show ?thesis
    by (simp add: p stall_at_def stable_at_def scanned_at_def)
qed

lemma reach_pass:
  "(\<And>j. j < k \<Longrightarrow> pass_time obs before start j < deadline
            \<and> continues (pass obs before stab stall start j)) \<Longrightarrow>
   wait_loop obs before stab stall deadline 0 start Map.empty =
   wait_loop obs before stab stall deadline k (pass_time obs before start k)
     (pass_progress obs before start k)"
proof (induction k)
  case 0
  show ?case by simp
next
  case (Suc k)
  have eq: "wait_loop obs before stab stall deadline 0 start Map.empty =
      wait_loop obs before stab stall deadline k (pass_time obs before start k)
        (pass_progress obs before start k)"
    using Suc.prems by (intro Suc.IH) simp
  have lt: "pass_time obs before start k < deadline"
    and c: "continues (pass obs before stab stall start k)"
    using Suc.prems [of k] by simp_all
  show ?case
    using eq lt pass_continue [OF c]
    by (simp add: wait_loop.simps [of obs before stab stall deadline k] pass_time_Suc
        del: pass_time.simps pass_progress.simps)
qed

lemma settled_newest:
  "settled now window pr files =
     (case newest files of
        None \<Rightarrow> None
      | Some l \<Rightarrow>
          if now - (case pr (d_name l) of None \<Rightarrow> now | Some e \<Rightarrow> snd e) \<ge> real_of_int window
          then Some l else None)"
  by (simp add: settled_def newest_def Let_def split: list.splits)

lemma reach_pass_time:
  assumes "pass_time obs before start k < deadline"
    and "\<And>i. i < k \<Longrightarrow> continues (pass obs before stab stall start i)"
  shows "wait_loop obs before stab stall deadline 0 start Map.empty =
         wait_loop obs before stab stall deadline k (pass_time obs before start k)
           (pass_progress obs before start k)"
proof (rule reach_pass)
  fix j assume j: "j < k"
  then have "pass_time obs before start j \<le> pass_time obs before start k"
    by (intro pass_time_mono) simp
  then show "pass_time obs before start j < deadline \<and> continues (pass obs before stab stall start j)"
    using assms j by auto
qed

lemma poll_pass:
  assumes "detect_download_error (page (obs k)) = Inr []"
    and "listing (obs k) = Inr entries"
  shows "poll_download (obs k) before stab stall (pass_time obs before start k)
           (pass_progress obs before start k) =
         (case settled (stable_at obs before start k) stab (pass_progress obs before start (Suc k))
                 (completed before entries) of
            Some l \<Rightarrow> Return (Some (d_name l), [], [])
          | None \<Rightarrow>
              (case settled (stall_at obs before start k) stall
                      (pass_progress obs before start (Suc k)) (in_progress before entries) of
                 Some l_cr \<Rightarrow>
                   Return (None, ''FAILED_STALLED'',
                           if unlink_fails (obs k) then [] else [d_name l_cr])
               | None \<Rightarrow>
                   (case sleep (obs k) of
                      Some e \<Rightarrow> Raise e
                    | None \<Rightarrow>
                        Continue (stall_at obs before start k)
                          (pass_progress obs before start (Suc k)))))"
proof -
  have e: "entries_of (obs k) = entries"
    by (simp add: entries_of_def assms(2))
  show ?thesis
    by (simp add: poll_download_def assms Let_def stall_at_def stable_at_def scanned_at_def e
        cong: option.case_cong)
qed

lemma pass_completes:
  assumes "pass_time obs before start k < deadline"
    and "\<And>i. i < k \<Longrightarrow> continues (pass obs before stab stall start i)"
    and "detect_download_error (page (obs k)) = Inr []"
    and "listing (obs k) = Inr entries"
    and "newest (completed before entries) = Some l"
    and "seen_unchanged obs before (d_name l) (st_size l) j k" and "j \<le> k"
    and "stable_at obs before start k - scanned_at obs before start j \<ge> real_of_int stab"
  shows "wait_loop obs before stab stall deadline 0 start Map.empty =
         Inr (Some (d_name l), [], [])"
proof -
  from seen_unchanged_entry [OF assms(6,7), of start]
  obtain t where t: "pass_progress obs before start (Suc k) (d_name l) = Some (int (st_size l), t)"
    and le: "t \<le> scanned_at obs before start j" by blast
  have w: "stable_at obs before start k - t \<ge> real_of_int stab"
    using le assms(8) by linarith
  have "settled (stable_at obs before start k) stab (pass_progress obs before start (Suc k))
      (completed before entries) = Some l"
    using w by (simp add: settled_newest assms(5) t del: pass_progress.simps)
  then have "poll_download (obs k) before stab stall (pass_time obs before start k)
      (pass_progress obs before start k) = Return (Some (d_name l), [], [])"
    by (simp add: poll_pass [of obs k entries, OF assms(3,4)] del: pass_progress.simps pass_time.simps)
  then show ?thesis
    using reach_pass_time [OF assms(1,2)] assms(1)
    by (simp add: wait_loop.simps [of obs before stab stall _ k])
qed

lemma pass_stalls:
  assumes "pass_time obs before start k < deadline"
    and "\<And>i. i < k \<Longrightarrow> continues (pass obs before stab stall start i)"
    and "detect_download_error (page (obs k)) = Inr []"
    and "listing (obs k) = Inr entries"
    and "settled (stable_at obs before start k) stab (pass_progress obs before start (Suc k))
           (completed before entries) = None"
    and "newest (in_progress before entries) = Some l"
    and "seen_unchanged obs before (d_name l) (st_size l) j k" and "j \<le> k"
    and "stall_at obs before start k - scanned_at obs before start j \<ge> real_of_int stall"
  shows "wait_loop obs before stab stall deadline 0 start Map.empty =
         Inr (None, ''FAILED_STALLED'', if unlink_fails (obs k) then [] else [d_name l])"
proof -
  from seen_unchanged_entry [OF assms(7,8), of start]
  obtain t where t: "pass_progress obs before start (Suc k) (d_name l) = Some (int (st_size l), t)"
    and le: "t \<le> scanned_at obs before start j" by blast
  have w: "stall_at obs before start k - t \<ge> real_of_int stall"
    using le assms(9) by linarith
  have "settled (stall_at obs before start k) stall (pass_progress obs before start (Suc k))
      (in_progress before entries) = Some l"
    using w by (simp add: settled_newest assms(6) t del: pass_progress.simps)
  then have "poll_download (obs k) before stab stall (pass_time obs before start k)
      (pass_progress obs before start k) =
      Return (None, ''FAILED_STALLED'', if unlink_fails (obs k) then [] else [d_name l])"
    by (simp add: poll_pass [of obs k entries, OF assms(3,4)] assms(5) del: pass_progress.simps pass_time.simps)
  then show ?thesis
    using reach_pass_time [OF assms(1,2)] assms(1)
    by (simp add: wait_loop.simps [of obs before stab stall _ k])
qed

lemma wait_loop_times_out:
  "(\<And>j. pass_time obs before start j < deadline \<Longrightarrow> continues (pass obs before stab stall start j)) \<Longrightarrow>
   now = pass_time obs before start i \<Longrightarrow> progress = pass_progress obs before start i \<Longrightarrow>
   wait_loop obs before stab stall deadline i now progress = Inr (None, ''FAILED_TIMEOUT'', [])"
proof (induction obs before stab stall deadline i now progress rule: wait_loop.induct)
  case (1 obs before stab stall deadline i now progress)
  show ?case
  proof (cases "now < deadline")
    case False
    then show ?thesis by (simp add: wait_loop.simps)
  next
    case True
    then have "continues (pass obs before stab stall start i)"
      using "1.prems" by simp
    from pass_continue [OF this]
    have p: "poll_download (obs i) before stab stall now progress =
        Continue (stall_at obs before start i) (pass_progress obs before start (Suc i))"
      using "1.prems"(2,3) by simp
    have "wait_loop obs before stab stall deadline (Suc i)
        (stall_at obs before start i + max 1 (elapsed (obs i)))
        (pass_progress obs before start (Suc i)) = Inr (None, ''FAILED_TIMEOUT'', [])"
      using "1.prems"(1)
      by (intro "1.IH" [OF True p]) (simp_all add: pass_time_Suc del: pass_time.simps)
    then show ?thesis
      using True p by (simp add: wait_loop.simps [of obs before stab stall deadline i])
  qed
qed

lemma wait_loop_returns_newest:
  "wait_loop obs before stab stall deadline i now progress = Inr (Some name, err, deleted) \<Longrightarrow>
   \<exists>k entries l. listing (obs k) = Inr entries \<and> newest (completed before entries) = Some l
     \<and> d_name l = name"
proof (induction obs before stab stall deadline i now progress rule: wait_loop.induct)
  case (1 obs before stab stall deadline i now progress)
  have lt: "now < deadline"
    using "1.prems" by (simp add: wait_loop.simps [of obs before stab stall deadline i] split: if_splits)
  show ?case
  proof (cases "poll_download (obs i) before stab stall now progress")
    case (Raise e)
    then show ?thesis
      using "1.prems" lt by (simp add: wait_loop.simps [of obs before stab stall deadline i])
  next
    case (Return r)
    then have r: "r = (Some name, err, deleted)"
      using "1.prems" lt by (simp add: wait_loop.simps [of obs before stab stall deadline i])
    from Return [unfolded r] obtain entries l where "listing (obs i) = Inr entries"
      and "settled (later (fst (track_files (track_lag (obs i)) 0 now progress
              (new_files before entries))) (stable_lag (obs i))) stab
            (snd (track_files (track_lag (obs i)) 0 now progress (new_files before entries)))
            (completed before entries) = Some l"
      and "d_name l = name"
      by (auto simp: poll_download_def Let_def split: sum.splits if_splits option.splits)
    then show ?thesis
      by (auto simp: settled_newest split: option.splits if_splits)
  next
    case (Continue t p)
    then show ?thesis
      using "1.prems" lt "1.IH" [OF lt Continue]
      by (simp add: wait_loop.simps [of obs before stab stall deadline i])
  qed
qed

text \<open>
  C7, as amended. \<open>start\<close> is the reading of the clock on entry, \<open>lag\<close> the seconds to
  the first loop test. At a pass whose loop test is before the deadline, that no earlier
  pass ended the loop, and that detects no error page: the most recently modified new
  finished file is returned as success when its observed size has not changed since the
  scan of an earlier pass and at least the stability window lies between the end of that
  scan and the stability test of this pass; otherwise, when no finished file has settled,
  the most recently modified new file still downloading whose observed size has not
  changed for at least the stall window, counted in the same way up to the stall test,
  makes the attempt fail with \<^verbatim>\<open>FAILED_STALLED\<close>, the file being deleted unless the
  deletion raises \<^verbatim>\<open>OSError\<close>; and when every pass that begins before the deadline goes on
  without a resolution the attempt fails with \<^verbatim>\<open>FAILED_TIMEOUT\<close>. A file is only ever
  returned when it is the most recently modified new finished file of a pass. The
  collector runs the protocol with the stability window 3 and the stall window of the
  command line, 120 by default.
\<close>

theorem C7_completion_protocol:
  "(pass_time obs before (later start lag) k < start + real_of_int timeout
    \<and> (\<forall>i < k. continues (pass obs before stab stall (later start lag) i))
    \<and> detect_download_error (page (obs k)) = Inr []
    \<and> listing (obs k) = Inr entries
    \<and> newest (completed before entries) = Some l
    \<and> seen_unchanged obs before (d_name l) (st_size l) j k \<and> j \<le> k
    \<and> stable_at obs before (later start lag) k - scanned_at obs before (later start lag) j
        \<ge> real_of_int stab
    \<longrightarrow> wait_for_download_result obs before timeout stab stall start lag =
          Inr (Some (d_name l), [], []))
   \<and> (pass_time obs before (later start lag) k < start + real_of_int timeout
    \<and> (\<forall>i < k. continues (pass obs before stab stall (later start lag) i))
    \<and> detect_download_error (page (obs k)) = Inr []
    \<and> listing (obs k) = Inr entries
    \<and> settled (stable_at obs before (later start lag) k) stab
          (pass_progress obs before (later start lag) (Suc k)) (completed before entries) = None
    \<and> newest (in_progress before entries) = Some l
    \<and> seen_unchanged obs before (d_name l) (st_size l) j k \<and> j \<le> k
    \<and> stall_at obs before (later start lag) k - scanned_at obs before (later start lag) j
        \<ge> real_of_int stall
    \<longrightarrow> wait_for_download_result obs before timeout stab stall start lag =
          Inr (None, ''FAILED_STALLED'', if unlink_fails (obs k) then [] else [d_name l]))
   \<and> ((\<forall>i. pass_time obs before (later start lag) i < start + real_of_int timeout
            \<longrightarrow> continues (pass obs before stab stall (later start lag) i))
    \<longrightarrow> wait_for_download_result obs before timeout stab stall start lag =
          Inr (None, ''FAILED_TIMEOUT'', []))
   \<and> (wait_for_download_result obs before timeout stab stall start lag =
          Inr (Some name, err, deleted)
    \<longrightarrow> (\<exists>i shown newest_file. listing (obs i) = Inr shown
            \<and> newest (completed before shown) = Some newest_file
            \<and> d_name newest_file = name))
   \<and> download_stall_seconds default_args = 120"
proof (intro conjI impI)
  assume "pass_time obs before (later start lag) k < start + real_of_int timeout
    \<and> (\<forall>i < k. continues (pass obs before stab stall (later start lag) i))
    \<and> detect_download_error (page (obs k)) = Inr []
    \<and> listing (obs k) = Inr entries
    \<and> newest (completed before entries) = Some l
    \<and> seen_unchanged obs before (d_name l) (st_size l) j k \<and> j \<le> k
    \<and> stable_at obs before (later start lag) k - scanned_at obs before (later start lag) j
        \<ge> real_of_int stab"
  then show "wait_for_download_result obs before timeout stab stall start lag =
          Inr (Some (d_name l), [], [])"
    unfolding wait_for_download_result_def
    by (intro pass_completes [where k = k and j = j and entries = entries]) simp_all
next
  assume "pass_time obs before (later start lag) k < start + real_of_int timeout
    \<and> (\<forall>i < k. continues (pass obs before stab stall (later start lag) i))
    \<and> detect_download_error (page (obs k)) = Inr []
    \<and> listing (obs k) = Inr entries
    \<and> settled (stable_at obs before (later start lag) k) stab
          (pass_progress obs before (later start lag) (Suc k)) (completed before entries) = None
    \<and> newest (in_progress before entries) = Some l
    \<and> seen_unchanged obs before (d_name l) (st_size l) j k \<and> j \<le> k
    \<and> stall_at obs before (later start lag) k - scanned_at obs before (later start lag) j
        \<ge> real_of_int stall"
  then show "wait_for_download_result obs before timeout stab stall start lag =
          Inr (None, ''FAILED_STALLED'', if unlink_fails (obs k) then [] else [d_name l])"
    unfolding wait_for_download_result_def
    by (intro pass_stalls [where k = k and j = j and entries = entries]) simp_all
next
  assume "\<forall>i. pass_time obs before (later start lag) i < start + real_of_int timeout
            \<longrightarrow> continues (pass obs before stab stall (later start lag) i)"
  then show "wait_for_download_result obs before timeout stab stall start lag =
          Inr (None, ''FAILED_TIMEOUT'', [])"
    unfolding wait_for_download_result_def
    by (intro wait_loop_times_out [where start = "later start lag"]) simp_all
next
  assume "wait_for_download_result obs before timeout stab stall start lag =
          Inr (Some name, err, deleted)"
  then show "\<exists>i shown newest_file. listing (obs i) = Inr shown
            \<and> newest (completed before shown) = Some newest_file
            \<and> d_name newest_file = name"
    unfolding wait_for_download_result_def by (rule wait_loop_returns_newest)
next
  show "download_stall_seconds default_args = 120"
    by (simp add: default_args_def)
qed

lemma steady_new:
  "new_files {} (entries_of (steady_file name n i)) =
     [\<lparr>d_name = name, d_is_file = True, st_size = n, st_mtime = 1\<rparr>]"
  by (simp add: new_files_def entries_of_def steady_file_def)

lemma steady_lags:
  "track_lag (steady_file name n i) = (\<lambda>k. 0)" "stable_lag (steady_file name n i) = 0"
  "stall_lag (steady_file name n i) = 0" "elapsed (steady_file name n i) = 1"
  "sleep (steady_file name n i) = None"
  by (simp_all add: steady_file_def)

lemma steady_scan:
  "track_files (\<lambda>k. 0) 0 now pr (new_files {} (entries_of (steady_file name n i))) =
   (now, track now pr \<lparr>d_name = name, d_is_file = True, st_size = n, st_mtime = 1\<rparr>)"
  by (simp add: steady_new steady_lags later_def)

lemma steady_time: "pass_time (steady_file name n) {} 0 k = real k"
  by (induction k) (simp_all add: steady_scan steady_lags later_def)

lemma steady_progress:
  "pass_progress (steady_file name n) {} 0 (Suc k) = [name \<mapsto> (int n, 0)]"
proof (induction k)
  case 0
  show ?case by (simp add: steady_lags steady_scan track_def)
next
  case (Suc k)
  have "pass_progress (steady_file name n) {} 0 (Suc (Suc k)) =
      snd (track_files (track_lag (steady_file name n (Suc k))) 0
             (pass_time (steady_file name n) {} 0 (Suc k))
             (pass_progress (steady_file name n) {} 0 (Suc k))
             (new_files {} (entries_of (steady_file name n (Suc k)))))"
    by (rule pass_progress.simps)
  also have "\<dots> = track (real (Suc k)) [name \<mapsto> (int n, 0)]
      \<lparr>d_name = name, d_is_file = True, st_size = n, st_mtime = 1\<rparr>"
    by (simp only: Suc.IH steady_lags steady_scan steady_time snd_conv)
  also have "\<dots> = [name \<mapsto> (int n, 0)]"
    by (auto simp: track_def fun_eq_iff)
  finally show ?case .
qed

lemma steady_readings:
  "scanned_at (steady_file name n) {} 0 k = real k"
  "stable_at (steady_file name n) {} 0 k = real k"
  "stall_at (steady_file name n) {} 0 k = real k"
  by (simp_all add: stall_at_def stable_at_def scanned_at_def steady_new steady_lags steady_time
      later_def)

lemma steady_seen: "seen_unchanged (steady_file name n) {} name n j k"
  by (simp add: seen_unchanged_def steady_new)

lemma steady_continues:
  assumes "real i < real_of_int (if endswith name ''.crdownload'' then stall else stab)"
  shows "continues (pass (steady_file name n) {} stab stall 0 i)"
proof -
  have d: "detect_download_error (page (steady_file name n i)) = Inr []"
    by (simp add: steady_file_def detect_empty_page)
  have l: "listing (steady_file name n i) =
      Inr [\<lparr>d_name = name, d_is_file = True, st_size = n, st_mtime = 1\<rparr>]"
    by (simp add: steady_file_def)
  show ?thesis
    using assms
    by (cases "endswith name ''.crdownload''")
      (simp_all add: pass_def poll_pass [of "steady_file name n" i _ "{}" stab stall 0, OF d l] steady_readings steady_progress completed_def
        in_progress_def new_files_def settled_def continues_def steady_lags
        del: pass_progress.simps pass_time.simps)
qed

lemma empty_dir_continues: "continues (pass empty_dir before stab stall start i)"
proof -
  have d: "detect_download_error (page (empty_dir i)) = Inr []"
    by (simp add: empty_dir_def detect_empty_page)
  have l: "listing (empty_dir i) = Inr []"
    by (simp add: empty_dir_def)
  have s: "sleep (empty_dir i) = None"
    by (simp add: empty_dir_def)
  show ?thesis
    by (simp add: pass_def poll_pass [of empty_dir i "[]" before stab stall start, OF d l]
        completed_def in_progress_def new_files_def settled_def continues_def s
        del: pass_progress.simps pass_time.simps)
qed

theorem C7_completion_protocol_witness:
  "wait_for_download_result (steady_file ''doc.pdf'' 10) {} 30 3 120 0 0 =
     Inr (Some ''doc.pdf'', [], [])
   \<and> wait_for_download_result (steady_file ''doc.pdf.crdownload'' 10) {} 30 3 5 0 0 =
       Inr (None, ''FAILED_STALLED'', [''doc.pdf.crdownload''])
   \<and> wait_for_download_result empty_dir {} 30 3 120 0 0 = Inr (None, ''FAILED_TIMEOUT'', [])
   \<and> (\<exists>i shown newest_file. listing (steady_file ''doc.pdf'' 10 i) = Inr shown
          \<and> newest (completed {} shown) = Some newest_file \<and> d_name newest_file = ''doc.pdf'')
   \<and> wait_for_download_result slow_scan {} 4 3 120 0 0 = Inr (None, ''FAILED_TIMEOUT'', [])"
proof -
  let ?a = "\<lparr>d_name = ''doc.pdf'', d_is_file = True, st_size = 10, st_mtime = 1\<rparr>"
  let ?b = "\<lparr>d_name = ''doc.pdf.crdownload'', d_is_file = True, st_size = 10, st_mtime = 1\<rparr>"
  have cr: "endswith ''doc.pdf.crdownload'' ''.crdownload''" "\<not> endswith ''doc.pdf'' ''.crdownload''"
    by (simp_all add: endswith_def)
  have z: "later 0 0 = 0"
    by (simp add: later_def)
  have first: "wait_for_download_result (steady_file ''doc.pdf'' 10) {} 30 3 120 0 0 =
      Inr (Some (d_name ?a), [], [])"
    using C7_completion_protocol [where obs = "steady_file ''doc.pdf'' 10" and before = "{}"
        and start = 0 and lag = 0 and k = 3 and timeout = 30 and stab = 3 and stall = 120
        and entries = "[?a]" and l = ?a and j = 0]
      steady_seen [of "''doc.pdf''" 10 0 3]
      steady_continues [of _ "''doc.pdf''" 120 3 10]
    by (simp add: z steady_time steady_readings detect_empty_page steady_file_def [of _ _ 3]
        newest_def completed_def new_files_def cr del: pass_progress.simps pass_time.simps)
  have second: "wait_for_download_result (steady_file ''doc.pdf.crdownload'' 10) {} 30 3 5 0 0 =
      Inr (None, ''FAILED_STALLED'',
           if unlink_fails (steady_file ''doc.pdf.crdownload'' 10 5) then [] else [d_name ?b])"
    using C7_completion_protocol [where obs = "steady_file ''doc.pdf.crdownload'' 10"
        and before = "{}" and start = 0 and lag = 0 and k = 5 and timeout = 30 and stab = 3
        and stall = 5 and entries = "[?b]" and l = ?b and j = 0]
      steady_seen [of "''doc.pdf.crdownload''" 10 0 5]
      steady_continues [of _ "''doc.pdf.crdownload''" 5 3 10]
    by (simp add: z steady_time steady_readings detect_empty_page steady_file_def [of _ _ 5]
        newest_def completed_def in_progress_def new_files_def cr settled_def
        del: pass_progress.simps pass_time.simps)
  have third: "wait_for_download_result empty_dir {} 30 3 120 0 0 = Inr (None, ''FAILED_TIMEOUT'', [])"
    using C7_completion_protocol [where obs = empty_dir and before = "{}" and start = 0
        and lag = 0 and timeout = 30 and stab = 3 and stall = 120] empty_dir_continues
    by blast
  have fourth: "\<exists>i shown newest_file. listing (steady_file ''doc.pdf'' 10 i) = Inr shown
          \<and> newest (completed {} shown) = Some newest_file \<and> d_name newest_file = ''doc.pdf''"
    using C7_completion_protocol [where obs = "steady_file ''doc.pdf'' 10" and before = "{}"
        and start = 0 and lag = 0 and timeout = 30 and stab = 3 and stall = 120
        and name = "''doc.pdf''" and err = "[]" and deleted = "[]"] first
    by simp
  have fifth: "wait_for_download_result slow_scan {} 4 3 120 0 0 = Inr (None, ''FAILED_TIMEOUT'', [])"
    by (simp add: wait_for_download_result_def wait_loop.simps slow_scan_def poll_download_def
        detect_empty_page new_files_def completed_def in_progress_def endswith_def track_def
        settled_def Let_def later_def)
  show ?thesis
    using first second third fourth fifth by (simp add: steady_file_def)
qed

text \<open>
  The claim as stated fails when a second finished file shows up: the file \<^verbatim>\<open>a.pdf\<close> is
  seen from the start with the same ten bytes, so that after three seconds, two seconds
  before the timeout, its size has not changed for the stability window; but the loop
  only looks at the newest file, which arrived at that moment, and the attempt ends with
  \<^verbatim>\<open>FAILED_TIMEOUT\<close>.
\<close>

theorem C7_older_stable_file_not_returned:
  "seen_unchanged two_files {} ''a.pdf'' 10 0 3
   \<and> stable_at two_files {} 0 3 - scanned_at two_files {} 0 0 \<ge> 3
   \<and> pass_time two_files {} 0 3 < 0 + 5
   \<and> wait_for_download_result two_files {} 5 3 120 0 0 = Inr (None, ''FAILED_TIMEOUT'', [])"
proof -
  have n: "new_files {} (entries_of (two_files i)) =
      (if i < 3
       then [\<lparr>d_name = ''a.pdf'', d_is_file = True, st_size = 10, st_mtime = 1\<rparr>]
       else [\<lparr>d_name = ''a.pdf'', d_is_file = True, st_size = 10, st_mtime = 1\<rparr>,
             \<lparr>d_name = ''b.pdf'', d_is_file = True, st_size = 20, st_mtime = 4\<rparr>])" for i
    by (simp add: new_files_def entries_of_def two_files_def)
  have g: "track_lag (two_files i) = (\<lambda>k. 0)" "stable_lag (two_files i) = 0"
    "stall_lag (two_files i) = 0" "elapsed (two_files i) = 1" for i
    by (simp_all add: two_files_def)
  have t: "pass_time two_files {} 0 3 = 3"
    by (simp add: numeral_3_eq_3 n g later_def)
  have a: "scanned_at two_files {} 0 0 = 0"
    by (simp add: scanned_at_def n g later_def)
  have b: "stable_at two_files {} 0 3 = 3"
    unfolding stable_at_def scanned_at_def t by (simp add: n g later_def)
  have s: "seen_unchanged two_files {} ''a.pdf'' 10 0 3"
    by (auto simp: seen_unchanged_def n)
  have w: "wait_for_download_result two_files {} 5 3 120 0 0 = Inr (None, ''FAILED_TIMEOUT'', [])"
    by (simp add: wait_for_download_result_def wait_loop.simps two_files_def poll_download_def
        detect_empty_page new_files_def completed_def in_progress_def endswith_def track_def
        settled_def Let_def later_def)
  show ?thesis using t a b s w by simp
qed
section \<open>The classification: proofs\<close>

lemma classify_files_status:
  "status (classify_files l) =
     (if failed_rows (files_rows l) = [] then status l
      else if length (failed_rows (files_rows l)) = length (files_rows l) then ERROR
      else if status l = OK then PARTIAL else status l)"
  by (auto simp: classify_files_def Let_def failed_rows_def)

lemma classify_files_warnings:
  "warnings (classify_files l) =
     (if failed_rows (files_rows l) = [] then warnings l
      else warnings l @ [''Attachment failures: '' @ str_nat (length (failed_rows (files_rows l)))
                          @ ''/'' @ str_nat (length (files_rows l))])"
  by (auto simp: classify_files_def Let_def failed_rows_def)

lemma classify_files_rest:
  "files_rows (classify_files l) = files_rows l"
  "error_message (classify_files l) = error_message l"
  "attributes_rows (classify_files l) = attributes_rows l"
  "events (classify_files l) = events l"
  by (simp_all add: classify_files_def Let_def)

lemma classify_rest:
  "files_rows (classify l) = files_rows l"
  "attributes_rows (classify l) = attributes_rows l"
  "events (classify l) = events l"
  "error_message (classify l) = error_message l"
  "warnings (classify l) = warnings (classify_files l)"
  by (simp_all add: classify_def Let_def classify_files_rest)

lemma classify_status:
  "status (classify l) =
     (if status (classify_files l) = OK \<and> error_message l \<noteq> [] then PARTIAL
      else status (classify_files l))"
  by (simp add: classify_def Let_def classify_files_rest)


section \<open>A missing primary page: proofs\<close>

lemma missing_nonempty: "is_missing_page html \<Longrightarrow> html \<noteq> []"
  by (auto simp: is_missing_page_def MISSING_PAGE_PHRASE_def)

lemma general_primary_missing:
  assumes "primary_missing a env"
  shows "\<exists>html. is_missing_page html \<and>
     (if mode a = Offline then offline_general ex env run gid (deadline_of a env) (initial_locals evs n)
      else live_general ex env run gid (deadline_of a env) (initial_locals evs n)) =
     (missing_locals a gid evs n html, None)"
proof (cases "mode a")
  case Offline
  with assms obtain html where h: "sample_general env = Inr (Some html)" and m: "is_missing_page html"
    and t: "ensure_time_left (deadline_of a env) (clock_general env) = None"
    by (auto simp: primary_missing_def split: sum.splits option.splits)
  have "offline_general ex env run gid (deadline_of a env) (initial_locals evs n) =
      (missing_locals a gid evs n html, None)"
    using m missing_nonempty [OF m]
    by (simp add: offline_general_def t h Let_def missing_locals_def primary_request_def Offline
        initial_locals_def)
  then show ?thesis using m Offline by auto
next
  case Live
  with assms obtain html where h: "source_general env = Inr html" and m: "is_missing_page html"
    and t: "ensure_time_left (deadline_of a env) (clock_general env) = None"
    and c: "clean_download_dir env = None" "get_general env = None" "ready_general env = None"
    by (auto simp: primary_missing_def split: sum.splits)
  have "live_general ex env run gid (deadline_of a env) (initial_locals evs n) =
      (missing_locals a gid evs n html, None)"
    using m
    by (simp add: live_general_def t h c Let_def missing_locals_def primary_request_def Live
        initial_locals_def)
  then show ?thesis using m Live by auto
qed

lemma fetch_primary_missing:
  assumes "primary_missing a env"
  shows "\<exists>html. is_missing_page html \<and>
     fetch ex a env run gid (deadline_of a env) (initial_locals evs n) =
       (case snapshot_general env of
          None \<Rightarrow> ((missing_locals a gid evs n html)\<lparr>save_html_count := Suc n\<rparr>, None)
        | Some e \<Rightarrow> (missing_locals a gid evs n html, Some e))"
proof -
  from general_primary_missing [OF assms, of ex run gid evs n]
  obtain html where m: "is_missing_page html"
    and g: "(if mode a = Offline then offline_general ex env run gid (deadline_of a env) (initial_locals evs n)
      else live_general ex env run gid (deadline_of a env) (initial_locals evs n)) =
     (missing_locals a gid evs n html, None)" by blast
  have s: "status (missing_locals a gid evs n html) = MISSING"
    "general_html (missing_locals a gid evs n html) = html"
    "documents_html (missing_locals a gid evs n html) = []"
    "save_html_count (missing_locals a gid evs n html) = n"
    by (simp_all add: missing_locals_def initial_locals_def)
  have d: "offline_documents ex env run gid dl (missing_locals a gid evs n html) =
        (missing_locals a gid evs n html, None)"
      "live_documents ex a env run gid dl (missing_locals a gid evs n html) =
        (missing_locals a gid evs n html, None)" for dl
    by (simp_all add: offline_documents_def live_documents_def s)
  have sn: "save_snapshots a env (missing_locals a gid evs n html) =
      (case snapshot_general env of
          None \<Rightarrow> ((missing_locals a gid evs n html)\<lparr>save_html_count := Suc n\<rparr>, None)
        | Some e \<Rightarrow> (missing_locals a gid evs n html, Some e))"
    using missing_nonempty [OF m] by (simp add: save_snapshots_def s split: option.splits)
  have "fetch ex a env run gid (deadline_of a env) (initial_locals evs n) =
      save_snapshots a env (missing_locals a gid evs n html)"
  proof (cases "mode a = Offline")
    case True
    then show ?thesis using g by (simp add: fetch_def and_then_def d)
  next
    case False
    then show ?thesis using g by (simp add: fetch_def and_then_def d)
  qed
  then show ?thesis using m sn by auto
qed

lemma classify_missing_locals:
  "classify (l\<lparr>status := st\<rparr>) = l\<lparr>status := st\<rparr>"
  if "files_rows l = []" and "st \<noteq> OK" for l :: locals
  using that by (simp add: classify_def classify_files_def failed_rows_def Let_def)


section \<open>Writing the rows: proofs\<close>

lemma rows_of_flush: "rows_of (fst (writer_flush f w)) = rows_of w"
  by (simp add: writer_flush_def rows_of_def split: option.splits)

lemma rows_of_add: "rows_of (fst (writer_add f w rs)) = rows_of w @ rs"
  by (simp add: writer_add_def Let_def rows_of_flush) (simp add: rows_of_def)

lemma update_state_worker:
  "guarantees_writer (fst (fst (update_state a env run gid l st))) = guarantees_writer (fst st)"
  "attributes_writer (fst (fst (update_state a env run gid l st))) = attributes_writer (fst st)"
  "files_writer (fst (fst (update_state a env run gid l st))) = files_writer (fst st)"
  "w_events (fst (fst (update_state a env run gid l st))) = w_events (fst st)"
  by (simp_all add: update_state_def Let_def split: option.splits)

lemma persist_guarantee_rows:
  "rows_of (guarantees_writer (fst (fst (persist a env run gid l st)))) =
     rows_of (guarantees_writer (fst st)) @ [guarantee_row_of env run gid l]"
  by (simp add: persist_def Let_def update_state_worker rows_of_add split: option.splits)

lemma persist_attribute_rows:
  "attributes_rows l = [] \<Longrightarrow>
   rows_of (attributes_writer (fst (fst (persist a env run gid l st)))) =
     rows_of (attributes_writer (fst st))"
  using rows_of_add [of "flush_attributes env" "attributes_writer (fst st)" "[]"]
  by (simp add: persist_def Let_def update_state_worker split: option.splits)

lemma persist_file_rows:
  "files_rows l = [] \<Longrightarrow>
   rows_of (files_writer (fst (fst (persist a env run gid l st)))) =
     rows_of (files_writer (fst st))"
  using rows_of_add [of "flush_files env" "files_writer (fst st)" "[]"]
  by (simp add: persist_def Let_def update_state_worker split: option.splits)

lemma persist_events:
  "w_events (fst (fst (persist a env run gid l st))) = w_events (fst st)"
  by (simp add: persist_def Let_def update_state_worker split: option.splits)


lemma process_one_worker:
  fixes st :: "worker \<times> shared" and ex a env run gid
  defines "r \<equiv> classified ex a env run gid (initial_locals (w_events (fst st)) (w_save_html_count (fst st)))"
  shows "w_events (fst (fst (process_one ex a env run gid st))) = events (fst r)"
    and "attributes_rows (fst r) = [] \<Longrightarrow>
         rows_of (attributes_writer (fst (fst (process_one ex a env run gid st)))) =
           rows_of (attributes_writer (fst st))"
    and "files_rows (fst r) = [] \<Longrightarrow>
         rows_of (files_writer (fst (fst (process_one ex a env run gid st)))) =
           rows_of (files_writer (fst st))"
    and "snd r = None \<Longrightarrow>
         rows_of (guarantees_writer (fst (fst (process_one ex a env run gid st)))) =
           rows_of (guarantees_writer (fst st)) @ [guarantee_row_of env run gid (fst r)]"
  unfolding r_def
  by (simp_all add: process_one_def Let_def persist_events persist_attribute_rows
      persist_file_rows persist_guarantee_rows split: option.splits)


section \<open>A missing primary page: the record\<close>

lemma classified_primary_missing:
  fixes ex a env run gid evs n
  assumes "primary_missing a env"
  defines "r \<equiv> classified ex a env run gid (initial_locals evs n)"
  shows "events (fst r) = evs @ [primary_request a gid]
     \<and> attributes_rows (fst r) = [] \<and> files_rows (fst r) = []
     \<and> status (fst r) = (case snapshot_general env of None \<Rightarrow> MISSING | Some e \<Rightarrow> caught_status e)"
proof -
  from fetch_primary_missing [OF assms(1), of ex run gid evs n]
  obtain html where f: "fetch ex a env run gid (deadline_of a env) (initial_locals evs n) =
       (case snapshot_general env of
          None \<Rightarrow> ((missing_locals a gid evs n html)\<lparr>save_html_count := Suc n\<rparr>, None)
        | Some e \<Rightarrow> (missing_locals a gid evs n html, Some e))" by blast
  let ?m = "missing_locals a gid evs n html"
  have m: "events ?m = evs @ [primary_request a gid]" "attributes_rows ?m = []"
    "files_rows ?m = []" "status ?m = MISSING" "error_message ?m = []"
    by (simp_all add: missing_locals_def initial_locals_def)
  show ?thesis
  proof (cases "snapshot_general env")
    case None
    then have "r = (classify (?m\<lparr>save_html_count := Suc n\<rparr>), None)"
      by (simp add: r_def classified_def try_block_def f Let_def)
    then show ?thesis
      using None
      by (simp add: classify_rest classify_status classify_files_status classify_files_rest
          failed_rows_def m)
  next
    case (Some e)
    let ?h = "handle_exception a env ?m e"
    have t: "try_block ex a env run gid (initial_locals evs n) = ?h"
      using Some by (simp add: try_block_def f Let_def)
    have h: "events (fst ?h) = evs @ [primary_request a gid]" "attributes_rows (fst ?h) = []"
      "files_rows (fst ?h) = []" "status (fst ?h) = caught_status e"
      by (simp_all add: handle_exception_def caught_status_def m)
    have ne: "caught_status e \<noteq> OK"
      by (simp add: caught_status_def)
    have "fst r = fst ?h \<or> fst r = classify (fst ?h)"
      by (cases "snd ?h") (simp_all add: r_def classified_def t Let_def)
    then show ?thesis
      using Some h ne
      by (auto simp: classify_rest classify_status classify_files_status classify_files_rest
          failed_rows_def)
  qed
qed

text \<open>
  C1, as amended. For every record whose primary page is read and classified as missing
  by \<^verbatim>\<open>is_missing_page\<close>, in either mode: the only page asked for is the primary one, so
  the secondary page is not fetched; no attribute row and no file row is produced; and the
  status is \<^verbatim>\<open>MISSING\<close> unless saving the page afterwards raises, in which case the
  handlers make it \<^verbatim>\<open>ERROR\<close>, or \<^verbatim>\<open>TIMEOUT\<close> for the deadline exception. When saving
  returns, the one guarantee row written has the status \<^verbatim>\<open>MISSING\<close>, no warning and no
  error.
\<close>

theorem C1_missing_primary_page:
  assumes "primary_missing a env"
  shows "events (fst (classified ex a env run gid (initial_locals evs n))) =
           evs @ [primary_request a gid]
     \<and> attributes_rows (fst (classified ex a env run gid (initial_locals evs n))) = []
     \<and> files_rows (fst (classified ex a env run gid (initial_locals evs n))) = []
     \<and> status (fst (classified ex a env run gid (initial_locals evs n))) =
           (case snapshot_general env of None \<Rightarrow> MISSING | Some e \<Rightarrow> caught_status e)
     \<and> w_events (fst (fst (process_one ex a env run gid st))) =
           w_events (fst st) @ [primary_request a gid]
     \<and> rows_of (attributes_writer (fst (fst (process_one ex a env run gid st)))) =
           rows_of (attributes_writer (fst st))
     \<and> rows_of (files_writer (fst (fst (process_one ex a env run gid st)))) =
           rows_of (files_writer (fst st))
     \<and> (snapshot_general env = None \<longrightarrow>
           rows_of (guarantees_writer (fst (fst (process_one ex a env run gid st)))) =
             rows_of (guarantees_writer (fst st)) @
             [\<lparr>g_run_id = run, g_id = gid, g_status = MISSING,
               g_general_url = GENERAL_INFO_URL gid, g_documents_url = DOCUMENTS_URL gid,
               g_fetched_at = fetched_at env, g_warnings = [], g_error = []\<rparr>])"
proof -
  note c = classified_primary_missing [OF assms]
  let ?r = "classified ex a env run gid (initial_locals (w_events (fst st)) (w_save_html_count (fst st)))"
  note p = process_one_worker [of ex a env run gid st]
  have g: "snapshot_general env = None \<Longrightarrow>
      rows_of (guarantees_writer (fst (fst (process_one ex a env run gid st)))) =
             rows_of (guarantees_writer (fst st)) @
             [\<lparr>g_run_id = run, g_id = gid, g_status = MISSING,
               g_general_url = GENERAL_INFO_URL gid, g_documents_url = DOCUMENTS_URL gid,
               g_fetched_at = fetched_at env, g_warnings = [], g_error = []\<rparr>]"
  proof -
    assume n: "snapshot_general env = None"
    from fetch_primary_missing [OF assms, of ex run gid "w_events (fst st)" "w_save_html_count (fst st)"]
    obtain html where f: "fetch ex a env run gid (deadline_of a env)
          (initial_locals (w_events (fst st)) (w_save_html_count (fst st))) =
        ((missing_locals a gid (w_events (fst st)) (w_save_html_count (fst st)) html)
           \<lparr>save_html_count := Suc (w_save_html_count (fst st))\<rparr>, None)"
      using n by auto
    let ?m = "(missing_locals a gid (w_events (fst st)) (w_save_html_count (fst st)) html)
           \<lparr>save_html_count := Suc (w_save_html_count (fst st))\<rparr>"
    have m: "files_rows ?m = []" "status ?m = MISSING" "error_message ?m = []" "warnings ?m = []"
      by (simp_all add: missing_locals_def initial_locals_def)
    have r: "?r = (classify ?m, None)"
      by (simp add: classified_def try_block_def f Let_def)
    have "guarantee_row_of env run gid (classify ?m) =
        \<lparr>g_run_id = run, g_id = gid, g_status = MISSING,
               g_general_url = GENERAL_INFO_URL gid, g_documents_url = DOCUMENTS_URL gid,
               g_fetched_at = fetched_at env, g_warnings = [], g_error = []\<rparr>"
      by (simp add: guarantee_row_of_def classify_rest classify_status classify_files_status
          classify_files_warnings failed_rows_def m)
    then show ?thesis
      using p(4) r by simp
  qed
  show ?thesis
    using c [of ex run gid evs n]
      c [of ex run gid "w_events (fst st)" "w_save_html_count (fst st)"] p(1-3) g
    by simp
qed

lemma missing_env_primary: "primary_missing live_args missing_env"
  and full_disk_env_primary: "primary_missing live_args full_disk_env"
  by (simp_all add: primary_missing_def live_args_def default_args_def missing_env_def
      full_disk_env_def calm_env_def deadline_of_def ensure_time_left_def is_missing_page_def
      MISSING_PAGE_PHRASE_def)

theorem C1_missing_primary_page_witness:
  "events (fst (classified no_fields live_args missing_env 1 5 (initial_locals [] 0))) =
     [Get (GENERAL_INFO_URL 5)]
   \<and> attributes_rows (fst (classified no_fields live_args missing_env 1 5 (initial_locals [] 0))) = []
   \<and> files_rows (fst (classified no_fields live_args missing_env 1 5 (initial_locals [] 0))) = []
   \<and> status (fst (classified no_fields live_args missing_env 1 5 (initial_locals [] 0))) = MISSING"
  using C1_missing_primary_page [OF missing_env_primary, of no_fields 1 5 "[]" 0]
  by (simp add: primary_request_def live_args_def default_args_def missing_env_def calm_env_def)

text \<open>
  The claim as stated fails when the disk is full: the primary page is read and classified
  as missing, saving it raises, and the record ends with the status \<^verbatim>\<open>ERROR\<close>.
\<close>

theorem C1_missing_page_status_error:
  "primary_missing live_args full_disk_env
   \<and> status (fst (classified no_fields live_args full_disk_env 1 5 (initial_locals [] 0))) = ERROR"
  using classified_primary_missing [OF full_disk_env_primary, of no_fields 1 5 "[]" 0]
    full_disk_env_primary
  by (simp add: full_disk_env_def missing_env_def calm_env_def caught_status_def)

section \<open>The classification by the file rows: the record\<close>

text \<open>What the two phases of the \<^verbatim>\<open>try\<close> block leave in the status and the file rows.\<close>

lemma general_phase:
  assumes "files_rows l = []" and "status l = OK"
  shows "files_rows (fst (offline_general ex env run gid dl l)) = []
     \<and> status (fst (offline_general ex env run gid dl l)) \<in> {OK, ERROR, MISSING}"
    and "files_rows (fst (live_general ex env run gid dl l)) = []
     \<and> status (fst (live_general ex env run gid dl l)) \<in> {OK, ERROR, MISSING}"
  using assms
  by (simp_all add: offline_general_def live_general_def Let_def
      split: option.split sum.split prod.split)

lemma offline_documents_status:
  assumes "files_rows l = []"
  shows "files_rows (fst (offline_documents ex env run gid dl l)) = []
     \<or> (status (fst (offline_documents ex env run gid dl l)) = status l \<and> status l \<noteq> MISSING)"
  using assms
  by (auto simp: offline_documents_def Let_def split: option.split sum.split prod.split)

lemma live_attachments_status:
  assumes "files_rows l = []"
  shows "files_rows (fst (live_attachments ex a env run gid dl l)) = []
     \<or> status (fst (live_attachments ex a env run gid dl l)) = status l"
  using assms
  by (auto simp: live_attachments_def Let_def split: option.split sum.split prod.split)

lemma live_documents_status:
  assumes "files_rows l = []"
  shows "files_rows (fst (live_documents ex a env run gid dl l)) = []
     \<or> (status (fst (live_documents ex a env run gid dl l)) = status l \<and> status l \<noteq> MISSING)"
proof -
  have la: "\<forall>html. files_rows (fst (live_attachments ex a env run gid dl
        (l\<lparr>events := events l @ [Get (DOCUMENTS_URL gid)], documents_html := html\<rparr>))) = []
     \<or> status (fst (live_attachments ex a env run gid dl
        (l\<lparr>events := events l @ [Get (DOCUMENTS_URL gid)], documents_html := html\<rparr>))) = status l"
  proof
    fix html
    show "files_rows (fst (live_attachments ex a env run gid dl
        (l\<lparr>events := events l @ [Get (DOCUMENTS_URL gid)], documents_html := html\<rparr>))) = []
     \<or> status (fst (live_attachments ex a env run gid dl
        (l\<lparr>events := events l @ [Get (DOCUMENTS_URL gid)], documents_html := html\<rparr>))) = status l"
      using live_attachments_status
        [of "l\<lparr>events := events l @ [Get (DOCUMENTS_URL gid)], documents_html := html\<rparr>"
          ex a env run gid dl] assms
      by simp
  qed
  show ?thesis
    using la assms
    by (auto simp: live_documents_def Let_def split: option.split sum.split)
qed

lemma save_snapshots_keeps:
  "files_rows (fst (save_snapshots a env l)) = files_rows l"
  "status (fst (save_snapshots a env l)) = status l"
  by (simp_all add: save_snapshots_def split: option.split)

lemma fetch_phase:
  "files_rows (fst (fetch ex a env run gid dl (initial_locals evs n))) = []
   \<or> status (fst (fetch ex a env run gid dl (initial_locals evs n))) \<in> {OK, ERROR}"
proof -
  let ?l = "initial_locals evs n"
  let ?Q = "\<lambda>l. files_rows l = [] \<or> status l \<in> {OK, ERROR}"
  have i: "files_rows ?l = []" "status ?l = OK"
    by (simp_all add: initial_locals_def)
  have off: "?Q (fst (and_then (offline_general ex env run gid dl ?l) (offline_documents ex env run gid dl)))"
  proof (cases "snd (offline_general ex env run gid dl ?l)")
    case None
    let ?g = "fst (offline_general ex env run gid dl ?l)"
    have g: "files_rows ?g = []" "status ?g \<in> {OK, ERROR, MISSING}"
      using general_phase(1) [OF i] by simp_all
    show ?thesis
      using None offline_documents_status [OF g(1), of ex env run gid dl] g(2)
      by (auto simp: and_then_def)
  next
    case (Some e)
    then show ?thesis
      using general_phase(1) [OF i, of ex env run gid dl] by (simp add: and_then_def)
  qed
  have live: "?Q (fst (and_then (live_general ex env run gid dl ?l) (live_documents ex a env run gid dl)))"
  proof (cases "snd (live_general ex env run gid dl ?l)")
    case None
    let ?g = "fst (live_general ex env run gid dl ?l)"
    have g: "files_rows ?g = []" "status ?g \<in> {OK, ERROR, MISSING}"
      using general_phase(2) [OF i] by simp_all
    show ?thesis
      using None live_documents_status [OF g(1), of ex a env run gid dl] g(2)
      by (auto simp: and_then_def)
  next
    case (Some e)
    then show ?thesis
      using general_phase(2) [OF i, of ex env run gid dl] by (simp add: and_then_def)
  qed
  let ?both = "if mode a = Offline
        then and_then (offline_general ex env run gid dl ?l) (offline_documents ex env run gid dl)
        else and_then (live_general ex env run gid dl ?l) (live_documents ex a env run gid dl)"
  have both: "?Q (fst ?both)"
    using off live by simp
  have "fetch ex a env run gid dl ?l = and_then ?both (save_snapshots a env)"
    by (simp add: fetch_def)
  then show ?thesis
    using both by (cases "snd ?both") (simp_all add: and_then_def save_snapshots_keeps)
qed

lemma try_block_phase:
  "files_rows (fst (try_block ex a env run gid (initial_locals evs n))) = []
   \<or> status (fst (try_block ex a env run gid (initial_locals evs n))) \<in> {OK, ERROR, TIMEOUT}"
  using fetch_phase [of ex a env run gid "deadline_of a env" evs n]
  by (auto simp: try_block_def Let_def handle_exception_def split: option.splits)

section \<open>A pass that returns\<close>

lemma handle_exception_raises:
  "snd (handle_exception a env l e) = None \<or> snd (handle_exception a env l e) = restart_driver env"
  by (simp add: handle_exception_def)

lemma try_block_raises:
  "snd (try_block ex a env run gid l) = None \<or> snd (try_block ex a env run gid l) = restart_driver env"
  using handle_exception_raises
  by (simp add: try_block_def Let_def split: option.splits)

lemma classified_raises:
  "snd (classified ex a env run gid l) = None \<or> snd (classified ex a env run gid l) = restart_driver env"
  using try_block_raises [of ex a env run gid l]
  by (auto simp: classified_def Let_def split: option.splits)

lemma classified_returns:
  "restart_driver env = None \<Longrightarrow> snd (classified ex a env run gid l) = None"
  using classified_raises [of ex a env run gid l] by auto

lemma writer_add_returns: "snd (writer_add None w rs) = None"
  by (simp add: writer_add_def writer_flush_def Let_def)

lemma update_state_returns:
  "persist_quiet env \<Longrightarrow> snd (update_state a env run gid l st) = None"
  by (simp add: update_state_def persist_quiet_def Let_def)

lemma persist_returns:
  "persist_quiet env \<Longrightarrow> snd (persist a env run gid l st) = None"
  by (simp add: persist_def Let_def writer_add_returns update_state_returns persist_quiet_def)

lemma process_one_returns:
  "restart_driver env = None \<Longrightarrow> persist_quiet env \<Longrightarrow>
   snd (process_one ex a env run gid st) = None"
  by (simp add: process_one_def Let_def classified_returns persist_returns)

lemma missing_final_status:
  "primary_missing a env \<Longrightarrow>
   final_status ex a env run gid st =
     (case snapshot_general env of None \<Rightarrow> MISSING | Some e \<Rightarrow> caught_status e)"
  using classified_primary_missing [of a env ex run gid "w_events (fst st)" "w_save_html_count (fst st)"]
  by (simp add: final_status_def)

lemma calm_returns:
  "restart_driver missing_env = None" "persist_quiet missing_env"
  "restart_driver full_disk_env = None" "persist_quiet full_disk_env"
  by (simp_all add: persist_quiet_def full_disk_env_def missing_env_def calm_env_def)

lemma calm_final_status:
  "final_status ex live_args missing_env run gid st = MISSING"
  "final_status ex live_args full_disk_env run gid st = ERROR"
  by (simp_all add: missing_final_status missing_env_primary full_disk_env_primary)
    (simp_all add: full_disk_env_def missing_env_def calm_env_def caught_status_def)

lemma failed_examples:
  "failed_rows (files_rows one_failed) =
     [failed_row 1 5 1 ''guarantee.pdf'' ''https://zakupki.gov.ru/file?uid=A1'' one_attachment
        ''FAILED_STALLED'']"
  "length (files_rows one_failed) = 2"
  "length (failed_rows (files_rows both_failed)) = 2"
  "length (files_rows both_failed) = 2"
  by (simp_all add: one_failed_def both_failed_def failed_rows_def failed_row_def
      offline_file_row_def Let_def startswith_def)

lemma not_found_rows:
  "download_attachments no_mime not_found_dl [one_attachment, one_attachment] 1 5
     RAW_ATTACHMENTS_DIR False 28 120 =
   Inr [failed_row 1 5 1 ''guarantee.pdf'' ''https://zakupki.gov.ru/file?uid=A1'' one_attachment
          ''FAILED_NOT_FOUND'',
        failed_row 1 5 2 ''guarantee.pdf'' ''https://zakupki.gov.ru/file?uid=A1'' one_attachment
          ''FAILED_NOT_FOUND'']"
proof -
  have d: "detect_download_error (Inr (FILE_WITH_UID @ 32 # NOT_FOUND)) = Inr ''FAILED_NOT_FOUND''"
    by (simp add: detect_download_error_def FILE_WITH_UID_def NOT_FOUND_def)
  have o: "download_one no_mime (calm_att\<lparr>first_page := Inr (FILE_WITH_UID @ 32 # NOT_FOUND)\<rparr>)
      1 5 RAW_ATTACHMENTS_DIR False 28 120 index one_attachment =
    Inr (failed_row 1 5 index ''guarantee.pdf'' ''https://zakupki.gov.ru/file?uid=A1'' one_attachment
          ''FAILED_NOT_FOUND'')" for index
    by (simp add: download_one_def Let_def calm_att_def d close_download_tab_def one_attachment_def
        strip_str_def isspace_def)
  show ?thesis
    by (simp add: download_attachments_def not_found_dl_def o numeral_2_eq_2)
qed

lemma alarm_try_block:
  "try_block two_attachments live_args alarm_env 1 5 (initial_locals [] 0) =
      ((initial_locals [] 0)\<lparr>events := [Get (GENERAL_INFO_URL 5), Get (DOCUMENTS_URL 5)],
          general_html := plain_page, documents_html := plain_page,
          attachments := [one_attachment, one_attachment], files_rows :=
            [failed_row 1 5 1 ''guarantee.pdf'' ''https://zakupki.gov.ru/file?uid=A1''
               one_attachment ''FAILED_NOT_FOUND'',
             failed_row 1 5 2 ''guarantee.pdf'' ''https://zakupki.gov.ru/file?uid=A1''
               one_attachment ''FAILED_NOT_FOUND''],
          status := TIMEOUT, error_message := ''Timeout after 30s'',
          warnings := [''Per-ID processing timed out'']\<rparr>, None)"
proof -
  have m: "\<not> is_missing_page plain_page"
    by (simp add: is_missing_page_def plain_page_def MISSING_PAGE_PHRASE_def)
  have p: "plain_page \<noteq> []"
    by (simp add: plain_page_def)
  have dl: "deadline_of live_args alarm_env = Some 30"
    by (simp add: deadline_of_def live_args_def default_args_def alarm_env_def calm_env_def)
  have r: "remaining_seconds (Some 30) 300 2 = 28"
    by (simp add: remaining_seconds_def)
  have g: "live_general two_attachments alarm_env 1 5 (Some 30) (initial_locals [] 0) =
      ((initial_locals [] 0)\<lparr>events := [Get (GENERAL_INFO_URL 5)], general_html := plain_page\<rparr>, None)"
    by (simp add: live_general_def alarm_env_def calm_env_def ensure_time_left_def m Let_def
        two_attachments_def attributes_rows_of_def initial_locals_def)
  have d: "live_documents two_attachments live_args alarm_env 1 5 (Some 30)
        ((initial_locals [] 0)\<lparr>events := [Get (GENERAL_INFO_URL 5)], general_html := plain_page\<rparr>) =
      ((initial_locals [] 0)\<lparr>events := [Get (GENERAL_INFO_URL 5), Get (DOCUMENTS_URL 5)],
          general_html := plain_page, documents_html := plain_page,
          attachments := [one_attachment, one_attachment], files_rows :=
            [failed_row 1 5 1 ''guarantee.pdf'' ''https://zakupki.gov.ru/file?uid=A1''
               one_attachment ''FAILED_NOT_FOUND'',
             failed_row 1 5 2 ''guarantee.pdf'' ''https://zakupki.gov.ru/file?uid=A1''
               one_attachment ''FAILED_NOT_FOUND'']\<rparr>, None)"
    using not_found_rows
    by (simp add: live_documents_def live_attachments_def alarm_env_def calm_env_def
        ensure_time_left_def m Let_def two_attachments_def document_metadata_rows_def
        initial_locals_def live_args_def default_args_def r)
  have f: "fetch two_attachments live_args alarm_env 1 5 (Some 30) (initial_locals [] 0) =
      ((initial_locals [] 0)\<lparr>events := [Get (GENERAL_INFO_URL 5), Get (DOCUMENTS_URL 5)],
          general_html := plain_page, documents_html := plain_page,
          attachments := [one_attachment, one_attachment], files_rows :=
            [failed_row 1 5 1 ''guarantee.pdf'' ''https://zakupki.gov.ru/file?uid=A1''
               one_attachment ''FAILED_NOT_FOUND'',
             failed_row 1 5 2 ''guarantee.pdf'' ''https://zakupki.gov.ru/file?uid=A1''
               one_attachment ''FAILED_NOT_FOUND'']\<rparr>,
       Some (Exn ProcessingTimeout ''Per-ID processing timed out''))"
  proof -
    have a: "mode live_args = Live" "\<not> save_html live_args" "save_html_first_n live_args = 10"
      by (simp_all add: live_args_def default_args_def)
    have s: "snapshot_general alarm_env = Some (Exn ProcessingTimeout ''Per-ID processing timed out'')"
      by (simp add: alarm_env_def)
    have i: "save_html_count (initial_locals [] 0) = 0"
      by (simp add: initial_locals_def)
    show ?thesis
      using p by (simp add: fetch_def and_then_def g d save_snapshots_def a s i)
  qed
  show ?thesis
  proof -
    have a: "per_id_timeout live_args = 30"
      by (simp add: live_args_def default_args_def)
    have n: "str_int 30 = ''30''"
      by (simp add: str_int_def str_nat.simps)
    have w: "warnings (initial_locals [] 0) = []"
      by (simp add: initial_locals_def)
    show ?thesis
      by (simp add: try_block_def dl f Let_def handle_exception_def a n w)
  qed
qed

text \<open>
  C3, as amended. The rule of lines 306-319 is applied after the \<^verbatim>\<open>try\<close> block and its
  handlers, to the status they left. When every file row has a \<^verbatim>\<open>FAILED\<close> status the
  status becomes \<^verbatim>\<open>ERROR\<close>, whatever it was, \<^verbatim>\<open>TIMEOUT\<close> included. When some but not all
  failed, \<^verbatim>\<open>OK\<close> becomes \<^verbatim>\<open>PARTIAL\<close> and any other status is kept. In both cases a warning
  with the ratio of failed to total rows is appended; with no failed row nothing changes
  but \<^verbatim>\<open>OK\<close> with an error message, which becomes \<^verbatim>\<open>PARTIAL\<close>. A record that has file rows
  comes out of the \<^verbatim>\<open>try\<close> block as \<^verbatim>\<open>OK\<close>, \<^verbatim>\<open>ERROR\<close> or \<^verbatim>\<open>TIMEOUT\<close>: a \<^verbatim>\<open>MISSING\<close>
  record has none, so that the rule never touches it.
\<close>

theorem C3_file_rows_classification:
  "(all_failed (files_rows l) \<longrightarrow> status (classify l) = ERROR)
   \<and> (failed_rows (files_rows l) \<noteq> [] \<and> \<not> all_failed (files_rows l) \<longrightarrow>
        status (classify l) = (if status l = OK then PARTIAL else status l))
   \<and> (failed_rows (files_rows l) \<noteq> [] \<longrightarrow>
        warnings (classify l) =
          warnings l @ [''Attachment failures: '' @ str_nat (length (failed_rows (files_rows l)))
                        @ ''/'' @ str_nat (length (files_rows l))])
   \<and> (failed_rows (files_rows l) = [] \<longrightarrow>
        warnings (classify l) = warnings l
        \<and> status (classify l) = (if status l = OK \<and> error_message l \<noteq> [] then PARTIAL else status l))
   \<and> (files_rows (fst (try_block ex a env run gid (initial_locals evs n))) = []
        \<or> status (fst (try_block ex a env run gid (initial_locals evs n))) \<in> {OK, ERROR, TIMEOUT})
   \<and> (snd (try_block ex a env run gid (initial_locals evs n)) = None \<longrightarrow>
        classified ex a env run gid (initial_locals evs n) =
          (classify (fst (try_block ex a env run gid (initial_locals evs n))), None))"
proof (intro conjI impI)
  assume "all_failed (files_rows l)"
  then show "status (classify l) = ERROR"
    by (auto simp: all_failed_def classify_status classify_files_status)
next
  assume "failed_rows (files_rows l) \<noteq> [] \<and> \<not> all_failed (files_rows l)"
  then show "status (classify l) = (if status l = OK then PARTIAL else status l)"
    by (auto simp: all_failed_def classify_status classify_files_status failed_rows_def)
next
  assume "failed_rows (files_rows l) \<noteq> []"
  then show "warnings (classify l) =
          warnings l @ [''Attachment failures: '' @ str_nat (length (failed_rows (files_rows l)))
                        @ ''/'' @ str_nat (length (files_rows l))]"
    by (simp add: classify_rest classify_files_warnings)
next
  assume "failed_rows (files_rows l) = []"
  then show "warnings (classify l) = warnings l"
    and "status (classify l) = (if status l = OK \<and> error_message l \<noteq> [] then PARTIAL else status l)"
    by (simp_all add: classify_rest classify_files_warnings classify_status classify_files_status)
next
  show "files_rows (fst (try_block ex a env run gid (initial_locals evs n))) = []
        \<or> status (fst (try_block ex a env run gid (initial_locals evs n))) \<in> {OK, ERROR, TIMEOUT}"
    by (rule try_block_phase)
next
  assume "snd (try_block ex a env run gid (initial_locals evs n)) = None"
  then show "classified ex a env run gid (initial_locals evs n) =
          (classify (fst (try_block ex a env run gid (initial_locals evs n))), None)"
    by (simp add: classified_def Let_def)
qed

theorem C3_file_rows_classification_witness:
  "status (classify one_failed) = PARTIAL
   \<and> warnings (classify one_failed) = [''Attachment failures: 1/2'']
   \<and> status (classify both_failed) = ERROR
   \<and> warnings (classify both_failed) = [''Attachment failures: 2/2'']
   \<and> status (classify (initial_locals [] 0)) = OK
   \<and> classified two_attachments live_args alarm_env 1 5 (initial_locals [] 0) =
       (classify (fst (try_block two_attachments live_args alarm_env 1 5 (initial_locals [] 0))), None)"
proof -
  have n: "str_nat (Suc 0) = ''1''" "str_nat 2 = ''2''"
    by (simp_all add: str_nat.simps)
  have s: "status one_failed = OK" "warnings one_failed = []" "warnings both_failed = []"
    by (simp_all add: one_failed_def both_failed_def initial_locals_def)
  have a: "all_failed (files_rows both_failed)" "\<not> all_failed (files_rows one_failed)"
    by (simp_all add: all_failed_def failed_examples) (simp add: both_failed_def)
  have ne: "failed_rows (files_rows both_failed) \<noteq> []"
    using failed_examples(3) by auto
  have i: "failed_rows (files_rows (initial_locals [] 0)) = []" "status (initial_locals [] 0) = OK"
    "error_message (initial_locals [] 0) = []"
    by (simp_all add: initial_locals_def failed_rows_def)
  have t: "snd (try_block two_attachments live_args alarm_env 1 5 (initial_locals [] 0)) = None"
    by (simp add: alarm_try_block)
  have one: "status (classify one_failed) = PARTIAL
      \<and> warnings (classify one_failed) = [''Attachment failures: 1/2'']"
    using C3_file_rows_classification [of one_failed] a
    by (simp add: failed_examples n s)
  have both: "status (classify both_failed) = ERROR
      \<and> warnings (classify both_failed) = [''Attachment failures: 2/2'']"
    using C3_file_rows_classification [of both_failed] a ne
    by (simp add: failed_examples n s)
  have none: "status (classify (initial_locals [] 0)) = OK"
    using C3_file_rows_classification [of "initial_locals [] 0"] i
    by simp
  have last: "classified two_attachments live_args alarm_env 1 5 (initial_locals [] 0) =
       (classify (fst (try_block two_attachments live_args alarm_env 1 5 (initial_locals [] 0))), None)"
    using C3_file_rows_classification [where ex = two_attachments and a = live_args
        and env = alarm_env and run = 1 and gid = 5 and evs = "[]" and n = 0] t
    by blast
  show ?thesis
    using one both none last by simp
qed

text \<open>
  The claim as stated fails where it lets the earlier \<^verbatim>\<open>TIMEOUT\<close> short-circuit the rule:
  both downloads of a record fail, the per-ID alarm fires while the page is saved, the
  handler sets \<^verbatim>\<open>TIMEOUT\<close>, and the rule then overwrites it with \<^verbatim>\<open>ERROR\<close>.
\<close>

theorem C3_timeout_overridden:
  "status (fst (try_block two_attachments live_args alarm_env 1 5 (initial_locals [] 0))) = TIMEOUT
   \<and> all_failed (files_rows (fst (try_block two_attachments live_args alarm_env 1 5 (initial_locals [] 0))))
   \<and> status (fst (classified two_attachments live_args alarm_env 1 5 (initial_locals [] 0))) = ERROR"
proof -
  have fr: "failed_rows [failed_row 1 5 i ''guarantee.pdf'' u one_attachment ''FAILED_NOT_FOUND'',
        failed_row 1 5 j ''guarantee.pdf'' u one_attachment ''FAILED_NOT_FOUND''] =
      [failed_row 1 5 i ''guarantee.pdf'' u one_attachment ''FAILED_NOT_FOUND'',
        failed_row 1 5 j ''guarantee.pdf'' u one_attachment ''FAILED_NOT_FOUND'']" for i j u
    by (simp add: failed_rows_def failed_row_def startswith_def)
  show ?thesis
    by (simp add: classified_def alarm_try_block Let_def classify_status classify_files_status all_failed_def fr)
qed

section \<open>Exceptions of a pass: proofs\<close>

lemma try_block_caught:
  assumes "snd (fetch ex a env run gid (deadline_of a env) l) = Some e"
  shows "status (fst (try_block ex a env run gid l)) = caught_status e"
    and "error_message (fst (try_block ex a env run gid l)) =
           (if cls e = ProcessingTimeout
            then ''Timeout after '' @ str_int (per_id_timeout a) @ ''s'' else msg e)"
    and "warnings (fst (try_block ex a env run gid l)) =
           warnings (fst (fetch ex a env run gid (deadline_of a env) l))
           @ (if cls e = ProcessingTimeout then [msg e] else [])"
    and "files_rows (fst (try_block ex a env run gid l)) =
           files_rows (fst (fetch ex a env run gid (deadline_of a env) l))"
    and "snd (try_block ex a env run gid l) =
           (if cls e \<noteq> ProcessingTimeout \<and> mode a = Live \<and> session_lost (lower (msg e))
            then restart_driver env else None)"
  using assms
  by (simp_all add: try_block_def Let_def handle_exception_def caught_status_def)

lemma classify_caught:
  assumes "status l \<noteq> OK"
  shows "status (classify l) = (if all_failed (files_rows l) then ERROR else status l)"
  using assms
  by (auto simp: classify_status classify_files_status all_failed_def failed_rows_def)

lemma classified_caught:
  assumes "snd (fetch ex a env run gid (deadline_of a env) l) = Some e"
    and "snd (try_block ex a env run gid l) = None"
  shows "status (fst (classified ex a env run gid l)) =
           (if all_failed (files_rows (fst (fetch ex a env run gid (deadline_of a env) l)))
            then ERROR else caught_status e)"
proof -
  have n: "status (fst (try_block ex a env run gid l)) \<noteq> OK"
    using try_block_caught(1) [OF assms(1)] by (simp add: caught_status_def)
  have "fst (classified ex a env run gid l) = classify (fst (try_block ex a env run gid l))"
    using assms(2) by (simp add: classified_def Let_def)
  then show ?thesis
    using classify_caught [OF n] try_block_caught(1,4) [OF assms(1)] by simp
qed

lemma writer_add_raises:
  "snd (writer_add f w rs) = None \<or> snd (writer_add f w rs) = f"
  by (simp add: writer_add_def writer_flush_def Let_def split: option.splits)

lemma update_state_raises:
  "snd (update_state a env run gid l st) = None
   \<or> snd (update_state a env run gid l st) = update_attribute_union env
   \<or> snd (update_state a env run gid l st) = append_processed env
   \<or> snd (update_state a env run gid l st) = save_checkpoint env"
  by (simp add: update_state_def Let_def split: option.splits)

lemma persist_raises:
  "snd (persist a env run gid l st) = None
   \<or> snd (persist a env run gid l st) \<in>
       {flush_guarantees env, flush_attributes env, flush_files env,
        update_attribute_union env, append_processed env, save_checkpoint env}"
proof -
  let ?g = "writer_add (flush_guarantees env) (guarantees_writer (fst st))
      [guarantee_row_of env run gid l]"
  let ?w1 = "(fst st)\<lparr>guarantees_writer := fst ?g\<rparr>"
  let ?t = "writer_add (flush_attributes env) (attributes_writer ?w1) (attributes_rows l)"
  let ?w2 = "?w1\<lparr>attributes_writer := fst ?t\<rparr>"
  let ?f = "writer_add (flush_files env) (files_writer ?w2) (files_rows l)"
  let ?w3 = "?w2\<lparr>files_writer := fst ?f\<rparr>"
  show ?thesis
  proof (cases "snd ?g")
    case (Some e)
    then have "snd (persist a env run gid l st) = Some e"
      by (simp add: persist_def Let_def)
    then show ?thesis
      using Some writer_add_raises [of "flush_guarantees env" "guarantees_writer (fst st)"
          "[guarantee_row_of env run gid l]"] by auto
  next
    case g: None
    show ?thesis
    proof (cases "snd ?t")
      case (Some e)
      then have "snd (persist a env run gid l st) = Some e"
        using g by (simp add: persist_def Let_def)
      then show ?thesis
        using Some writer_add_raises [of "flush_attributes env" "attributes_writer ?w1"
            "attributes_rows l"] by auto
    next
      case t: None
      show ?thesis
      proof (cases "snd ?f")
        case (Some e)
        then have "snd (persist a env run gid l st) = Some e"
          using g t by (simp add: persist_def Let_def)
        then show ?thesis
          using Some writer_add_raises [of "flush_files env" "files_writer ?w2" "files_rows l"]
          by auto
      next
        case None
        then have "snd (persist a env run gid l st) =
            snd (update_state a env run gid l (?w3, snd st))"
          using g t by (simp add: persist_def Let_def)
        then show ?thesis
          using update_state_raises [of a env run gid l "(?w3, snd st)"] by auto
      qed
    qed
  qed
qed

lemma process_one_raises:
  "snd (process_one ex a env run gid st) = None
   \<or> snd (process_one ex a env run gid st) \<in>
       {restart_driver env, flush_guarantees env, flush_attributes env, flush_files env,
        update_attribute_union env, append_processed env, save_checkpoint env}"
proof (cases "snd (classified ex a env run gid
    (initial_locals (w_events (fst st)) (w_save_html_count (fst st))))")
  case None
  let ?r = "classified ex a env run gid
    (initial_locals (w_events (fst st)) (w_save_html_count (fst st)))"
  have "snd (process_one ex a env run gid st) =
      snd (persist a env run gid (fst ?r)
        ((fst st)\<lparr>w_events := events (fst ?r), w_save_html_count := save_html_count (fst ?r)\<rparr>,
         snd st))"
    using None by (simp add: process_one_def Let_def)
  then show ?thesis
    using persist_raises [of a env run gid "fst ?r"
        "((fst st)\<lparr>w_events := events (fst ?r), w_save_html_count := save_html_count (fst ?r)\<rparr>,
          snd st)"]
    by auto
next
  case (Some e)
  then have "restart_driver env = Some e"
    using classified_raises [of ex a env run gid
        "initial_locals (w_events (fst st)) (w_save_html_count (fst st))"]
    by auto
  moreover have "snd (process_one ex a env run gid st) = Some e"
    using Some by (simp add: process_one_def Let_def)
  ultimately show ?thesis by simp
qed

lemma append_processed_raises:
  assumes "snd (classified ex a env run gid
             (initial_locals (w_events (fst st)) (w_save_html_count (fst st)))) = None"
    and "flush_guarantees env = None" and "flush_attributes env = None"
    and "flush_files env = None" and "update_attribute_union env = None"
    and "append_processed env = Some e"
  shows "snd (process_one ex a env run gid st) = Some e"
  using assms
  by (simp add: process_one_def persist_def update_state_def Let_def writer_add_returns)

lemma process_one_shared:
  assumes "snd (process_one ex a env run gid st) = None"
  shows "processed_ids (snd (fst (process_one ex a env run gid st))) =
           insert gid (processed_ids (snd st))"
    and "processed_ids_file (snd (fst (process_one ex a env run gid st))) =
           append_processed_id (processed_ids_file (snd st)) gid"
  using assms
  by (simp_all add: process_one_def persist_def update_state_def Let_def split: option.splits)

lemma process_one_row:
  assumes "snd (process_one ex a env run gid st) = None"
  shows "rows_of (guarantees_writer (fst (fst (process_one ex a env run gid st)))) =
         rows_of (guarantees_writer (fst st)) @
         [guarantee_row_of env run gid
            (fst (classified ex a env run gid
                    (initial_locals (w_events (fst st)) (w_save_html_count (fst st)))))]"
proof -
  have "snd (classified ex a env run gid
      (initial_locals (w_events (fst st)) (w_save_html_count (fst st)))) = None"
    using assms by (auto simp: process_one_def Let_def split: option.splits)
  then show ?thesis
    by (rule process_one_worker(4))
qed

text \<open>
  C8, as amended. An exception raised inside the \<^verbatim>\<open>try\<close> block of a record (fetching,
  extracting, downloading, saving the pages) is caught: the status becomes \<^verbatim>\<open>TIMEOUT\<close>
  with the message \<^verbatim>\<open>Timeout after <per_id_timeout>s\<close> for the deadline exception and
  \<^verbatim>\<open>ERROR\<close> with the message of the exception otherwise, and when the handler returns the
  classification keeps it, or makes it \<^verbatim>\<open>ERROR\<close> if all the file rows collected before
  the exception failed. When the driver restart of the handler and the calls that write
  the rows and the state do not raise, the pass returns, one guarantee row with the
  classification is written, and the loop goes on with the next ID. An exception of one
  of these calls (the driver restart, the flush of a writer, the attribute union, the
  log of processed IDs, the checkpoint) is not caught: it is the only way a pass can
  raise, and it ends the loop of the worker, the remaining IDs of the worklist not being
  processed.
\<close>

theorem C8_exceptions_of_a_pass:
  "(snd (fetch ex a env run gid (deadline_of a env) l) = Some e \<longrightarrow>
      status (fst (try_block ex a env run gid l)) = caught_status e
      \<and> error_message (fst (try_block ex a env run gid l)) =
          (if cls e = ProcessingTimeout
           then ''Timeout after '' @ str_int (per_id_timeout a) @ ''s'' else msg e)
      \<and> (snd (try_block ex a env run gid l) = None \<longrightarrow>
           status (fst (classified ex a env run gid l)) =
             (if all_failed (files_rows (fst (fetch ex a env run gid (deadline_of a env) l)))
              then ERROR else caught_status e)
           \<and> error_message (fst (classified ex a env run gid l)) =
               error_message (fst (try_block ex a env run gid l))))
   \<and> (restart_driver env = None \<and> persist_quiet env \<longrightarrow>
        snd (process_one ex a env run gid st) = None
        \<and> rows_of (guarantees_writer (fst (fst (process_one ex a env run gid st)))) =
            rows_of (guarantees_writer (fst st)) @
            [guarantee_row_of env run gid
               (fst (classified ex a env run gid
                       (initial_locals (w_events (fst st)) (w_save_html_count (fst st)))))])
   \<and> (gid \<notin> processed_ids (snd st) \<or> force a \<longrightarrow>
        process_loop ex a envs run index (gid # rest) st =
          (case snd (process_one ex a (envs index) run gid st) of
             None \<Rightarrow>
               process_loop ex a envs run (Suc index) rest
                 (fst (process_one ex a (envs index) run gid st))
           | Some e' \<Rightarrow> (fst (process_one ex a (envs index) run gid st), Some e')))
   \<and> (snd (process_one ex a env run gid st) = None
        \<or> snd (process_one ex a env run gid st) \<in>
             {restart_driver env, flush_guarantees env, flush_attributes env, flush_files env,
              update_attribute_union env, append_processed env, save_checkpoint env})
   \<and> (snd (classified ex a env run gid
               (initial_locals (w_events (fst st)) (w_save_html_count (fst st)))) = None
        \<and> flush_guarantees env = None \<and> flush_attributes env = None \<and> flush_files env = None
        \<and> update_attribute_union env = None \<and> append_processed env = Some e \<longrightarrow>
        snd (process_one ex a env run gid st) = Some e)"
proof (intro conjI impI)
  assume f: "snd (fetch ex a env run gid (deadline_of a env) l) = Some e"
  show "status (fst (try_block ex a env run gid l)) = caught_status e"
    by (rule try_block_caught(1) [OF f])
  show "error_message (fst (try_block ex a env run gid l)) =
          (if cls e = ProcessingTimeout
           then ''Timeout after '' @ str_int (per_id_timeout a) @ ''s'' else msg e)"
    by (rule try_block_caught(2) [OF f])
  assume t: "snd (try_block ex a env run gid l) = None"
  show "status (fst (classified ex a env run gid l)) =
             (if all_failed (files_rows (fst (fetch ex a env run gid (deadline_of a env) l)))
              then ERROR else caught_status e)"
    by (rule classified_caught [OF f t])
  show "error_message (fst (classified ex a env run gid l)) =
               error_message (fst (try_block ex a env run gid l))"
    using t by (simp add: classified_def Let_def classify_rest)
next
  assume q: "restart_driver env = None \<and> persist_quiet env"
  then show p: "snd (process_one ex a env run gid st) = None"
    by (simp add: process_one_returns)
  show "rows_of (guarantees_writer (fst (fst (process_one ex a env run gid st)))) =
            rows_of (guarantees_writer (fst st)) @
            [guarantee_row_of env run gid
               (fst (classified ex a env run gid
                       (initial_locals (w_events (fst st)) (w_save_html_count (fst st)))))]"
    by (rule process_one_row [OF p])
next
  assume "gid \<notin> processed_ids (snd st) \<or> force a"
  then show "process_loop ex a envs run index (gid # rest) st =
          (case snd (process_one ex a (envs index) run gid st) of
             None \<Rightarrow>
               process_loop ex a envs run (Suc index) rest
                 (fst (process_one ex a (envs index) run gid st))
           | Some e' \<Rightarrow> (fst (process_one ex a (envs index) run gid st), Some e'))"
    by (cases "process_one ex a (envs index) run gid st") (auto split: option.splits)
next
  show "snd (process_one ex a env run gid st) = None
        \<or> snd (process_one ex a env run gid st) \<in>
             {restart_driver env, flush_guarantees env, flush_attributes env, flush_files env,
              update_attribute_union env, append_processed env, save_checkpoint env}"
    by (rule process_one_raises)
next
  assume "snd (classified ex a env run gid
               (initial_locals (w_events (fst st)) (w_save_html_count (fst st)))) = None
        \<and> flush_guarantees env = None \<and> flush_attributes env = None \<and> flush_files env = None
        \<and> update_attribute_union env = None \<and> append_processed env = Some e"
  then show "snd (process_one ex a env run gid st) = Some e"
    by (intro append_processed_raises) simp_all
qed

lemma full_disk_fetch:
  "snd (fetch ex live_args full_disk_env run gid (deadline_of live_args full_disk_env)
          (initial_locals evs n)) = Some (Exn OSError ''No space left on device'')"
  using fetch_primary_missing [OF full_disk_env_primary, of ex run gid evs n]
  by (auto simp: full_disk_env_def)

lemma log_full_env_primary: "primary_missing live_args log_full_env"
  by (simp add: primary_missing_def live_args_def default_args_def missing_env_def
      log_full_env_def calm_env_def deadline_of_def ensure_time_left_def is_missing_page_def
      MISSING_PAGE_PHRASE_def)

theorem C8_exceptions_of_a_pass_witness:
  "status (fst (try_block no_fields live_args full_disk_env 1 5 (initial_locals [] 0))) = ERROR
   \<and> error_message (fst (try_block no_fields live_args full_disk_env 1 5 (initial_locals [] 0))) =
       ''No space left on device''
   \<and> snd (process_loop no_fields live_args (\<lambda>index. full_disk_env) 1 1 [5, 6] (fresh_state [])) = None
   \<and> map g_id (rows_of (guarantees_writer
        (fst (fst (process_loop no_fields live_args (\<lambda>index. full_disk_env) 1 1 [5, 6]
                     (fresh_state [])))))) = [5, 6]
   \<and> map g_status (rows_of (guarantees_writer
        (fst (fst (process_loop no_fields live_args (\<lambda>index. full_disk_env) 1 1 [5, 6]
                     (fresh_state [])))))) = [ERROR, ERROR]
   \<and> snd (process_one no_fields live_args log_full_env 1 5 (fresh_state [])) =
       Some (Exn OSError ''No space left on device'')"
proof -
  let ?e = "Exn OSError ''No space left on device''"
  let ?envs = "\<lambda>index :: nat. full_disk_env"
  let ?st0 = "fresh_state []"
  let ?p1 = "process_one no_fields live_args full_disk_env 1 5 ?st0"
  let ?p2 = "process_one no_fields live_args full_disk_env 1 6 (fst ?p1)"
  note t1 = C8_exceptions_of_a_pass [where ex = no_fields and a = live_args and env = full_disk_env
      and run = 1 and gid = 5 and l = "initial_locals [] 0" and e = ?e and st = ?st0
      and envs = ?envs and index = 1 and rest = "[6]"]
  note t2 = C8_exceptions_of_a_pass [where ex = no_fields and a = live_args and env = full_disk_env
      and run = 1 and gid = 6 and l = "initial_locals [] 0" and e = ?e and st = "fst ?p1"
      and envs = ?envs and index = 2 and rest = "[]"]
  note t3 = C8_exceptions_of_a_pass [where ex = no_fields and a = live_args and env = log_full_env
      and run = 1 and gid = 5 and e = ?e and st = ?st0]
  have f: "snd (fetch no_fields live_args full_disk_env 1 5 (deadline_of live_args full_disk_env)
      (initial_locals [] 0)) = Some ?e"
    by (rule full_disk_fetch)
  have c: "caught_status ?e = ERROR"
    by (simp add: caught_status_def)
  have first: "status (fst (try_block no_fields live_args full_disk_env 1 5 (initial_locals [] 0))) = ERROR
      \<and> error_message (fst (try_block no_fields live_args full_disk_env 1 5 (initial_locals [] 0))) =
       ''No space left on device''"
    using t1 f c by simp
  have q: "restart_driver full_disk_env = None \<and> persist_quiet full_disk_env"
    by (simp add: calm_returns)
  have p1: "snd ?p1 = None"
    and r1: "rows_of (guarantees_writer (fst (fst ?p1))) =
      rows_of (guarantees_writer (fst ?st0)) @
      [guarantee_row_of full_disk_env 1 5
         (fst (classified no_fields live_args full_disk_env 1 5
                 (initial_locals (w_events (fst ?st0)) (w_save_html_count (fst ?st0)))))]"
    using t1 q by blast+
  have p2: "snd ?p2 = None"
    and r2: "rows_of (guarantees_writer (fst (fst ?p2))) =
      rows_of (guarantees_writer (fst (fst ?p1))) @
      [guarantee_row_of full_disk_env 1 6
         (fst (classified no_fields live_args full_disk_env 1 6
                 (initial_locals (w_events (fst (fst ?p1))) (w_save_html_count (fst (fst ?p1))))))]"
    using t2 q by blast+
  have s0: "processed_ids (snd ?st0) = {}" "rows_of (guarantees_writer (fst ?st0)) = []"
    by (simp_all add: fresh_state_def initial_worker_def rows_of_def)
  have s1: "processed_ids (snd (fst ?p1)) = {5}"
    using process_one_shared(1) [OF p1] s0 by simp
  have l1: "process_loop no_fields live_args ?envs 1 1 [5, 6] ?st0 =
      process_loop no_fields live_args ?envs 1 (Suc 1) [6] (fst ?p1)"
    using t1 p1 s0 by (simp del: process_loop.simps)
  have l2: "process_loop no_fields live_args ?envs 1 2 [6] (fst ?p1) =
      process_loop no_fields live_args ?envs 1 (Suc 2) [] (fst ?p2)"
    using t2 p2 s1 by (simp del: process_loop.simps)
  have l: "process_loop no_fields live_args ?envs 1 1 [5, 6] ?st0 = (fst ?p2, None)"
    using l1 l2 by (simp del: process_loop.simps add: numeral_2_eq_2) simp
  have g: "g_id (guarantee_row_of env run gid x) = gid"
    "g_status (guarantee_row_of env run gid x) = status x" for env run gid x
    by (simp_all add: guarantee_row_of_def)
  have fs: "status (fst (classified no_fields live_args full_disk_env 1 gid
      (initial_locals (w_events (fst st)) (w_save_html_count (fst st))))) = ERROR"
    for gid and st :: "worker \<times> shared"
    using calm_final_status(2) [of no_fields 1 gid st] by (simp add: final_status_def)
  have rows: "map g_id (rows_of (guarantees_writer (fst (fst ?p2)))) = [5, 6]"
    "map g_status (rows_of (guarantees_writer (fst (fst ?p2)))) = [ERROR, ERROR]"
    by (simp_all add: r2 r1 s0 g fs)
  have a: "snd (classified no_fields live_args log_full_env 1 5
      (initial_locals (w_events (fst ?st0)) (w_save_html_count (fst ?st0)))) = None"
    by (rule classified_returns) (simp add: log_full_env_def missing_env_def calm_env_def)
  have last: "snd (process_one no_fields live_args log_full_env 1 5 ?st0) = Some ?e"
    using t3 a by (simp add: log_full_env_def missing_env_def calm_env_def)
  show ?thesis
    using first l rows last by simp
qed

text \<open>
  The claim as stated fails when a call that writes the state raises: the first ID of the
  worklist is fetched and classified, appending it to the log of processed IDs raises
  \<^verbatim>\<open>OSError\<close>, and the worker ends with that exception without asking for a page of the
  second ID.
\<close>

theorem C8_persist_failure_ends_worker:
  "snd (process_ids no_fields live_args (steady_worker log_full_env) 1 [5, 6]
          (snd (fresh_state []))) = Some (Exn OSError ''No space left on device'')
   \<and> w_events (fst (fst (process_ids no_fields live_args (steady_worker log_full_env) 1 [5, 6]
          (snd (fresh_state []))))) = [Get (GENERAL_INFO_URL 5)]"
proof -
  let ?e = "Exn OSError ''No space left on device''"
  let ?st0 = "(initial_worker, snd (fresh_state []))"
  let ?p = "process_one no_fields live_args log_full_env 1 5 ?st0"
  have a: "snd (classified no_fields live_args log_full_env 1 5
      (initial_locals (w_events (fst ?st0)) (w_save_html_count (fst ?st0)))) = None"
    by (rule classified_returns) (simp add: log_full_env_def missing_env_def calm_env_def)
  have p: "snd ?p = Some ?e"
    by (rule append_processed_raises [OF a])
      (simp_all add: log_full_env_def missing_env_def calm_env_def)
  have ev: "w_events (fst (fst ?p)) = [Get (GENERAL_INFO_URL 5)]"
    using process_one_worker(1) [of no_fields live_args log_full_env 1 5 ?st0]
      classified_primary_missing [OF log_full_env_primary, of no_fields 1 5 "[]" 0]
    by (simp add: initial_worker_def primary_request_def live_args_def default_args_def)
  have l: "process_loop no_fields live_args (\<lambda>index. log_full_env) 1 (Suc 0) [5, 6] ?st0 =
      (fst ?p, Some ?e)"
    using p by (cases ?p) (simp add: fresh_state_def)
  have "process_ids no_fields live_args (steady_worker log_full_env) 1 [5, 6] (snd (fresh_state [])) =
      (fst ?p, Some ?e)"
    by (simp add: process_ids_def steady_worker_def calm_worker_env_def l Let_def
        del: process_loop.simps)
  then show ?thesis
    using ev by simp
qed
section \<open>Retry bookkeeping: proofs\<close>

lemma retry_update_lookup:
  "map_of (retry_update m st g rs) (str_int g) =
     (if failing st \<and> dict_get rs (str_int g) 0 + 1 < m
      then Some (dict_get rs (str_int g) 0 + 1) else None)"
  by (simp add: retry_update_def failing_def Let_def update_conv' delete_conv')

lemma retry_update_other:
  "k \<noteq> str_int g \<Longrightarrow> map_of (retry_update m st g rs) k = map_of rs k"
  by (simp add: retry_update_def Let_def update_conv' delete_conv')

lemma retry_after_snoc:
  "retry_after m g (sts @ [st]) rs = retry_update m st g (retry_after m g sts rs)"
  by (simp add: retry_after_def)

lemma retry_after_count:
  assumes "list_all failing sts" and "map_of rs (str_int g) = None"
  shows "map_of (retry_after m g sts rs) (str_int g) =
           (if 0 < m \<and> int (length sts) mod m \<noteq> 0 then Some (int (length sts) mod m) else None)"
  using assms(1)
proof (induction sts rule: rev_induct)
  case Nil
  then show ?case by (simp add: retry_after_def assms(2))
next
  case (snoc st sts)
  then have f: "failing st" and fs: "list_all failing sts" by simp_all
  let ?n = "int (length sts)"
  have prev: "dict_get (retry_after m g sts rs) (str_int g) 0 = (if 0 < m then ?n mod m else 0)"
    using snoc.IH [OF fs] by (auto simp: dict_get_def)
  show ?case
  proof (cases "0 < m")
    case False
    then show ?thesis
      using f prev by (simp add: retry_after_snoc retry_update_lookup)
  next
    case True
    have r: "?n mod m < m" "0 \<le> ?n mod m" using True by simp_all
    show ?thesis
    proof (cases "?n mod m + 1 < m")
      case True
      then have "(?n + 1) mod m = ?n mod m + 1"
        using r by (metis mod_add_left_eq mod_pos_pos_trivial add_nonneg_nonneg zero_le_one)
      then have "(1 + ?n) mod m = ?n mod m + 1" "(1 + ?n) mod m \<noteq> 0"
        using r by (simp_all add: add.commute)
      then show ?thesis
        using f prev True \<open>0 < m\<close> r by (simp add: retry_after_snoc retry_update_lookup)
    next
      case False
      then have "?n mod m + 1 = m" using r by linarith
      then have "(?n + 1) mod m = 0"
        by (metis mod_add_left_eq mod_self)
      then have "(1 + ?n) mod m = 0"
        by (simp add: add.commute)
      then show ?thesis
        using f prev False \<open>0 < m\<close> by (simp add: retry_after_snoc retry_update_lookup)
    qed
  qed
qed

lemma process_one_retry:
  assumes "snd (process_one ex a env run gid st) = None"
  shows "retry_state (snd (fst (process_one ex a env run gid st))) =
         retry_update (max_retries a) (final_status ex a env run gid st) gid (retry_state (snd st))"
  using assms
  by (simp add: process_one_def persist_def update_state_def final_status_def Let_def
      split: option.splits)

lemma attempts_retry:
  assumes "\<forall>i < n. snd (process_one ex a (env i) (run i) gid (attempts ex a env run gid i st)) = None"
  shows "retry_state (snd (attempts ex a env run gid n st)) =
         retry_after (max_retries a) gid
           (map (\<lambda>i. final_status ex a (env i) (run i) gid (attempts ex a env run gid i st)) [0 ..< n])
           (retry_state (snd st))"
  using assms
proof (induction n)
  case 0
  show ?case by (simp add: retry_after_def)
next
  case (Suc n)
  have p: "snd (process_one ex a (env n) (run n) gid (attempts ex a env run gid n st)) = None"
    using Suc.prems by simp
  have "retry_state (snd (attempts ex a env run gid n st)) =
      retry_after (max_retries a) gid
        (map (\<lambda>i. final_status ex a (env i) (run i) gid (attempts ex a env run gid i st)) [0 ..< n])
        (retry_state (snd st))"
    using Suc.prems by (intro Suc.IH) simp
  then show ?case
    using process_one_retry [OF p] by (simp add: retry_after_snoc)
qed

text \<open>
  C5. When a pass of the loop for an ID returns, the state update has been made with the
  final status of the pass: with OK or MISSING the ID has no entry in the retry
  dictionary; with ERROR, PARTIAL or TIMEOUT the attempt count is the old one plus one,
  and the entry is kept exactly when that count is below \<^verbatim>\<open>max_retries\<close>; the entries of
  other IDs are untouched. Hence an ID with no entry whose passes all return with a
  failing status has the entry \<open>n\<close> after \<open>n < max_retries\<close> passes and no entry after
  exactly \<open>max_retries\<close> passes.
\<close>

theorem C5_retry_state_update:
  "(snd (process_one ex a env run gid st) = None \<longrightarrow>
      (final_status ex a env run gid st = OK \<or> final_status ex a env run gid st = MISSING \<longrightarrow>
         map_of (retry_state (snd (fst (process_one ex a env run gid st)))) (str_int gid) = None)
      \<and> (final_status ex a env run gid st = ERROR \<or> final_status ex a env run gid st = PARTIAL
          \<or> final_status ex a env run gid st = TIMEOUT \<longrightarrow>
         map_of (retry_state (snd (fst (process_one ex a env run gid st)))) (str_int gid) =
           (if dict_get (retry_state (snd st)) (str_int gid) 0 + 1 < max_retries a
            then Some (dict_get (retry_state (snd st)) (str_int gid) 0 + 1) else None))
      \<and> (\<forall>k. k \<noteq> str_int gid \<longrightarrow>
           map_of (retry_state (snd (fst (process_one ex a env run gid st)))) k =
             map_of (retry_state (snd st)) k))
   \<and> ((\<forall>i < n. snd (process_one ex a (envs i) (runs i) gid (attempts ex a envs runs gid i st)) = None
                \<and> failing (final_status ex a (envs i) (runs i) gid (attempts ex a envs runs gid i st)))
       \<and> map_of (retry_state (snd st)) (str_int gid) = None \<and> 0 < n \<longrightarrow>
        (int n < max_retries a \<longrightarrow>
           map_of (retry_state (snd (attempts ex a envs runs gid n st))) (str_int gid) = Some (int n))
        \<and> (int n = max_retries a \<longrightarrow>
           map_of (retry_state (snd (attempts ex a envs runs gid n st))) (str_int gid) = None))"
proof (rule conjI)
  show "snd (process_one ex a env run gid st) = None \<longrightarrow>
      (final_status ex a env run gid st = OK \<or> final_status ex a env run gid st = MISSING \<longrightarrow>
         map_of (retry_state (snd (fst (process_one ex a env run gid st)))) (str_int gid) = None)
      \<and> (final_status ex a env run gid st = ERROR \<or> final_status ex a env run gid st = PARTIAL
          \<or> final_status ex a env run gid st = TIMEOUT \<longrightarrow>
         map_of (retry_state (snd (fst (process_one ex a env run gid st)))) (str_int gid) =
           (if dict_get (retry_state (snd st)) (str_int gid) 0 + 1 < max_retries a
            then Some (dict_get (retry_state (snd st)) (str_int gid) 0 + 1) else None))
      \<and> (\<forall>k. k \<noteq> str_int gid \<longrightarrow>
           map_of (retry_state (snd (fst (process_one ex a env run gid st)))) k =
             map_of (retry_state (snd st)) k)"
  proof (rule impI)
    assume "snd (process_one ex a env run gid st) = None"
    from process_one_retry [OF this] show "(final_status ex a env run gid st = OK \<or> final_status ex a env run gid st = MISSING \<longrightarrow>
         map_of (retry_state (snd (fst (process_one ex a env run gid st)))) (str_int gid) = None)
      \<and> (final_status ex a env run gid st = ERROR \<or> final_status ex a env run gid st = PARTIAL
          \<or> final_status ex a env run gid st = TIMEOUT \<longrightarrow>
         map_of (retry_state (snd (fst (process_one ex a env run gid st)))) (str_int gid) =
           (if dict_get (retry_state (snd st)) (str_int gid) 0 + 1 < max_retries a
            then Some (dict_get (retry_state (snd st)) (str_int gid) 0 + 1) else None))
      \<and> (\<forall>k. k \<noteq> str_int gid \<longrightarrow>
           map_of (retry_state (snd (fst (process_one ex a env run gid st)))) k =
             map_of (retry_state (snd st)) k)"
      by (auto simp: retry_update_lookup retry_update_other failing_def)
  qed
next
  show "(\<forall>i < n. snd (process_one ex a (envs i) (runs i) gid (attempts ex a envs runs gid i st)) = None
                \<and> failing (final_status ex a (envs i) (runs i) gid (attempts ex a envs runs gid i st)))
       \<and> map_of (retry_state (snd st)) (str_int gid) = None \<and> 0 < n \<longrightarrow>
        (int n < max_retries a \<longrightarrow>
           map_of (retry_state (snd (attempts ex a envs runs gid n st))) (str_int gid) = Some (int n))
        \<and> (int n = max_retries a \<longrightarrow>
           map_of (retry_state (snd (attempts ex a envs runs gid n st))) (str_int gid) = None)"
  proof (rule impI)
    let ?sts = "map (\<lambda>i. final_status ex a (envs i) (runs i) gid (attempts ex a envs runs gid i st)) [0 ..< n]"
    assume h: "(\<forall>i < n. snd (process_one ex a (envs i) (runs i) gid (attempts ex a envs runs gid i st)) = None
                \<and> failing (final_status ex a (envs i) (runs i) gid (attempts ex a envs runs gid i st)))
       \<and> map_of (retry_state (snd st)) (str_int gid) = None \<and> 0 < n"
    then have r: "retry_state (snd (attempts ex a envs runs gid n st)) =
        retry_after (max_retries a) gid ?sts (retry_state (snd st))"
      by (intro attempts_retry) simp
    have f: "list_all failing ?sts"
      using h by (simp add: list_all_iff)
    have c: "map_of (retry_after (max_retries a) gid ?sts (retry_state (snd st))) (str_int gid) =
        (if 0 < max_retries a \<and> int (length ?sts) mod max_retries a \<noteq> 0
         then Some (int (length ?sts) mod max_retries a) else None)"
      using h by (intro retry_after_count [OF f]) simp
    show "(int n < max_retries a \<longrightarrow>
           map_of (retry_state (snd (attempts ex a envs runs gid n st))) (str_int gid) = Some (int n))
        \<and> (int n = max_retries a \<longrightarrow>
           map_of (retry_state (snd (attempts ex a envs runs gid n st))) (str_int gid) = None)"
      using h by (simp add: r c)
  qed
qed

theorem C5_retry_state_update_witness:
  "map_of (retry_state (snd (fst (process_one no_fields live_args missing_env 1 5
       (fresh_state [(''5'', 2)]))))) ''5'' = None
   \<and> map_of (retry_state (snd (fst (process_one no_fields live_args full_disk_env 1 5
       (fresh_state [(''5'', 1)]))))) ''5'' = Some 2
   \<and> map_of (retry_state (snd (fst (process_one no_fields live_args full_disk_env 1 5
       (fresh_state [(''5'', 2)]))))) ''5'' = None
   \<and> map_of (retry_state (snd (fst (process_one no_fields live_args full_disk_env 1 5
       (fresh_state [(''8'', 1)]))))) ''8'' = Some 1
   \<and> map_of (retry_state (snd (attempts no_fields live_args (\<lambda>i. full_disk_env) (\<lambda>i. 1) 5 2
       (fresh_state [])))) ''5'' = Some 2
   \<and> map_of (retry_state (snd (attempts no_fields live_args (\<lambda>i. full_disk_env) (\<lambda>i. 1) 5 3
       (fresh_state [])))) ''5'' = None"
proof -
  have s: "str_int 5 = ''5''" by (simp add: str_int_def str_nat.simps)
  have m: "max_retries live_args = 3" by (simp add: live_args_def default_args_def)
  have r: "retry_state (snd (fresh_state rs)) = rs" for rs
    by (simp add: fresh_state_def)
  have d1: "dict_get [(''5'', 1::int)] ''5'' 0 = 1" and d2: "dict_get [(''5'', 2::int)] ''5'' 0 = 2"
    and d3: "dict_get [(''8'', 1::int)] ''5'' 0 = 0"
    by (simp_all add: dict_get_def)
  have p: "snd (process_one no_fields live_args missing_env 1 5 st) = None"
    "snd (process_one no_fields live_args full_disk_env 1 5 st) = None" for st
    by (simp_all add: process_one_returns calm_returns)
  have one: "map_of (retry_state (snd (fst (process_one no_fields live_args missing_env 1 5
       (fresh_state [(''5'', 2)]))))) ''5'' = None"
    using C5_retry_state_update [of no_fields live_args missing_env 1 5 "fresh_state [(''5'', 2)]" 0]
    by (simp add: p calm_final_status s)
  have two: "map_of (retry_state (snd (fst (process_one no_fields live_args full_disk_env 1 5
       (fresh_state [(''5'', 1)]))))) ''5'' = Some 2"
    using C5_retry_state_update [of no_fields live_args full_disk_env 1 5 "fresh_state [(''5'', 1)]" 0]
    by (simp add: p calm_final_status s m r d1)
  have three: "map_of (retry_state (snd (fst (process_one no_fields live_args full_disk_env 1 5
       (fresh_state [(''5'', 2)]))))) ''5'' = None"
    using C5_retry_state_update [of no_fields live_args full_disk_env 1 5 "fresh_state [(''5'', 2)]" 0]
    by (simp add: p calm_final_status s m r d2)
  have four: "map_of (retry_state (snd (fst (process_one no_fields live_args full_disk_env 1 5
       (fresh_state [(''8'', 1)]))))) ''8'' = Some 1"
    using C5_retry_state_update [of no_fields live_args full_disk_env 1 5 "fresh_state [(''8'', 1)]" 0]
    by (simp add: p calm_final_status s m r)
  have five: "map_of (retry_state (snd (attempts no_fields live_args (\<lambda>i. full_disk_env) (\<lambda>i. 1) 5 2
       (fresh_state [])))) ''5'' = Some 2"
    using C5_retry_state_update [of no_fields live_args _ _ 5 "fresh_state []" 2 "\<lambda>i. full_disk_env" "\<lambda>i. 1"]
    by (simp add: p calm_final_status s m r failing_def del: attempts.simps)
  have six: "map_of (retry_state (snd (attempts no_fields live_args (\<lambda>i. full_disk_env) (\<lambda>i. 1) 5 3
       (fresh_state [])))) ''5'' = None"
    using C5_retry_state_update [of no_fields live_args _ _ 5 "fresh_state []" 3 "\<lambda>i. full_disk_env" "\<lambda>i. 1"]
    by (simp add: p calm_final_status s m r failing_def del: attempts.simps)
  show ?thesis
    using one two three four five six by simp
qed
section \<open>Loading the processed IDs: proofs\<close>

lemma processed_loop_set:
  "processed_loop to_int ls acc =
     acc \<union> {n. \<exists>l \<in> set ls. strip l \<noteq> [] \<and> to_int (strip l) = Some n}"
proof (induction ls arbitrary: acc)
  case Nil
  show ?case by simp
next
  case (Cons l ls)
  show ?case
  proof (cases "strip l = []")
    case True
    then show ?thesis by (simp add: Cons.IH)
  next
    case False
    then show ?thesis
      by (cases "to_int (strip l)") (auto simp: Cons.IH)
  qed
qed

text \<open>
  C10, as amended. \<^verbatim>\<open>load_processed_ids\<close> returns the empty set when the file does not
  exist. On a file whose bytes are valid UTF-8 it returns exactly the integers of the lines
  that, stripped, are not blank and parse as integers, skipping the others without raising,
  whatever the parser of integers accepts. On a file whose bytes are not valid UTF-8 it
  raises \<^verbatim>\<open>UnicodeDecodeError\<close>: reading the text is outside the \<^verbatim>\<open>try\<close>.
\<close>

theorem C10_load_processed_ids:
  "load_processed_ids to_int None = Inr {}
   \<and> (\<forall>bytes text. decode_utf8 bytes = Some text \<longrightarrow>
         load_processed_ids to_int (Some bytes) =
           Inr {n. \<exists>l \<in> set (splitlines (universal_newlines text)).
                     strip l \<noteq> [] \<and> to_int (strip l) = Some n})
   \<and> (\<forall>bytes. decode_utf8 bytes = None \<longrightarrow>
         load_processed_ids to_int (Some bytes) = Inl (Exn UnicodeDecodeError ''invalid utf-8''))"
  by (simp add: load_processed_ids_def processed_loop_set)

theorem C10_load_processed_ids_witness:
  "load_processed_ids py_int None = Inr {}
   \<and> load_processed_ids py_int (Some [49, 50, 13, 10, 10, 97, 98, 13, 32, 55, 32, 10, 45, 51]) = Inr {12, 7, - 3}
   \<and> load_processed_ids py_int (Some [49, 10, 255]) = Inl (Exn UnicodeDecodeError ''invalid utf-8'')"
proof -
  let ?bytes = "[49, 50, 13, 10, 10, 97, 98, 13, 32, 55, 32, 10, 45, 51] :: nat list"
  have d: "decode_utf8 ?bytes = Some ?bytes"
    by (simp add: decode_utf8_def)
  have l: "splitlines (universal_newlines ?bytes) = [[49, 50], [], [97, 98], [32, 55, 32], [45, 51]]"
    by (simp add: splitlines_def line_boundary_def)
  have s: "strip [49, 50] = [49, 50]" "strip [] = []" "strip [97, 98] = [97, 98]"
    "strip [32, 55, 32] = [55]" "strip [45, 51] = [45, 51]"
    by (simp_all add: strip_def isspace_def)
  have i: "py_int [49, 50] = Some 12" "py_int [97, 98] = None" "py_int [55] = Some 7"
    "py_int [45, 51] = Some (- 3)"
    by (simp_all add: py_int_def int_space_def isspace_def decimal_def decimal_zeros_def)
  have e: "decode_utf8 [49, 10, 255] = None"
    by (simp add: decode_utf8_def)
  have "load_processed_ids py_int (Some ?bytes) =
      Inr {n. \<exists>l \<in> set (splitlines (universal_newlines ?bytes)).
                strip l \<noteq> [] \<and> py_int (strip l) = Some n}"
    using C10_load_processed_ids [of py_int] d by blast
  also have "\<dots> = Inr {12, 7, - 3}"
    unfolding l by (auto simp: s i)
  finally have "load_processed_ids py_int (Some ?bytes) = Inr {12, 7, - 3}" .
  moreover have "load_processed_ids py_int (Some [49, 10, 255]) = Inl (Exn UnicodeDecodeError ''invalid utf-8'')"
    using C10_load_processed_ids [of py_int] e by blast
  moreover have "load_processed_ids py_int None = Inr {}"
    using C10_load_processed_ids [of py_int] by blast
  ultimately show ?thesis by blast
qed

text \<open>
  The claim as stated, total on arbitrary file contents, fails on the file that holds the
  single byte 255.
\<close>

theorem C10_invalid_utf8_raises:
  "load_processed_ids py_int (Some [255]) = Inl (Exn UnicodeDecodeError ''invalid utf-8'')"
  by (simp add: load_processed_ids_def decode_utf8_def)


end
